(* ===== verification/Prelude.thy ===== *)
theory Prelude
  imports Main "HOL-Library.Word"
begin

text \<open>
  Shared vocabulary of the model of the sample \<open>http_get.c\<close>: the console the
  program prints to, the names of the C scalar types it uses, the collection of
  unfolding rules the component theories contribute to, and generic facts about
  traces (lists of observable actions) that the component proofs share.
\<close>

section \<open>Collections and type names\<close>

named_theorems model_defs \<open>definitions of the model unfolded when a concrete run is evaluated\<close>

type_synonym c_int = int
  \<comment> \<open>C \<open>int\<close> return values: only compared with constants, never computed with\<close>

type_synonym u32 = "32 word"
  \<comment> \<open>C \<open>uint32_t\<close>\<close>

section \<open>The console\<close>

text \<open>
  \<open>printf\<close> and \<open>printk\<close> both write to the one console. A write is recorded as
  the format string of the call together with its integer arguments; a \<open>%s\<close>
  write of a C string records the bytes it prints. The console is the list of
  writes in the order they were made.
\<close>

datatype con =
    Con_fmt string "c_int list"
  | Con_str string

record console_state =
  console :: "con list"

definition print :: "string \<Rightarrow> c_int list \<Rightarrow> 'a console_state_scheme \<Rightarrow> 'a console_state_scheme" where
  "print fmt args s = s\<lparr>console := console s @ [Con_fmt fmt args]\<rparr>"

text \<open>
  \<open>printf("%s", buf)\<close> prints the bytes of \<open>buf\<close> up to the first NUL byte: a C
  string ends there, whatever the buffer holds after it.
\<close>

definition c_string :: "char list \<Rightarrow> string" where
  "c_string buf = takeWhile (\<lambda>c. c \<noteq> CHR 0x00) buf"

definition print_str :: "char list \<Rightarrow> 'a console_state_scheme \<Rightarrow> 'a console_state_scheme" where
  "print_str buf s = s\<lparr>console := console s @ [Con_str (c_string buf)]\<rparr>"

text \<open>The bytes a console write of \<open>%s\<close> printed, as opposed to formatted messages.\<close>

primrec con_text :: "con \<Rightarrow> string list" where
  "con_text (Con_fmt f a) = []"
| "con_text (Con_str s) = [s]"

definition printed :: "con list \<Rightarrow> string list" where
  "printed cs = concat (map con_text cs)"

declare print_def [model_defs] print_str_def [model_defs] c_string_def [model_defs]

lemma console_print [simp]: "console (print f a s) = console s @ [Con_fmt f a]"
  by (simp add: print_def)

lemma console_print_str [simp]: "console (print_str b s) = console s @ [Con_str (c_string b)]"
  by (simp add: print_str_def)

lemma printed_simps [simp]:
  "printed [] = []" "printed (cs @ ds) = printed cs @ printed ds"
  "printed (Con_fmt f a # cs) = printed cs" "printed (Con_str t # cs) = t # printed cs"
  by (simp_all add: printed_def)

lemma printed_print [simp]: "printed (console (print f a s)) = printed (console s)"
  by (simp add: print_def)

text \<open>The bytes printed from a buffer holding no NUL byte are the whole buffer.\<close>

lemma c_string_no_nul [simp]: "CHR 0x00 \<notin> set xs \<Longrightarrow> c_string xs = xs"
  by (induction xs) (auto simp: c_string_def)

lemma c_string_append_nul [simp]:
  "CHR 0x00 \<notin> set xs \<Longrightarrow> c_string (xs @ CHR 0x00 # ys) = xs"
  by (induction xs) (auto simp: c_string_def)

section \<open>Traces\<close>

text \<open>
  \<open>precedes a b xs\<close>: if \<open>b\<close> occurs in the trace \<open>xs\<close>, then \<open>a\<close> occurs
  before its first occurrence.
\<close>

definition precedes :: "'a \<Rightarrow> 'a \<Rightarrow> 'a list \<Rightarrow> bool" where
  "precedes a b xs \<longleftrightarrow> (b \<in> set xs \<longrightarrow> a \<in> set (takeWhile (\<lambda>x. x \<noteq> b) xs))"

lemma precedes_append_left:
  "a \<in> set xs \<Longrightarrow> b \<notin> set xs \<Longrightarrow> precedes a b (xs @ ys)"
  by (induction xs) (auto simp: precedes_def)

lemma precedes_append_right:
  "b \<notin> set xs \<Longrightarrow> precedes a b ys \<Longrightarrow> precedes a b (xs @ ys)"
  by (induction xs) (auto simp: precedes_def)

lemma precedes_absent [simp]: "b \<notin> set xs \<Longrightarrow> precedes a b xs"
  by (simp add: precedes_def)

end
