(* ===== verification/Net_Events.thy ===== *)
theory Net_Events
  imports Prelude
begin

text \<open>
  The readiness tracker and the event subscriber of \<open>http_get.c\<close>: the global
  flag \<open>is_network_ready\<close>, the three \<open>net_mgmt\<close> event handlers that set and clear
  it, the table \<open>iface_events\<close> and the loop \<open>setup_iface_events\<close> that registers
  one callback per table row. The \<open>net_mgmt\<close> event bus of Zephyr, which is not
  part of the sample, is modelled from its interface: a list of registered
  callbacks, each run on every event that its mask matches.
\<close>

unbundle bit_operations_syntax

section \<open>Event codes\<close>

text \<open>
  Zephyr's \<open>net_mgmt\<close> event code layout: bit 31 marks an event, bit 30 an event
  bound to an interface, bits 28--29 the layer, bits 16--26 the layer code and
  bits 0--15 the command.
\<close>

definition NET_MGMT_LAYER :: "u32 \<Rightarrow> u32" where
  "NET_MGMT_LAYER l = push_bit 28 (l AND 3)"

definition NET_MGMT_LAYER_CODE :: "u32 \<Rightarrow> u32" where
  "NET_MGMT_LAYER_CODE c = push_bit 16 (c AND 0x7FF)"

definition NET_MGMT_GET_LAYER :: "u32 \<Rightarrow> u32" where
  "NET_MGMT_GET_LAYER e = drop_bit 28 e AND 3"

definition NET_MGMT_GET_LAYER_CODE :: "u32 \<Rightarrow> u32" where
  "NET_MGMT_GET_LAYER_CODE e = drop_bit 16 e AND 0x7FF"

definition NET_MGMT_GET_COMMAND :: "u32 \<Rightarrow> u32" where
  "NET_MGMT_GET_COMMAND e = e AND 0xFFFF"

definition NET_EVENT_IF_BASE :: u32 where
  "NET_EVENT_IF_BASE = 0x80000000 OR 0x40000000 OR NET_MGMT_LAYER 1 OR NET_MGMT_LAYER_CODE 1"

definition NET_EVENT_L4_BASE :: u32 where
  "NET_EVENT_L4_BASE = 0x80000000 OR 0x40000000 OR NET_MGMT_LAYER 2 OR NET_MGMT_LAYER_CODE 0x114"

definition NET_EVENT_IF_DOWN :: u32 where
  "NET_EVENT_IF_DOWN = NET_EVENT_IF_BASE OR 1"

definition NET_EVENT_IF_UP :: u32 where
  "NET_EVENT_IF_UP = NET_EVENT_IF_BASE OR 2"

definition NET_EVENT_IF_ADMIN_DOWN :: u32 where
  "NET_EVENT_IF_ADMIN_DOWN = NET_EVENT_IF_BASE OR 3"

definition NET_EVENT_DNS_SERVER_ADD :: u32 where
  "NET_EVENT_DNS_SERVER_ADD = NET_EVENT_L4_BASE OR 3"

lemmas event_code_defs [model_defs] =
  NET_EVENT_IF_DOWN_def NET_EVENT_IF_UP_def NET_EVENT_IF_ADMIN_DOWN_def
  NET_EVENT_DNS_SERVER_ADD_def NET_EVENT_IF_BASE_def NET_EVENT_L4_BASE_def
  NET_MGMT_LAYER_def NET_MGMT_LAYER_CODE_def

section \<open>State and handlers\<close>

text \<open>
  The C function pointers of type \<open>net_mgmt_event_handler_t\<close> that the sample
  passes around are its three handlers; a callback structure holds one of them
  and the event mask it was initialised with.
\<close>

datatype handler_fn =
    Iface_dns_added_evt_handler
  | Iface_up_evt_handler
  | Iface_down_evt_handler

record mgmt_event_callback =
  cb_handler :: handler_fn
  cb_event_mask :: u32

record net_state = console_state +
  is_network_ready :: bool
  event_callbacks :: "mgmt_event_callback list"

definition iface_dns_added_evt_handler :: "u32 \<Rightarrow> 'a net_state_scheme \<Rightarrow> 'a net_state_scheme" where
  "iface_dns_added_evt_handler mgmt_event s =
     (if mgmt_event \<noteq> NET_EVENT_DNS_SERVER_ADD then s
      else (print ''DNS ready\<newline>'' [] s)\<lparr>is_network_ready := True\<rparr>)"

definition iface_up_evt_handler :: "u32 \<Rightarrow> 'a net_state_scheme \<Rightarrow> 'a net_state_scheme" where
  "iface_up_evt_handler mgmt_event s =
     (if mgmt_event \<noteq> NET_EVENT_IF_UP then s
      else print ''interface is up\<newline>'' [] s)"

definition iface_down_evt_handler :: "u32 \<Rightarrow> 'a net_state_scheme \<Rightarrow> 'a net_state_scheme" where
  "iface_down_evt_handler mgmt_event s =
     (if mgmt_event \<noteq> NET_EVENT_IF_DOWN then s
      else (print ''Interface is down\<newline>'' [] s)\<lparr>is_network_ready := False\<rparr>)"

primrec run_handler :: "handler_fn \<Rightarrow> u32 \<Rightarrow> 'a net_state_scheme \<Rightarrow> 'a net_state_scheme" where
  "run_handler Iface_dns_added_evt_handler e s = iface_dns_added_evt_handler e s"
| "run_handler Iface_up_evt_handler e s = iface_up_evt_handler e s"
| "run_handler Iface_down_evt_handler e s = iface_down_evt_handler e s"

section \<open>Registration\<close>

text \<open>
  A row of \<open>iface_events\<close>: the event, the handler (\<open>None\<close> is the NULL pointer
  of the zero-initialised sentinel row \<open>{0}\<close>); the embedded callback storage is
  the \<open>mgmt_event_callback\<close> the row's registration creates.
\<close>

record mgmt_events =
  me_event :: u32
  me_handler :: "handler_fn option"

definition iface_events :: "mgmt_events list" where
  "iface_events =
     [\<lparr>me_event = NET_EVENT_DNS_SERVER_ADD, me_handler = Some Iface_dns_added_evt_handler\<rparr>,
      \<lparr>me_event = NET_EVENT_IF_UP, me_handler = Some Iface_up_evt_handler\<rparr>,
      \<lparr>me_event = NET_EVENT_IF_DOWN, me_handler = Some Iface_down_evt_handler\<rparr>,
      \<lparr>me_event = 0, me_handler = None\<rparr>]"

datatype setup_error =
    Array_overrun       \<comment> \<open>\<open>iface_events[i]\<close> read past the end of the table\<close>
  | Null_handler        \<comment> \<open>\<open>__ASSERT(handler)\<close> of \<open>net_mgmt_init_event_callback\<close> fails\<close>

text \<open>
  \<open>net_mgmt_init_event_callback\<close> stores handler and mask (and asserts that the
  handler is not NULL); \<open>net_mgmt_add_event_callback\<close> prepends the callback to
  the bus's list.
\<close>

definition net_mgmt_init_event_callback :: "handler_fn \<Rightarrow> u32 \<Rightarrow> mgmt_event_callback" where
  "net_mgmt_init_event_callback h event_mask = \<lparr>cb_handler = h, cb_event_mask = event_mask\<rparr>"

definition net_mgmt_add_event_callback ::
  "mgmt_event_callback \<Rightarrow> 'a net_state_scheme \<Rightarrow> 'a net_state_scheme" where
  "net_mgmt_add_event_callback cb s = s\<lparr>event_callbacks := cb # event_callbacks s\<rparr>"

text \<open>
  The registration loop \<open>for (i = 0; iface_events[i].event; i++)\<close>, over a
  table given as a parameter: it stops at the first row whose event is 0.
\<close>

function setup_loop :: "mgmt_events list \<Rightarrow> nat \<Rightarrow> 'a net_state_scheme \<Rightarrow> setup_error + 'a net_state_scheme" where
  "setup_loop tbl i s =
     (if i < length tbl then
        (if me_event (tbl ! i) = 0 then Inr s
         else (case me_handler (tbl ! i) of
                 None \<Rightarrow> Inl Null_handler
               | Some h \<Rightarrow>
                   setup_loop tbl (Suc i)
                     (net_mgmt_add_event_callback
                        (net_mgmt_init_event_callback h (me_event (tbl ! i))) s)))
      else Inl Array_overrun)"
  by pat_completeness auto
termination
  by (relation "measure (\<lambda>(tbl, i, s). length tbl - i)") auto

declare setup_loop.simps [simp del]

definition setup_iface_events :: "'a net_state_scheme \<Rightarrow> setup_error + 'a net_state_scheme" where
  "setup_iface_events s = setup_loop iface_events 0 s"

text \<open>
  What registration promises, without the loop: the rows before the first zero
  event are registered in table order, each callback prepended to the bus's list,
  provided each has a handler; a NULL handler among them is an assertion failure;
  a table with no zero row is read past its end.
\<close>

definition setup_spec :: "mgmt_events list \<Rightarrow> 'a net_state_scheme \<Rightarrow> setup_error + 'a net_state_scheme" where
  "setup_spec tbl s =
     (let rows = takeWhile (\<lambda>r. me_event r \<noteq> 0) tbl in
      case those (map me_handler rows) of
        None \<Rightarrow> Inl Null_handler
      | Some hs \<Rightarrow>
          if length rows = length tbl then Inl Array_overrun
          else Inr (s\<lparr>event_callbacks :=
                      rev (map2 net_mgmt_init_event_callback hs (map me_event rows)) @ event_callbacks s\<rparr>))"

section \<open>The event bus\<close>

text \<open>
  Zephyr's \<open>mgmt_run_callbacks\<close> runs a callback when the event and the
  callback's mask agree on layer and layer code and, where both carry a command,
  their commands share a bit. Commands are numbered, not one-hot, so a callback
  can run on events other than the one it was registered for: the sample's
  handlers test the event code again.
\<close>

definition mgmt_event_matches :: "u32 \<Rightarrow> u32 \<Rightarrow> bool" where
  "mgmt_event_matches e m \<longleftrightarrow>
     NET_MGMT_GET_LAYER e = NET_MGMT_GET_LAYER m \<and>
     NET_MGMT_GET_LAYER_CODE e = NET_MGMT_GET_LAYER_CODE m \<and>
     \<not> (NET_MGMT_GET_COMMAND e \<noteq> 0 \<and> NET_MGMT_GET_COMMAND m \<noteq> 0 \<and>
        NET_MGMT_GET_COMMAND e AND NET_MGMT_GET_COMMAND m = 0)"

fun run_callbacks :: "u32 \<Rightarrow> mgmt_event_callback list \<Rightarrow> 'a net_state_scheme \<Rightarrow> 'a net_state_scheme" where
  "run_callbacks e [] s = s"
| "run_callbacks e (cb # cbs) s =
     run_callbacks e cbs
       (if mgmt_event_matches e (cb_event_mask cb) then run_handler (cb_handler cb) e s else s)"

definition net_mgmt_event_notify :: "u32 \<Rightarrow> 'a net_state_scheme \<Rightarrow> 'a net_state_scheme" where
  "net_mgmt_event_notify e s = run_callbacks e (event_callbacks s) s"

text \<open>Events raised one after the other by the network stack.\<close>

definition deliver_events :: "u32 list \<Rightarrow> 'a net_state_scheme \<Rightarrow> 'a net_state_scheme" where
  "deliver_events evs s = fold net_mgmt_event_notify evs s"

section \<open>The readiness contract\<close>

text \<open>
  The abstract readiness tracker: a DNS-server-added event sets the flag, an
  interface-down event clears it, every other event leaves it alone.
\<close>

definition event_effect :: "u32 \<Rightarrow> bool option" where
  "event_effect e =
     (if e = NET_EVENT_DNS_SERVER_ADD then Some True
      else if e = NET_EVENT_IF_DOWN then Some False else None)"

definition apply_effect :: "u32 \<Rightarrow> bool \<Rightarrow> bool" where
  "apply_effect e r = (case event_effect e of None \<Rightarrow> r | Some b \<Rightarrow> b)"

definition readiness_after :: "bool \<Rightarrow> u32 list \<Rightarrow> bool" where
  "readiness_after r evs = fold apply_effect evs r"

text \<open>The event each handler's guard lets through.\<close>

primrec handler_event :: "handler_fn \<Rightarrow> u32" where
  "handler_event Iface_dns_added_evt_handler = NET_EVENT_DNS_SERVER_ADD"
| "handler_event Iface_up_evt_handler = NET_EVENT_IF_UP"
| "handler_event Iface_down_evt_handler = NET_EVENT_IF_DOWN"

definition cb_wf :: "mgmt_event_callback \<Rightarrow> bool" where
  "cb_wf cb \<longleftrightarrow> cb_event_mask cb = handler_event (cb_handler cb)"

text \<open>
  The invariant of the registered callbacks: each is registered for the event
  its handler tests, and the handlers that write the flag are both registered.
\<close>

definition net_ready_inv :: "'a net_state_scheme \<Rightarrow> bool" where
  "net_ready_inv s \<longleftrightarrow>
     list_all cb_wf (event_callbacks s) \<and>
     (\<exists>cb\<in>set (event_callbacks s). cb_handler cb = Iface_dns_added_evt_handler) \<and>
     (\<exists>cb\<in>set (event_callbacks s). cb_handler cb = Iface_down_evt_handler)"

text \<open>The callbacks \<open>setup_iface_events\<close> registers, in the bus's list order.\<close>

definition iface_callbacks :: "mgmt_event_callback list" where
  "iface_callbacks =
     [\<lparr>cb_handler = Iface_down_evt_handler, cb_event_mask = NET_EVENT_IF_DOWN\<rparr>,
      \<lparr>cb_handler = Iface_up_evt_handler, cb_event_mask = NET_EVENT_IF_UP\<rparr>,
      \<lparr>cb_handler = Iface_dns_added_evt_handler, cb_event_mask = NET_EVENT_DNS_SERVER_ADD\<rparr>]"

section \<open>Event codes: facts\<close>

lemma event_codes_distinct [simp]:
  "NET_EVENT_DNS_SERVER_ADD \<noteq> NET_EVENT_IF_DOWN" "NET_EVENT_IF_DOWN \<noteq> NET_EVENT_DNS_SERVER_ADD"
  "NET_EVENT_DNS_SERVER_ADD \<noteq> NET_EVENT_IF_UP" "NET_EVENT_IF_UP \<noteq> NET_EVENT_DNS_SERVER_ADD"
  "NET_EVENT_IF_UP \<noteq> NET_EVENT_IF_DOWN" "NET_EVENT_IF_DOWN \<noteq> NET_EVENT_IF_UP"
  by (simp_all add: event_code_defs)

lemma event_codes_nonzero [simp]:
  "NET_EVENT_DNS_SERVER_ADD \<noteq> 0" "NET_EVENT_IF_UP \<noteq> 0" "NET_EVENT_IF_DOWN \<noteq> 0"
  by (simp_all add: event_code_defs)

section \<open>Handlers\<close>

lemma run_handler_ready:
  "is_network_ready (run_handler h e s) =
     (if e = handler_event h then apply_effect e (is_network_ready s) else is_network_ready s)"
  by (cases h) (auto simp: iface_dns_added_evt_handler_def iface_up_evt_handler_def
      iface_down_evt_handler_def apply_effect_def event_effect_def print_def)

lemma run_handler_callbacks [simp]: "event_callbacks (run_handler h e s) = event_callbacks s"
  by (cases h) (simp_all add: iface_dns_added_evt_handler_def iface_up_evt_handler_def
      iface_down_evt_handler_def print_def)

lemma apply_effect_idem [simp]: "apply_effect e (apply_effect e r) = apply_effect e r"
  by (simp add: apply_effect_def split: option.splits)

lemma mgmt_event_matches_refl [simp]: "mgmt_event_matches e e"
  by (simp add: mgmt_event_matches_def)

section \<open>Registration: the loop against its specification\<close>

lemma setup_loop_spec: "setup_loop tbl i s = setup_spec (drop i tbl) s"
proof (induction tbl i s rule: setup_loop.induct)
  case (1 tbl i s)
  show ?case
  proof (cases "i < length tbl")
    case False
    then show ?thesis by (subst setup_loop.simps) (simp add: setup_spec_def)
  next
    case True
    then have d: "drop i tbl = tbl ! i # drop (Suc i) tbl" by (simp add: Cons_nth_drop_Suc)
    show ?thesis
    proof (cases "me_event (tbl ! i) = 0")
      case True
      with \<open>i < length tbl\<close> d show ?thesis by (subst setup_loop.simps) (simp add: setup_spec_def)
    next
      case False
      show ?thesis
      proof (cases "me_handler (tbl ! i)")
        case None
        with \<open>i < length tbl\<close> False d show ?thesis
          by (subst setup_loop.simps) (simp add: setup_spec_def)
      next
        case (Some h)
        with "1.IH" \<open>i < length tbl\<close> False d show ?thesis
          by (subst setup_loop.simps)
             (auto simp add: setup_spec_def net_mgmt_add_event_callback_def Let_def split: option.split)
      qed
    qed
  qed
qed

section \<open>Dispatch\<close>

text \<open>
  Whatever callbacks the bus runs on an event, provided each is registered for
  its handler's own event, the flag changes as the readiness contract says if
  one of them is the event's handler, and not at all otherwise.
\<close>

lemma run_callbacks_ready:
  "list_all cb_wf cbs \<Longrightarrow>
   is_network_ready (run_callbacks e cbs s) =
     (if \<exists>cb\<in>set cbs. handler_event (cb_handler cb) = e
      then apply_effect e (is_network_ready s) else is_network_ready s)"
proof (induction cbs arbitrary: s)
  case Nil
  then show ?case by simp
next
  case (Cons cb cbs)
  then show ?case
    by (auto simp: cb_wf_def run_handler_ready)
qed

lemma run_callbacks_callbacks [simp]: "event_callbacks (run_callbacks e cbs s) = event_callbacks s"
  by (induction cbs arbitrary: s) simp_all

lemma notify_callbacks [simp]: "event_callbacks (net_mgmt_event_notify e s) = event_callbacks s"
  by (simp add: net_mgmt_event_notify_def)

lemma notify_inv: "net_ready_inv s \<Longrightarrow> net_ready_inv (net_mgmt_event_notify e s)"
  by (simp add: net_ready_inv_def)

lemma notify_ready:
  assumes "net_ready_inv s"
  shows "is_network_ready (net_mgmt_event_notify e s) = apply_effect e (is_network_ready s)"
proof -
  from assms have wf: "list_all cb_wf (event_callbacks s)"
    by (simp add: net_ready_inv_def)
  show ?thesis
  proof (cases "\<exists>cb\<in>set (event_callbacks s). handler_event (cb_handler cb) = e")
    case True
    with wf show ?thesis by (simp add: net_mgmt_event_notify_def run_callbacks_ready)
  next
    case False
    with assms have "e \<noteq> NET_EVENT_DNS_SERVER_ADD" "e \<noteq> NET_EVENT_IF_DOWN"
      by (fastforce simp: net_ready_inv_def)+
    with False wf show ?thesis
      by (simp add: net_mgmt_event_notify_def run_callbacks_ready apply_effect_def event_effect_def)
  qed
qed

text \<open>Refinement: delivering events to the registered handlers implements the contract.\<close>

lemma deliver_events_refines:
  "net_ready_inv s \<Longrightarrow>
   is_network_ready (deliver_events evs s) = readiness_after (is_network_ready s) evs \<and>
   net_ready_inv (deliver_events evs s)"
proof (induction evs arbitrary: s)
  case Nil
  then show ?case by (simp add: deliver_events_def readiness_after_def)
next
  case (Cons e evs)
  from Cons.prems have "net_ready_inv (net_mgmt_event_notify e s)"
    by (rule notify_inv)
  with Cons.IH [of "net_mgmt_event_notify e s"] Cons.prems show ?case
    by (simp add: deliver_events_def readiness_after_def notify_ready)
qed

lemma run_handler_printed [simp]: "printed (console (run_handler h e s)) = printed (console s)"
  by (cases h) (simp_all add: iface_dns_added_evt_handler_def iface_up_evt_handler_def
      iface_down_evt_handler_def)

lemma deliver_events_printed [simp]: "printed (console (deliver_events evs s)) = printed (console s)"
proof -
  have "printed (console (run_callbacks e cbs s)) = printed (console s)" for e cbs and s :: "'a net_state_scheme"
    by (induction cbs arbitrary: s) simp_all
  then show ?thesis
    by (induction evs arbitrary: s) (simp_all add: deliver_events_def net_mgmt_event_notify_def)
qed

lemmas deliver_events_ready = deliver_events_refines [THEN conjunct1]
lemmas deliver_events_inv = deliver_events_refines [THEN conjunct2]

text \<open>The definitions that evaluate a concrete delivery of events.\<close>

lemmas event_eval = deliver_events_def net_mgmt_event_notify_def iface_callbacks_def mgmt_event_matches_def
  event_code_defs NET_MGMT_GET_LAYER_def NET_MGMT_GET_LAYER_CODE_def NET_MGMT_GET_COMMAND_def
  iface_dns_added_evt_handler_def iface_up_evt_handler_def iface_down_evt_handler_def

section \<open>Registration: facts\<close>

lemma setup_iface_events_result:
  "setup_iface_events s = Inr (s\<lparr>event_callbacks := iface_callbacks @ event_callbacks s\<rparr>)"
  by (simp add: setup_iface_events_def iface_events_def setup_loop.simps iface_callbacks_def
      net_mgmt_add_event_callback_def net_mgmt_init_event_callback_def)

lemma iface_callbacks_inv:
  "list_all cb_wf cbs \<Longrightarrow> net_ready_inv (s\<lparr>event_callbacks := iface_callbacks @ cbs\<rparr>)"
  by (simp add: net_ready_inv_def iface_callbacks_def cb_wf_def)

section \<open>Readiness after a sequence of events\<close>

lemma readiness_after_last:
  "readiness_after r evs =
     (case find (\<lambda>e. e = NET_EVENT_DNS_SERVER_ADD \<or> e = NET_EVENT_IF_DOWN) (rev evs) of
        None \<Rightarrow> r
      | Some e \<Rightarrow> e = NET_EVENT_DNS_SERVER_ADD)"
proof (induction evs rule: rev_induct)
  case Nil
  then show ?case by (simp add: readiness_after_def)
next
  case (snoc e evs)
  then show ?case
    by (auto simp: readiness_after_def apply_effect_def event_effect_def)
qed

text \<open>
  C1. Readiness follows the most recent state-affecting event: after any sequence
  of events delivered through the bus to the registered handlers, the flag is true
  exactly when the last event that is DNS-server-added or interface-down is
  DNS-server-added; when there is no such event, the flag is as before.
\<close>

theorem readiness_tracks_last_event:
  assumes "net_ready_inv s"
  shows "is_network_ready (deliver_events evs s) =
     (case find (\<lambda>e. e = NET_EVENT_DNS_SERVER_ADD \<or> e = NET_EVENT_IF_DOWN) (rev evs) of
        None \<Rightarrow> is_network_ready s
      | Some e \<Rightarrow> e = NET_EVENT_DNS_SERVER_ADD)"
  using deliver_events_ready [OF assms] by (simp add: readiness_after_last)

theorem readiness_tracks_last_event_witness:
  "net_ready_inv (\<lparr>console = [], is_network_ready = False, event_callbacks = iface_callbacks\<rparr>) \<and>
   is_network_ready (deliver_events [NET_EVENT_IF_UP, NET_EVENT_DNS_SERVER_ADD, NET_EVENT_IF_UP]
      \<lparr>console = [], is_network_ready = False, event_callbacks = iface_callbacks\<rparr>) = True"
proof -
  have inv: "net_ready_inv (\<lparr>console = [], is_network_ready = False, event_callbacks = iface_callbacks\<rparr>)"
    by (simp add: net_ready_inv_def iface_callbacks_def cb_wf_def)
  show ?thesis
    using inv readiness_tracks_last_event [OF inv,
        of "[NET_EVENT_IF_UP, NET_EVENT_DNS_SERVER_ADD, NET_EVENT_IF_UP]"]
    by simp
qed

text \<open>
  C2. Registration: \<open>setup_iface_events\<close> stops at the zero sentinel row of
  \<open>iface_events\<close> without reading past the table or meeting a NULL handler, and
  registers the three handlers, each for the event its guard tests, so that the
  readiness invariant holds afterwards.
\<close>

theorem setup_iface_events_registers:
  "list_all cb_wf (event_callbacks s) \<Longrightarrow>
   setup_iface_events s = Inr (s\<lparr>event_callbacks := iface_callbacks @ event_callbacks s\<rparr>) \<and>
   net_ready_inv (s\<lparr>event_callbacks := iface_callbacks @ event_callbacks s\<rparr>)"
  by (simp add: setup_iface_events_result iface_callbacks_inv)

theorem setup_iface_events_registers_witness:
  "list_all cb_wf (event_callbacks (\<lparr>console = [], is_network_ready = False, event_callbacks = []\<rparr>)) \<and>
   setup_iface_events (\<lparr>console = [], is_network_ready = False, event_callbacks = []\<rparr>) =
     Inr (\<lparr>console = [], is_network_ready = False, event_callbacks = iface_callbacks\<rparr>)"
  using setup_iface_events_registers [of "\<lparr>console = [], is_network_ready = False, event_callbacks = []\<rparr>"]
  by simp

text \<open>
  C3. The handlers' own event tests are what keep an over-delivered event from
  touching the flag: an administrative interface-down event matches the masks of
  both interface callbacks on the bus, yet leaves the flag unchanged.
\<close>

theorem admin_down_leaves_ready:
  assumes "net_ready_inv s"
  shows "mgmt_event_matches NET_EVENT_IF_ADMIN_DOWN NET_EVENT_IF_DOWN \<and>
         mgmt_event_matches NET_EVENT_IF_ADMIN_DOWN NET_EVENT_IF_UP \<and>
         is_network_ready (net_mgmt_event_notify NET_EVENT_IF_ADMIN_DOWN s) = is_network_ready s"
proof -
  have "NET_EVENT_IF_ADMIN_DOWN \<noteq> NET_EVENT_DNS_SERVER_ADD" "NET_EVENT_IF_ADMIN_DOWN \<noteq> NET_EVENT_IF_DOWN"
    by (simp_all add: event_code_defs)
  then have "apply_effect NET_EVENT_IF_ADMIN_DOWN r = r" for r
    by (simp add: apply_effect_def event_effect_def)
  moreover have "mgmt_event_matches NET_EVENT_IF_ADMIN_DOWN NET_EVENT_IF_DOWN"
    "mgmt_event_matches NET_EVENT_IF_ADMIN_DOWN NET_EVENT_IF_UP"
    by (simp_all add: mgmt_event_matches_def event_code_defs NET_MGMT_GET_LAYER_def
        NET_MGMT_GET_LAYER_CODE_def NET_MGMT_GET_COMMAND_def)
  ultimately show ?thesis
    using notify_ready [OF assms] by simp
qed

theorem admin_down_leaves_ready_witness:
  "net_ready_inv (\<lparr>console = [], is_network_ready = True, event_callbacks = iface_callbacks\<rparr>) \<and>
   is_network_ready (net_mgmt_event_notify NET_EVENT_IF_ADMIN_DOWN
      \<lparr>console = [], is_network_ready = True, event_callbacks = iface_callbacks\<rparr>)"
proof -
  have inv: "net_ready_inv (\<lparr>console = [], is_network_ready = True, event_callbacks = iface_callbacks\<rparr>)"
    by (simp add: net_ready_inv_def iface_callbacks_def cb_wf_def)
  show ?thesis
    using inv admin_down_leaves_ready [OF inv] by simp
qed

text \<open>
  C21. The registration loop \<open>for (i = 0; iface_events[i].event; i++)\<close> is
  equivalent, on every table and every bus state, to its specification
  \<open>setup_spec\<close>: one callback per row before the first zero event, in table
  order, each prepended to the bus's list; \<open>Null_handler\<close> if one of those rows
  has no handler; \<open>Array_overrun\<close> if the table has no zero row.
\<close>

theorem setup_loop_equiv_spec: "setup_loop tbl 0 s = setup_spec tbl s"
  using setup_loop_spec [of tbl 0 s] by simp

theorem setup_loop_equiv_spec_witness:
  "setup_loop iface_events 0 \<lparr>console = [], is_network_ready = False, event_callbacks = []\<rparr> =
     setup_spec iface_events \<lparr>console = [], is_network_ready = False, event_callbacks = []\<rparr> \<and>
   setup_spec iface_events \<lparr>console = [], is_network_ready = False, event_callbacks = []\<rparr> =
     Inr \<lparr>console = [], is_network_ready = False, event_callbacks = iface_callbacks\<rparr>"
  using setup_loop_equiv_spec [of iface_events "\<lparr>console = [], is_network_ready = False, event_callbacks = []\<rparr>"]
  by (simp add: setup_spec_def iface_events_def iface_callbacks_def net_mgmt_init_event_callback_def)

end
