(* ===== verification/Sockets.thy ===== *)
theory Sockets
  imports Net_Events
begin

text \<open>
  The external interfaces \<open>http_get.c\<close> calls: the modem reset, the kernel sleep,
  the TLS credential store, the resolver and the BSD socket calls. None of them is
  part of the sample; each is modelled as an action that appends the call to a
  trace of calls and takes its result from an environment record, so that a
  theorem about the sample quantifies over every answer the platform can give.
  The one stateful collaborator is the peer of the connection: the bytes it will
  send, consumed by \<open>recv\<close>. The state of the whole program is the record
  \<open>world\<close>, which extends the readiness state of \<^theory_text>\<open>Net_Events\<close> with the trace,
  the static \<open>response\<close> buffer and the peer.
\<close>

section \<open>Socket API data\<close>

record sockaddr =
  sa_family :: c_int
  sin_port :: "16 word"
  sin_addr :: u32

record addrinfo =
  ai_family :: c_int
  ai_socktype :: c_int
  ai_protocol :: c_int
  ai_addr :: sockaddr
  ai_addrlen :: nat

text \<open>Constants of Zephyr's socket and TLS headers.\<close>

definition AF_INET :: c_int where "AF_INET = 1"
definition SOCK_STREAM :: c_int where "SOCK_STREAM = 1"
definition IPPROTO_TLS_1_2 :: c_int where "IPPROTO_TLS_1_2 = 258"
definition SOL_TLS :: c_int where "SOL_TLS = 282"
definition TLS_SEC_TAG_LIST :: c_int where "TLS_SEC_TAG_LIST = 1"
definition TLS_HOSTNAME :: c_int where "TLS_HOSTNAME = 2"
definition TLS_CREDENTIAL_CA_CERTIFICATE :: c_int where "TLS_CREDENTIAL_CA_CERTIFICATE = 1"
definition CA_CERTIFICATE_TAG :: c_int where "CA_CERTIFICATE_TAG = 1"

text \<open>A zero-initialised \<open>struct addrinfo\<close>, as the \<open>static\<close> \<open>hints\<close> starts.\<close>

definition addrinfo_zero :: addrinfo where
  "addrinfo_zero = \<lparr>ai_family = 0, ai_socktype = 0, ai_protocol = 0,
     ai_addr = \<lparr>sa_family = 0, sin_port = 0, sin_addr = 0\<rparr>, ai_addrlen = 0\<rparr>"

datatype optval =
    Sec_tags "c_int list"     \<comment> \<open>an array of \<open>sec_tag_t\<close>\<close>
  | Opt_bytes string          \<comment> \<open>a byte buffer\<close>

datatype call =
    Call_mdm_reset
  | Call_k_sleep nat                              \<comment> \<open>seconds\<close>
  | Call_tls_credential_add c_int c_int           \<comment> \<open>tag, type (the certificate bytes are not modelled)\<close>
  | Call_getaddrinfo string string addrinfo       \<comment> \<open>host, service, hints\<close>
  | Call_socket c_int c_int c_int                 \<comment> \<open>family, type, protocol\<close>
  | Call_setsockopt c_int c_int c_int optval nat  \<comment> \<open>socket, level, option, value, length\<close>
  | Call_connect c_int sockaddr nat
  | Call_send c_int string nat                    \<comment> \<open>socket, buffer, length\<close>
  | Call_recv c_int nat                           \<comment> \<open>socket, maximum length\<close>
  | Call_close c_int

text \<open>What the peer sends: a segment of bytes, or a failure of the connection.\<close>

datatype rx = Rx_data string | Rx_error

section \<open>Environment and program state\<close>

text \<open>
  \<open>net_events n\<close> are the events the network stack raises while the program is
  in its \<open>n\<close>-th blocking call: \<open>0\<close> the modem reset, \<open>n + 1\<close> the \<open>n\<close>-th sleep
  of the readiness wait.
\<close>

record env =
  mdm_reset_result :: c_int
  net_events :: "nat \<Rightarrow> u32 list"
  cred_add_result :: c_int
  gai_status :: c_int
  gai_list :: "addrinfo list"
  socket_result :: c_int
  sec_tag_result :: c_int
  hostname_result :: c_int
  connect_result :: c_int
  send_result :: c_int
  peer_data :: "rx list"

record world = net_state +
  calls :: "call list"
  response :: "char list"
  peer :: "rx list"

definition RESPONSE_SIZE :: nat where
  "RESPONSE_SIZE = 1024"

text \<open>The program's state when \<open>main\<close> starts: nothing registered, nothing printed.\<close>

definition world0 :: "env \<Rightarrow> world" where
  "world0 e = \<lparr>console = [], is_network_ready = False, event_callbacks = [],
     calls = [], response = replicate RESPONSE_SIZE (CHR 0x00), peer = peer_data e\<rparr>"

section \<open>The calls\<close>

definition record_call :: "call \<Rightarrow> world \<Rightarrow> world" where
  "record_call c w = w\<lparr>calls := calls w @ [c]\<rparr>"

definition mdm_hl7800_reset :: "env \<Rightarrow> world \<Rightarrow> c_int \<times> world" where
  "mdm_hl7800_reset e w = (mdm_reset_result e, record_call Call_mdm_reset w)"

definition k_sleep :: "nat \<Rightarrow> world \<Rightarrow> world" where
  "k_sleep secs w = record_call (Call_k_sleep secs) w"

definition tls_credential_add :: "env \<Rightarrow> c_int \<Rightarrow> c_int \<Rightarrow> world \<Rightarrow> c_int \<times> world" where
  "tls_credential_add e tag typ w =
     (cred_add_result e, record_call (Call_tls_credential_add tag typ) w)"

definition getaddrinfo :: "env \<Rightarrow> string \<Rightarrow> string \<Rightarrow> addrinfo \<Rightarrow> world \<Rightarrow> c_int \<times> addrinfo list \<times> world" where
  "getaddrinfo e host service hints w =
     (gai_status e, gai_list e, record_call (Call_getaddrinfo host service hints) w)"

definition socket :: "env \<Rightarrow> c_int \<Rightarrow> c_int \<Rightarrow> c_int \<Rightarrow> world \<Rightarrow> c_int \<times> world" where
  "socket e fam typ proto w = (socket_result e, record_call (Call_socket fam typ proto) w)"

definition setsockopt :: "env \<Rightarrow> c_int \<Rightarrow> c_int \<Rightarrow> c_int \<Rightarrow> optval \<Rightarrow> nat \<Rightarrow> world \<Rightarrow> c_int \<times> world" where
  "setsockopt e sock level opt v len w =
     (if opt = TLS_SEC_TAG_LIST then sec_tag_result e else hostname_result e,
      record_call (Call_setsockopt sock level opt v len) w)"

definition connect :: "env \<Rightarrow> c_int \<Rightarrow> sockaddr \<Rightarrow> nat \<Rightarrow> world \<Rightarrow> c_int \<times> world" where
  "connect e sock addr len w = (connect_result e, record_call (Call_connect sock addr len) w)"

text \<open>
  \<open>send\<close> reports how many bytes it took, or \<open>-1\<close>; the model hands the peer
  nothing, since the sample reads whatever the peer answers.
\<close>

definition send :: "env \<Rightarrow> c_int \<Rightarrow> string \<Rightarrow> nat \<Rightarrow> world \<Rightarrow> c_int \<times> world" where
  "send e sock buf len w = (send_result e, record_call (Call_send sock buf len) w)"

text \<open>
  \<open>recv(sock, buf, len, 0)\<close> on a blocking stream socket: with the peer's data
  exhausted it returns 0 (end of stream); on a failure \<open>-1\<close>; otherwise it copies at
  most \<open>len\<close> bytes of the next segment to the front of the buffer, leaves the rest
  of the segment for the next call, and returns the count. An empty segment reads
  as end of stream, as a zero-length \<open>recv\<close> does.
\<close>

definition recv :: "c_int \<Rightarrow> nat \<Rightarrow> world \<Rightarrow> c_int \<times> world" where
  "recv sock len w =
     (let w' = record_call (Call_recv sock len) w in
      case peer w of
        [] \<Rightarrow> (0, w')
      | Rx_error # p \<Rightarrow> (-1, w'\<lparr>peer := p\<rparr>)
      | Rx_data d # p \<Rightarrow>
          (let k = min len (length d)
           in (int k, w'\<lparr>response := take k d @ drop k (response w),
                        peer := (if k < length d then Rx_data (drop k d) # p else p)\<rparr>)))"

definition close :: "c_int \<Rightarrow> world \<Rightarrow> world" where
  "close sock w = record_call (Call_close sock) w"

text \<open>An environment in which every call succeeds and nothing happens, for examples.\<close>

definition env_quiet :: env where
  "env_quiet = \<lparr>mdm_reset_result = 0, net_events = (\<lambda>_. []), cred_add_result = 0,
     gai_status = 0, gai_list = [], socket_result = 0, sec_tag_result = 0,
     hostname_result = 0, connect_result = 0, send_result = 0, peer_data = []\<rparr>"

text \<open>The calls made after the readiness wait, other than \<open>close\<close>.\<close>

definition is_io_call :: "call \<Rightarrow> bool" where
  "is_io_call c =
     (case c of
        Call_tls_credential_add _ _ \<Rightarrow> True | Call_getaddrinfo _ _ _ \<Rightarrow> True
      | Call_socket _ _ _ \<Rightarrow> True | Call_setsockopt _ _ _ _ _ \<Rightarrow> True
      | Call_connect _ _ _ \<Rightarrow> True | Call_send _ _ _ \<Rightarrow> True | Call_recv _ _ \<Rightarrow> True
      | _ \<Rightarrow> False)"

definition is_close :: "call \<Rightarrow> bool" where
  "is_close c = (case c of Call_close _ \<Rightarrow> True | _ \<Rightarrow> False)"

text \<open>
  What the sample's I/O depends on and produces: the calls made, the response
  buffer and what the peer has still to send; not the console, the flag or the
  registered callbacks.
\<close>

definition io_view :: "world \<Rightarrow> call list \<times> char list \<times> rx list" where
  "io_view w = (calls w, response w, peer w)"

text \<open>
  Well-formedness of the state, the model's typing of the C globals: the static
  buffer \<open>char response[1024]\<close> keeps its size, and every callback on the bus
  is one of the sample's handlers registered for the event it tests.
\<close>

definition world_wf :: "world \<Rightarrow> bool" where
  "world_wf w \<longleftrightarrow> length (response w) = RESPONSE_SIZE \<and> list_all cb_wf (event_callbacks w)"

section \<open>Frame facts\<close>

text \<open>The event handlers touch only the flag and the console.\<close>

lemma run_handler_world_fields [simp]:
  "calls (run_handler h e w) = calls w"
  "response (run_handler h e w) = response w"
  "peer (run_handler h e w) = peer w"
  by (cases h; simp add: iface_dns_added_evt_handler_def iface_up_evt_handler_def
      iface_down_evt_handler_def print_def)+

lemma run_callbacks_world_fields [simp]:
  "calls (run_callbacks e cbs w) = calls w"
  "response (run_callbacks e cbs w) = response w"
  "peer (run_callbacks e cbs w) = peer w"
  by (induction cbs arbitrary: w) simp_all

lemma deliver_events_world_fields [simp]:
  "calls (deliver_events evs w) = calls w"
  "response (deliver_events evs w) = response w"
  "peer (deliver_events evs w) = peer w"
  by (induction evs arbitrary: w) (simp_all add: deliver_events_def net_mgmt_event_notify_def)

lemma deliver_events_Nil [simp]: "deliver_events [] s = s"
  by (simp add: deliver_events_def)

text \<open>Recording a call touches only the trace.\<close>

lemma record_call_fields [simp]:
  "calls (record_call c w) = calls w @ [c]"
  "is_network_ready (record_call c w) = is_network_ready w"
  "event_callbacks (record_call c w) = event_callbacks w"
  "console (record_call c w) = console w"
  "response (record_call c w) = response w"
  "peer (record_call c w) = peer w"
  by (simp_all add: record_call_def)

lemma print_world_fields [simp]:
  "calls (print f a w) = calls w"
  "is_network_ready (print f a w) = is_network_ready w"
  "event_callbacks (print f a w) = event_callbacks w"
  "response (print f a w) = response w"
  "peer (print f a w) = peer w"
  by (simp_all add: print_def)

lemma net_ready_inv_print [simp]: "net_ready_inv (print f a s) = net_ready_inv s"
  by (simp add: net_ready_inv_def print_def)

lemma net_ready_inv_record_call [simp]: "net_ready_inv (record_call c w) = net_ready_inv w"
  by (simp add: net_ready_inv_def)

lemma io_view_eq_iff:
  "io_view w1 = io_view w2 \<longleftrightarrow> calls w1 = calls w2 \<and> response w1 = response w2 \<and> peer w1 = peer w2"
  by (simp add: io_view_def)

lemma io_view_print [simp]: "io_view (print f a w) = io_view w"
  by (simp add: io_view_def)

lemma io_view_deliver_events [simp]: "io_view (deliver_events evs w) = io_view w"
  by (simp add: io_view_def)

lemma io_view_set_ready [simp]: "io_view (w\<lparr>is_network_ready := b\<rparr>) = io_view w"
  by (simp add: io_view_def)

end
