(* ===== verification/Wait_Loop.thy ===== *)
theory Wait_Loop
  imports Sockets
begin

text \<open>
  The readiness wait of \<open>main\<close>:
  \<^verbatim>\<open>while (!is_network_ready) { printk("Waiting ..."); k_sleep(K_SECONDS(5)); }\<close>
  The flag is written by the event handlers, which the network stack runs while
  the main thread sleeps; the loop has no timeout. It is a
  \<^theory_text>\<open>partial_function (option)\<close>: \<open>None\<close> is the run in which the flag never
  becomes true and the loop never ends. \<open>polls\<close> is the state at each successive
  test of the flag, in terms of which the loop's result is characterised.
\<close>

section \<open>The loop\<close>

definition WAIT_SECONDS :: nat where
  "WAIT_SECONDS = 5"

text \<open>One iteration: the message, the sleep, and the events raised meanwhile.\<close>

definition wait_body :: "env \<Rightarrow> nat \<Rightarrow> world \<Rightarrow> world" where
  "wait_body e n w =
     deliver_events (net_events e (Suc n))
       (k_sleep WAIT_SECONDS (print ''Waiting for network to be ready...\<newline>'' [] w))"

partial_function (option) wait_loop :: "env \<Rightarrow> nat \<Rightarrow> world \<Rightarrow> world option" where
  "wait_loop e n w = (if is_network_ready w then Some w else wait_loop e (Suc n) (wait_body e n w))"

fun polls :: "env \<Rightarrow> nat \<Rightarrow> world \<Rightarrow> nat \<Rightarrow> world" where
  "polls e n w 0 = w"
| "polls e n w (Suc k) = polls e (Suc n) (wait_body e n w) k"

section \<open>Facts about one iteration\<close>

lemma wait_body_fields:
  "calls (wait_body e n w) = calls w @ [Call_k_sleep WAIT_SECONDS]"
  "response (wait_body e n w) = response w"
  "peer (wait_body e n w) = peer w"
  by (simp_all add: wait_body_def k_sleep_def)

lemma wait_body_inv: "net_ready_inv w \<Longrightarrow> net_ready_inv (wait_body e n w)"
proof -
  assume inv: "net_ready_inv w"
  let ?w1 = "k_sleep WAIT_SECONDS (print ''Waiting for network to be ready...\<newline>'' [] w)"
  have "net_ready_inv ?w1"
    using inv by (simp add: k_sleep_def)
  then show ?thesis
    unfolding wait_body_def by (rule deliver_events_inv)
qed

lemma wait_body_ready:
  "net_ready_inv w \<Longrightarrow>
   is_network_ready (wait_body e n w) = readiness_after (is_network_ready w) (net_events e (Suc n))"
proof -
  assume inv: "net_ready_inv w"
  let ?w1 = "k_sleep WAIT_SECONDS (print ''Waiting for network to be ready...\<newline>'' [] w)"
  have "net_ready_inv ?w1"
    using inv by (simp add: k_sleep_def)
  from deliver_events_ready [OF this, of "net_events e (Suc n)"] show ?thesis
    by (simp add: wait_body_def k_sleep_def)
qed

lemma polls_calls:
  "calls (polls e n w k) = calls w @ replicate k (Call_k_sleep WAIT_SECONDS)"
  by (induction k arbitrary: n w) (simp_all add: wait_body_fields replicate_append_same)

lemma polls_inv: "net_ready_inv w \<Longrightarrow> net_ready_inv (polls e n w k)"
  by (induction k arbitrary: n w) (simp_all add: wait_body_inv)

lemma readiness_after_append:
  "readiness_after r (xs @ ys) = readiness_after (readiness_after r xs) ys"
  by (simp add: readiness_after_def)

text \<open>The flag at the \<open>k\<close>-th test follows the events raised during the sleeps before it.\<close>

lemma polls_ready_events:
  "net_ready_inv w \<Longrightarrow>
   is_network_ready (polls e n w k) =
     readiness_after (is_network_ready w) (concat (map (net_events e) [Suc n..<Suc n + k]))"
proof (induction k arbitrary: n w)
  case 0
  then show ?case by (simp add: readiness_after_def)
next
  case (Suc k)
  have "[Suc n..<Suc n + Suc k] = Suc n # [Suc (Suc n)..<Suc (Suc n) + k]"
    by (simp add: upt_rec)
  with Suc.IH [OF wait_body_inv [OF Suc.prems]] show ?case
    by (simp add: wait_body_ready [OF Suc.prems] readiness_after_append)
qed

section \<open>Unfolding the loop\<close>

lemma wait_loop_ready [simp]: "is_network_ready w \<Longrightarrow> wait_loop e n w = Some w"
  by (subst wait_loop.simps) simp

lemma wait_loop_not_ready:
  "\<not> is_network_ready w \<Longrightarrow> wait_loop e n w = wait_loop e (Suc n) (wait_body e n w)"
  by (subst wait_loop.simps) simp

text \<open>If the loop returns, it returns at the first test that finds the flag set.\<close>

lemma wait_loop_Some_polls:
  assumes "wait_loop e n w = Some w'"
  shows "\<exists>k. w' = polls e n w k \<and> is_network_ready w' \<and> (\<forall>j<k. \<not> is_network_ready (polls e n w j))"
proof (rule wait_loop.raw_induct
    [where P = "\<lambda>e n w w'. \<exists>k. w' = polls e n w k \<and> is_network_ready w' \<and>
                  (\<forall>j<k. \<not> is_network_ready (polls e n w j))", OF _ assms])
  fix f e n w w'
  assume IH: "\<And>e n w y. f e n w = Some y \<Longrightarrow>
      \<exists>k. y = polls e n w k \<and> is_network_ready y \<and> (\<forall>j<k. \<not> is_network_ready (polls e n w j))"
    and eq: "(if is_network_ready w then Some w else f e (Suc n) (wait_body e n w)) = Some w'"
  show "\<exists>k. w' = polls e n w k \<and> is_network_ready w' \<and> (\<forall>j<k. \<not> is_network_ready (polls e n w j))"
  proof (cases "is_network_ready w")
    case True
    with eq show ?thesis by (intro exI [of _ 0]) auto
  next
    case False
    with eq have "f e (Suc n) (wait_body e n w) = Some w'" by simp
    then obtain k where k: "w' = polls e (Suc n) (wait_body e n w) k" "is_network_ready w'"
      "\<forall>j<k. \<not> is_network_ready (polls e (Suc n) (wait_body e n w) j)"
      using IH by blast
    have "\<not> is_network_ready (polls e n w j)" if "j < Suc k" for j
      using that False k(3) by (cases j) auto
    with k show ?thesis by (intro exI [of _ "Suc k"]) auto
  qed
qed

text \<open>At the first test that finds the flag set, the loop returns.\<close>

lemma wait_loop_first_ready:
  "is_network_ready (polls e n w k) \<Longrightarrow> (\<forall>j<k. \<not> is_network_ready (polls e n w j)) \<Longrightarrow>
   wait_loop e n w = Some (polls e n w k)"
proof (induction k arbitrary: n w)
  case 0
  then show ?case by simp
next
  case (Suc k)
  from Suc.prems(2) have nr: "\<not> is_network_ready w"
    using polls.simps(1) [of e n w] by (metis zero_less_Suc)
  from Suc.prems have "wait_loop e (Suc n) (wait_body e n w) = Some (polls e (Suc n) (wait_body e n w) k)"
    by (intro Suc.IH) auto
  with nr show ?case by (simp add: wait_loop_not_ready)
qed

section \<open>An example schedule\<close>

text \<open>
  The witnesses below run the loop with the three handlers registered and a DNS
  server announced during the second sleep.
\<close>

lemma example_registered_inv:
  "net_ready_inv ((world0 e)\<lparr>event_callbacks := iface_callbacks\<rparr>)"
  by (simp add: net_ready_inv_def iface_callbacks_def cb_wf_def)

lemma example_polls_ready:
  defines "E \<equiv> env_quiet\<lparr>net_events := (\<lambda>i. if i = 2 then [NET_EVENT_DNS_SERVER_ADD] else [])\<rparr>"
      and "W \<equiv> (world0 env_quiet)\<lparr>event_callbacks := iface_callbacks\<rparr>"
  shows "\<not> is_network_ready (polls E 0 W 0)" "\<not> is_network_ready (polls E 0 W 1)"
        "is_network_ready (polls E 0 W 2)"
proof -
  have inv: "net_ready_inv W" unfolding W_def by (rule example_registered_inv)
  have nr: "\<not> is_network_ready W" by (simp add: W_def world0_def)
  have r1: "\<not> is_network_ready (wait_body E 0 W)"
    using wait_body_ready [OF inv, of E 0] nr by (simp add: E_def readiness_after_def)
  have r2: "is_network_ready (wait_body E 1 (wait_body E 0 W))"
    using wait_body_ready [OF wait_body_inv [OF inv], of E 1] r1
    by (simp add: E_def readiness_after_def apply_effect_def event_effect_def)
  show "\<not> is_network_ready (polls E 0 W 0)" "\<not> is_network_ready (polls E 0 W 1)"
       "is_network_ready (polls E 0 W 2)"
    using nr r1 r2 by (simp_all add: numeral_2_eq_2)
qed

section \<open>The loop's contract\<close>

text \<open>
  C4. The wait loop never proceeds while the flag is false: it returns a state
  exactly when that state is the one at some test of the flag that finds it set,
  every earlier test having found it clear.
\<close>

theorem wait_loop_result_iff:
  "wait_loop e n w = Some w' \<longleftrightarrow>
   (\<exists>k. w' = polls e n w k \<and> is_network_ready w' \<and> (\<forall>j<k. \<not> is_network_ready (polls e n w j)))"
  using wait_loop_Some_polls wait_loop_first_ready by blast

theorem wait_loop_result_iff_witness:
  "wait_loop (env_quiet\<lparr>net_events := (\<lambda>i. if i = 2 then [NET_EVENT_DNS_SERVER_ADD] else [])\<rparr>) 0
     ((world0 env_quiet)\<lparr>event_callbacks := iface_callbacks\<rparr>) =
   Some (polls (env_quiet\<lparr>net_events := (\<lambda>i. if i = 2 then [NET_EVENT_DNS_SERVER_ADD] else [])\<rparr>) 0
     ((world0 env_quiet)\<lparr>event_callbacks := iface_callbacks\<rparr>) 2)"
proof -
  have "\<forall>j<2. \<not> is_network_ready
          (polls (env_quiet\<lparr>net_events := (\<lambda>i. if i = 2 then [NET_EVENT_DNS_SERVER_ADD] else [])\<rparr>) 0
             ((world0 env_quiet)\<lparr>event_callbacks := iface_callbacks\<rparr>) j)"
    using example_polls_ready(1,2) by (auto simp: less_2_cases_iff)
  then show ?thesis
    using wait_loop_result_iff example_polls_ready(3) by blast
qed

text \<open>
  C5. The loop ends as soon as the flag is set at a test: if the flag is set at
  the \<open>k\<close>-th test, the loop returns the state of some test no later than the
  \<open>k\<close>-th.
\<close>

theorem wait_loop_terminates:
  assumes "is_network_ready (polls e n w k)"
  shows "\<exists>j\<le>k. wait_loop e n w = Some (polls e n w j)"
proof -
  let ?j = "LEAST j. is_network_ready (polls e n w j)"
  have ready: "is_network_ready (polls e n w ?j)"
    using assms by (rule LeastI)
  have le: "?j \<le> k"
    using assms by (rule Least_le)
  have "\<forall>i<?j. \<not> is_network_ready (polls e n w i)"
    using not_less_Least by blast
  with ready le show ?thesis
    using wait_loop_first_ready by blast
qed

theorem wait_loop_terminates_witness:
  "is_network_ready (polls (env_quiet\<lparr>net_events := (\<lambda>i. if i = 2 then [NET_EVENT_DNS_SERVER_ADD] else [])\<rparr>) 0
     ((world0 env_quiet)\<lparr>event_callbacks := iface_callbacks\<rparr>) 2) \<and>
   (\<exists>j\<le>2. wait_loop (env_quiet\<lparr>net_events := (\<lambda>i. if i = 2 then [NET_EVENT_DNS_SERVER_ADD] else [])\<rparr>) 0
     ((world0 env_quiet)\<lparr>event_callbacks := iface_callbacks\<rparr>) =
     Some (polls (env_quiet\<lparr>net_events := (\<lambda>i. if i = 2 then [NET_EVENT_DNS_SERVER_ADD] else [])\<rparr>) 0
     ((world0 env_quiet)\<lparr>event_callbacks := iface_callbacks\<rparr>) j))"
  using example_polls_ready(3) wait_loop_terminates [OF example_polls_ready(3)] by blast

text \<open>
  C6. The loop has no timeout: if no test ever finds the flag set, it never
  returns.
\<close>

theorem wait_loop_diverges:
  "(\<forall>k. \<not> is_network_ready (polls e n w k)) \<Longrightarrow> wait_loop e n w = None"
  by (cases "wait_loop e n w") (auto dest: wait_loop_Some_polls)

lemma quiet_polls_not_ready:
  "net_ready_inv w \<Longrightarrow> \<not> is_network_ready w \<Longrightarrow> \<not> is_network_ready (polls env_quiet n w k)"
proof (induction k arbitrary: n w)
  case 0
  then show ?case by simp
next
  case (Suc k)
  have "\<not> is_network_ready (wait_body env_quiet n w)"
    using wait_body_ready [OF Suc.prems(1)] Suc.prems(2)
    by (simp add: env_quiet_def readiness_after_def)
  with Suc.prems(1) show ?case
    by (simp add: Suc.IH wait_body_inv)
qed

theorem wait_loop_diverges_witness:
  "(\<forall>k. \<not> is_network_ready (polls env_quiet 0 ((world0 env_quiet)\<lparr>event_callbacks := iface_callbacks\<rparr>) k)) \<and>
   wait_loop env_quiet 0 ((world0 env_quiet)\<lparr>event_callbacks := iface_callbacks\<rparr>) = None"
proof -
  have "\<forall>k. \<not> is_network_ready (polls env_quiet 0 ((world0 env_quiet)\<lparr>event_callbacks := iface_callbacks\<rparr>) k)"
    using quiet_polls_not_ready [OF example_registered_inv] by (simp add: world0_def)
  with wait_loop_diverges show ?thesis by blast
qed

section \<open>Dependence on the environment\<close>

text \<open>The loop reads nothing of the environment but the events.\<close>

lemma polls_env_cong:
  "net_events e' = net_events e \<Longrightarrow> polls e' n w k = polls e n w k"
  by (induction k arbitrary: n w) (simp_all add: wait_body_def)

lemma wait_loop_env_cong:
  assumes ev: "net_events e' = net_events e"
  shows "wait_loop e' n w = wait_loop e n w"
proof -
  have iff: "wait_loop e' n w = Some x \<longleftrightarrow> wait_loop e n w = Some x" for x
  proof
    assume "wait_loop e' n w = Some x"
    from wait_loop_Some_polls [OF this] show "wait_loop e n w = Some x"
      using wait_loop_first_ready polls_env_cong [OF ev] by metis
  next
    assume "wait_loop e n w = Some x"
    from wait_loop_Some_polls [OF this] show "wait_loop e' n w = Some x"
      using wait_loop_first_ready polls_env_cong [OF ev] by metis
  qed
  show ?thesis
  proof (cases "wait_loop e n w")
    case None
    with iff show ?thesis by (cases "wait_loop e' n w") auto
  next
    case (Some x)
    with iff show ?thesis by simp
  qed
qed

end
