(* ===== verification/Http_Client.thy ===== *)
theory Http_Client
  imports Sockets
begin

text \<open>
  The connection and request/response part of \<open>main\<close> in \<open>http_get.c\<close>: the
  compile-time request, the \<open>CHECK\<close> macro, socket creation with the TLS options,
  \<open>connect\<close>, \<open>send\<close>, and the loop that receives the response into the static
  buffer and prints it. Each stage returns either the end of the program (an
  outcome with the final state) or the state it continues from, so that every
  \<open>return\<close>, every \<open>exit\<close> of \<open>CHECK\<close> and every memory fault of the C code is a
  branch of the model.
\<close>

section \<open>Configuration\<close>

definition HTTP_HOST :: string where
  "HTTP_HOST = ''google.com''"

text \<open>\<open>HTTP_PORT\<close> depends on \<open>CONFIG_NET_SOCKETS_SOCKOPT_TLS\<close>, the flag \<open>tls\<close>.\<close>

definition HTTP_PORT :: "bool \<Rightarrow> string" where
  "HTTP_PORT tls = (if tls then ''443'' else ''80'')"

definition HTTP_PATH :: string where
  "HTTP_PATH = ''/''"

definition CRLF :: string where
  "CRLF = [CHR 0x0D, CHR 0x0A]"

definition REQUEST :: string where
  "REQUEST = ''GET '' @ HTTP_PATH @ '' HTTP/1.0'' @ CRLF @ ''Host: www.'' @ HTTP_HOST @ CRLF @ CRLF"

text \<open>\<open>sizeof\<close> of a string literal counts its terminating NUL; \<open>SSTRLEN\<close> takes it off.\<close>

definition sizeof_literal :: "string \<Rightarrow> nat" where
  "sizeof_literal s = length s + 1"

definition SSTRLEN :: "string \<Rightarrow> nat" where
  "SSTRLEN s = sizeof_literal s - 1"

definition SIZEOF_SEC_TAG :: nat where
  "SIZEOF_SEC_TAG = 4"

section \<open>Outcomes\<close>

datatype fault =
    Setup_fault setup_error
  | Null_deref          \<comment> \<open>\<open>res\<close> dereferenced while NULL\<close>
  | Buffer_overflow     \<comment> \<open>\<open>response[len]\<close> written out of bounds\<close>

datatype outcome =
    Returned            \<comment> \<open>\<open>main\<close> returns\<close>
  | Exited c_int        \<comment> \<open>\<open>exit(status)\<close>\<close>
  | Fault fault

type_synonym 'v stage = "(outcome \<times> world) + ('v \<times> world)"

text \<open>The state a stage ends in, whether the program goes on or not.\<close>

definition stage_world :: "'v stage \<Rightarrow> world" where
  "stage_world r = (case r of Inl (out, w) \<Rightarrow> w | Inr (v, w) \<Rightarrow> w)"

text \<open>
  Two stage results that end the same way, or continue with the same value, from
  states with the same I/O view.
\<close>

definition io_eq_stage :: "'v stage \<Rightarrow> 'v stage \<Rightarrow> bool" where
  "io_eq_stage x y \<longleftrightarrow>
     (case (x, y) of
        (Inl (r, w), Inl (r', w')) \<Rightarrow> r = r' \<and> io_view w = io_view w'
      | (Inr (v, w), Inr (v', w')) \<Rightarrow> v = v' \<and> io_view w = io_view w'
      | _ \<Rightarrow> False)"

text \<open>
  \<open>#define CHECK(r) { if (r == -1) { printf("Error: " #r "\n"); exit(1); } }\<close>:
  the message quotes the checked expression as written in the source.
\<close>

definition CHECK :: "c_int \<Rightarrow> string \<Rightarrow> world \<Rightarrow> unit stage" where
  "CHECK r expr w =
     (if r = -1 then Inl (Exited 1, print (''Error: '' @ expr @ ''\<newline>'') [] w) else Inr ((), w))"

section \<open>Connection\<close>

text \<open>The two TLS socket options, set only when TLS is configured.\<close>

definition tls_options :: "env \<Rightarrow> c_int \<Rightarrow> world \<Rightarrow> unit stage" where
  "tls_options e sock w =
     (let sec_tag_opt = [CA_CERTIFICATE_TAG];
          (r1, w1) = setsockopt e sock SOL_TLS TLS_SEC_TAG_LIST (Sec_tags sec_tag_opt)
                       (SIZEOF_SEC_TAG * length sec_tag_opt) w
      in case CHECK r1 ''setsockopt(sock, SOL_TLS, TLS_SEC_TAG_LIST, sec_tag_opt, sizeof(sec_tag_opt))'' w1 of
           Inl r \<Rightarrow> Inl r
         | Inr (_, w2) \<Rightarrow>
             (let (r2, w3) = setsockopt e sock SOL_TLS TLS_HOSTNAME (Opt_bytes (HTTP_HOST @ [CHR 0x00]))
                               (sizeof_literal HTTP_HOST) w2
              in CHECK r2 ''setsockopt(sock, SOL_TLS, TLS_HOSTNAME, HTTP_HOST, sizeof(HTTP_HOST))'' w3))"

text \<open>Socket creation, TLS options and \<open>connect\<close> to the first resolved address.\<close>

definition open_connection :: "bool \<Rightarrow> env \<Rightarrow> addrinfo \<Rightarrow> world \<Rightarrow> c_int stage" where
  "open_connection tls e res w =
     (let (sock, w1) = socket e (ai_family res) (ai_socktype res)
                         (if tls then IPPROTO_TLS_1_2 else ai_protocol res) w
      in case CHECK sock ''sock'' w1 of
           Inl r \<Rightarrow> Inl r
         | Inr (_, w2) \<Rightarrow>
             (let w3 = print ''sock = %d\<newline>'' [sock] w2
              in case (if tls then tls_options e sock w3 else Inr ((), w3)) of
                   Inl r \<Rightarrow> Inl r
                 | Inr (_, w4) \<Rightarrow>
                     (let (r, w5) = connect e sock (ai_addr res) (ai_addrlen res) w4
                      in case CHECK r ''connect(sock, res->ai_addr, res->ai_addrlen)'' w5 of
                           Inl r \<Rightarrow> Inl r
                         | Inr (_, w6) \<Rightarrow> Inr (sock, w6))))"

section \<open>Request and response\<close>

definition send_request :: "env \<Rightarrow> c_int \<Rightarrow> world \<Rightarrow> unit stage" where
  "send_request e sock w =
     (let (r, w1) = send e sock REQUEST (SSTRLEN REQUEST) w
      in CHECK r ''send(sock, REQUEST, SSTRLEN(REQUEST), 0)'' w1)"

text \<open>The size of what the peer has still to send, which every non-empty \<open>recv\<close> lowers.\<close>

primrec rx_size :: "rx \<Rightarrow> nat" where
  "rx_size (Rx_data d) = Suc (length d)"
| "rx_size Rx_error = 1"

definition peer_size :: "rx list \<Rightarrow> nat" where
  "peer_size p = sum_list (map rx_size p)"

lemma recv_progress:
  "recv sock n w = (len, w1) \<Longrightarrow> 0 < len \<Longrightarrow> peer_size (peer w1) < peer_size (peer w)"
  by (auto simp: recv_def peer_size_def Let_def split: list.splits rx.splits if_splits)

text \<open>
  The receive loop: \<open>recv\<close> up to \<open>sizeof(response) - 1\<close> bytes; a negative
  count ends \<open>main\<close> with a message, zero leaves the loop; otherwise the byte after
  the data is set to NUL and the buffer is printed as a C string.
\<close>

function recv_loop :: "c_int \<Rightarrow> world \<Rightarrow> unit stage" where
  "recv_loop sock w =
     (case recv sock (RESPONSE_SIZE - 1) w of
        (len, w1) \<Rightarrow>
          if len < 0 then Inl (Returned, print ''Error reading response\<newline>'' [] w1)
          else if len = 0 then Inr ((), w1)
          else if nat len < length (response w1) then
            (let w2 = w1\<lparr>response := (response w1)[nat len := CHR 0x00]\<rparr>
             in recv_loop sock (print_str (response w2) w2))
          else Inl (Fault Buffer_overflow, w1))"
  by pat_completeness auto
termination
proof (relation "measure (\<lambda>(sock, w). peer_size (peer w))", goal_cases)
  case 1
  show ?case by simp
next
  case (2 sock w len w1)
  then have "recv sock (RESPONSE_SIZE - 1) w = (len, w1)" "0 < len"
    by auto
  then have "peer_size (peer w1) < peer_size (peer w)"
    by (rule recv_progress)
  with "2" show ?case
    by (simp add: print_str_def)
qed

declare recv_loop.simps [simp del]

section \<open>The driver's contract\<close>

text \<open>
  What the peer sends before the end of the stream: the non-empty segments up to
  the first empty one or the end of the list (a clean end), or up to a failure.
\<close>

fun stream_segments :: "rx list \<Rightarrow> string list \<times> bool" where
  "stream_segments [] = ([], True)"
| "stream_segments (Rx_error # p) = ([], False)"
| "stream_segments (Rx_data d # p) =
     (if d = [] then ([], True) else (d # fst (stream_segments p), snd (stream_segments p)))"

text \<open>A segment as successive reads of at most \<open>n\<close> bytes take it.\<close>

fun chunks :: "nat \<Rightarrow> string \<Rightarrow> string list" where
  "chunks n d = (if d = [] \<or> n = 0 then [] else take n d # chunks n (drop n d))"

declare chunks.simps [simp del]

lemma concat_chunks [simp]: "0 < n \<Longrightarrow> concat (chunks n d) = d"
  by (induction n d rule: chunks.induct) (subst chunks.simps, auto)

lemma chunks_bounded: "c \<in> set (chunks n d) \<Longrightarrow> c \<noteq> [] \<and> length c \<le> n"
  by (induction n d rule: chunks.induct) (subst (asm) chunks.simps, auto split: if_splits)

section \<open>The receive loop, step by step\<close>

definition RECV_MAX :: nat where
  "RECV_MAX = RESPONSE_SIZE - 1"

lemma RECV_MAX_eq: "RESPONSE_SIZE - 1 = RECV_MAX" "RECV_MAX = 1023" "RESPONSE_SIZE = 1024"
  by (simp_all add: RECV_MAX_def RESPONSE_SIZE_def)

lemma recv_loop_end:
  "peer w = [] \<or> (\<exists>p. peer w = Rx_data [] # p) \<Longrightarrow>
   recv_loop sock w = Inr ((), (record_call (Call_recv sock RECV_MAX) w)\<lparr>peer := tl (peer w)\<rparr>)"
  by (subst recv_loop.simps) (auto simp: recv_def RECV_MAX_def)

lemma recv_loop_error:
  "peer w = Rx_error # p \<Longrightarrow>
   recv_loop sock w =
     Inl (Returned, print ''Error reading response\<newline>'' [] ((record_call (Call_recv sock RECV_MAX) w)\<lparr>peer := p\<rparr>))"
  by (subst recv_loop.simps) (simp add: recv_def RECV_MAX_def)

text \<open>
  A read of \<open>k > 0\<close> bytes into the 1024-byte buffer: the NUL written after them
  is in bounds, and the C string printed is exactly the bytes read when they hold
  no NUL themselves.
\<close>

lemma buffer_terminate:
  assumes "k < length r" "CHR 0x00 \<notin> set (take k d)" "k \<le> length d"
  shows "c_string ((take k d @ drop k r)[k := CHR 0x00]) = take k d"
    and "length ((take k d @ drop k r)[k := CHR 0x00]) = length r"
proof -
  have len: "length (take k d) = k" using assms(3) by simp
  have "drop k r = r ! k # drop (Suc k) r" using assms(1) by (simp add: Cons_nth_drop_Suc)
  then have "(take k d @ drop k r)[k := CHR 0x00] = take k d @ CHR 0x00 # drop (Suc k) r"
    using len list_update_length [of "take k d" "r ! k" "drop (Suc k) r" "CHR 0x00"] by simp
  then show "c_string ((take k d @ drop k r)[k := CHR 0x00]) = take k d"
    using assms(2) by simp
  show "length ((take k d @ drop k r)[k := CHR 0x00]) = length r"
    using assms(1,3) by simp
qed

lemma recv_loop_step:
  assumes peer: "peer w = Rx_data d # p" and ne: "d \<noteq> []"
    and len: "length (response w) = RESPONSE_SIZE"
  shows "recv_loop sock w =
    recv_loop sock (w\<lparr>calls := calls w @ [Call_recv sock RECV_MAX],
                      peer := (if RECV_MAX < length d then Rx_data (drop RECV_MAX d) # p else p),
                      response := (take (min RECV_MAX (length d)) d @ drop (min RECV_MAX (length d)) (response w))
                                    [min RECV_MAX (length d) := CHR 0x00],
                      console := console w @ [Con_str (c_string ((take (min RECV_MAX (length d)) d @
                                   drop (min RECV_MAX (length d)) (response w))[min RECV_MAX (length d) := CHR 0x00]))]\<rparr>)"
proof -
  let ?k = "min RECV_MAX (length d)"
  have k: "0 < ?k" "?k < RESPONSE_SIZE"
    using ne by (simp_all add: RECV_MAX_eq)
  have "length ((take ?k d @ drop ?k (response w))[?k := CHR 0x00]) = RESPONSE_SIZE"
    using len k by (simp add: min_def)
  then show ?thesis
    using peer k len
    by (subst recv_loop.simps) (auto simp: recv_def record_call_def print_str_def Let_def RECV_MAX_eq min_def)
qed

lemma recv_loop_data:
  assumes peer: "peer w = Rx_data d # p" and ne: "d \<noteq> []"
    and len: "length (response w) = RESPONSE_SIZE"
    and nul: "CHR 0x00 \<notin> set (take RECV_MAX d)"
  shows "recv_loop sock w =
    recv_loop sock (w\<lparr>calls := calls w @ [Call_recv sock RECV_MAX],
                      peer := (if RECV_MAX < length d then Rx_data (drop RECV_MAX d) # p else p),
                      response := (take (min RECV_MAX (length d)) d @ drop (min RECV_MAX (length d)) (response w))
                                    [min RECV_MAX (length d) := CHR 0x00],
                      console := console w @ [Con_str (take RECV_MAX d)]\<rparr>)"
proof -
  let ?k = "min RECV_MAX (length d)"
  have k: "?k < length (response w)" "?k \<le> length d"
    using ne len by (simp_all add: RECV_MAX_eq)
  have tk: "take ?k d = take RECV_MAX d" by (simp add: min_def)
  have "CHR 0x00 \<notin> set (take ?k d)" using nul tk by simp
  then have "c_string ((take ?k d @ drop ?k (response w))[?k := CHR 0x00]) = take RECV_MAX d"
    using buffer_terminate(1) [OF k(1) _ k(2)] tk by simp
  then show ?thesis
    using recv_loop_step [OF peer ne len, of sock] by simp
qed

text \<open>A segment that fits the buffer is read and printed whole by one \<open>recv\<close>.\<close>

lemma recv_loop_one_chunk:
  assumes "peer w = Rx_data d # p" "d \<noteq> []" "length d \<le> RECV_MAX" "CHR 0x00 \<notin> set d"
    "length (response w) = RESPONSE_SIZE"
  shows "\<exists>b. length b = RESPONSE_SIZE \<and>
    recv_loop sock w = recv_loop sock (w\<lparr>calls := calls w @ [Call_recv sock RECV_MAX], peer := p,
       response := b, console := console w @ [Con_str d]\<rparr>)"
proof -
  have "CHR 0x00 \<notin> set (take RECV_MAX d)" using assms(4) by (meson in_set_takeD)
  from recv_loop_data [OF assms(1,2,5) this, of sock] assms(2,3,5) show ?thesis
    by (intro exI [of _ "(d @ drop (length d) (response w))[length d := CHR 0x00]"])
      (auto simp: RECV_MAX_eq min_def)
qed

text \<open>How one read advances the contract: it takes the first chunk of the first segment.\<close>

lemma stream_segments_step:
  fixes d :: string and p :: "rx list"
  assumes "d \<noteq> []"
  defines "p' \<equiv> (if RECV_MAX < length d then Rx_data (drop RECV_MAX d) # p else p)"
  shows "concat (map (chunks RECV_MAX) (fst (stream_segments (Rx_data d # p)))) =
           take RECV_MAX d # concat (map (chunks RECV_MAX) (fst (stream_segments p')))"
    and "snd (stream_segments (Rx_data d # p)) = snd (stream_segments p')"
    and "concat (fst (stream_segments (Rx_data d # p))) = take RECV_MAX d @ concat (fst (stream_segments p'))"
proof -
  have pos: "0 < RECV_MAX" by (simp add: RECV_MAX_eq)
  have ch: "chunks RECV_MAX d = take RECV_MAX d # chunks RECV_MAX (drop RECV_MAX d)"
    using assms(1) pos by (subst chunks.simps) simp
  show "concat (map (chunks RECV_MAX) (fst (stream_segments (Rx_data d # p)))) =
          take RECV_MAX d # concat (map (chunks RECV_MAX) (fst (stream_segments p')))"
  proof (cases "RECV_MAX < length d")
    case True
    then show ?thesis using assms(1) ch by (simp add: p'_def)
  next
    case False
    then have "drop RECV_MAX d = []" by simp
    then show ?thesis using assms(1) ch False by (simp add: p'_def chunks.simps)
  qed
  show "snd (stream_segments (Rx_data d # p)) = snd (stream_segments p')"
    using assms(1) by (simp add: p'_def)
  show "concat (fst (stream_segments (Rx_data d # p))) = take RECV_MAX d @ concat (fst (stream_segments p'))"
    using assms(1) by (simp add: p'_def)
qed

lemma peer_size_step:
  "d \<noteq> [] \<Longrightarrow>
   peer_size (if RECV_MAX < length d then Rx_data (drop RECV_MAX d) # p else p) < peer_size (Rx_data d # p)"
  by (simp add: peer_size_def RECV_MAX_eq)

text \<open>
  C7. The response driver forwards the peer's bytes verbatim: from a buffer of
  1024 bytes and a peer whose data before the end of the stream holds no NUL
  byte, the loop prints that data as successive reads of at most 1023 bytes,
  makes one more \<open>recv\<close> than it prints chunks (the last returning 0 or failing),
  keeps the buffer at 1024 bytes, and leaves the loop normally exactly when the
  stream ends cleanly, returning from \<open>main\<close> with the read error otherwise.
\<close>

theorem recv_loop_streams:
  assumes "length (response w) = RESPONSE_SIZE"
    and "CHR 0x00 \<notin> set (concat (fst (stream_segments (peer w))))"
  shows "\<exists>w'. recv_loop sock w =
              (if snd (stream_segments (peer w)) then Inr ((), w')
               else Inl (Returned, print ''Error reading response\<newline>'' [] w')) \<and>
            console w' = console w @ map Con_str (concat (map (chunks RECV_MAX) (fst (stream_segments (peer w))))) \<and>
            calls w' = calls w @ replicate (Suc (length (concat (map (chunks RECV_MAX) (fst (stream_segments (peer w)))))))
                                   (Call_recv sock RECV_MAX) \<and>
            length (response w') = RESPONSE_SIZE"
  using assms
proof (induction "peer_size (peer w)" arbitrary: w rule: less_induct)
  case less
  show ?case
  proof (cases "peer w")
    case Nil
    with less.prems show ?thesis by (simp add: recv_loop_end)
  next
    case (Cons x p)
    show ?thesis
    proof (cases x)
      case Rx_error
      with Cons less.prems show ?thesis
        by (intro exI [of _ "(record_call (Call_recv sock RECV_MAX) w)\<lparr>peer := p\<rparr>"])
          (simp add: recv_loop_error)
    next
      case (Rx_data d)
      show ?thesis
      proof (cases "d = []")
        case True
        with Cons Rx_data less.prems show ?thesis by (simp add: recv_loop_end)
      next
        case False
        let ?k = "min RECV_MAX (length d)"
        let ?p' = "if RECV_MAX < length d then Rx_data (drop RECV_MAX d) # p else p"
        let ?w1 = "w\<lparr>calls := calls w @ [Call_recv sock RECV_MAX], peer := ?p',
                     response := (take ?k d @ drop ?k (response w))[?k := CHR 0x00],
                     console := console w @ [Con_str (take RECV_MAX d)]\<rparr>"
        note seg = stream_segments_step [OF False, of p]
        have "concat (fst (stream_segments (peer w))) = take RECV_MAX d @ concat (fst (stream_segments ?p'))"
          using seg(3) Cons Rx_data by simp
        then have nul: "CHR 0x00 \<notin> set (take RECV_MAX d)" "CHR 0x00 \<notin> set (concat (fst (stream_segments ?p')))"
          using less.prems(2) by (simp_all only: set_append Un_iff) blast+
        have step: "recv_loop sock w = recv_loop sock ?w1"
          using recv_loop_data [OF _ False less.prems(1) nul(1)] Cons Rx_data by simp
        have len1: "length (response ?w1) = RESPONSE_SIZE"
          using less.prems(1) False by (simp add: RECV_MAX_eq)
        have "peer_size (peer ?w1) < peer_size (peer w)"
          using peer_size_step [OF False, of p] Cons Rx_data by simp
        from less.hyps [OF this len1] nul(2) obtain w' where
          IH: "recv_loop sock ?w1 =
                 (if snd (stream_segments ?p') then Inr ((), w')
                  else Inl (Returned, print ''Error reading response\<newline>'' [] w'))"
              "console w' = console ?w1 @ map Con_str (concat (map (chunks RECV_MAX) (fst (stream_segments ?p'))))"
              "calls w' = calls ?w1 @ replicate (Suc (length (concat (map (chunks RECV_MAX) (fst (stream_segments ?p'))))))
                                   (Call_recv sock RECV_MAX)"
              "length (response w') = RESPONSE_SIZE"
          by auto
        show ?thesis
          using IH step seg(1,2) Cons Rx_data by (intro exI [of _ w']) (simp add: replicate_app_Cons_same)
      qed
    qed
  qed
qed

lemma stub_world_facts:
  "peer (world0 (env_quiet\<lparr>peer_data := [Rx_data ''abc'', Rx_data [], Rx_error]\<rparr>)) =
     [Rx_data ''abc'', Rx_data [], Rx_error]"
  "length (response (world0 e)) = RESPONSE_SIZE"
  "console (world0 e) = []" "calls (world0 e) = []"
  by (simp_all add: world0_def)

theorem recv_loop_streams_witness:
  "length (response (world0 (env_quiet\<lparr>peer_data := [Rx_data ''abc'', Rx_data [], Rx_error]\<rparr>))) = RESPONSE_SIZE \<and>
   CHR 0x00 \<notin> set (concat (fst (stream_segments
      (peer (world0 (env_quiet\<lparr>peer_data := [Rx_data ''abc'', Rx_data [], Rx_error]\<rparr>)))))) \<and>
   (\<exists>w'. recv_loop 3 (world0 (env_quiet\<lparr>peer_data := [Rx_data ''abc'', Rx_data [], Rx_error]\<rparr>)) = Inr ((), w') \<and>
         console w' = [Con_str ''abc''] \<and> calls w' = [Call_recv 3 RECV_MAX, Call_recv 3 RECV_MAX])"
proof -
  have ch: "chunks RECV_MAX ''abc'' = [''abc'']"
    by (simp add: chunks.simps RECV_MAX_eq)
  have pre: "length (response (world0 (env_quiet\<lparr>peer_data := [Rx_data ''abc'', Rx_data [], Rx_error]\<rparr>))) = RESPONSE_SIZE"
    "CHR 0x00 \<notin> set (concat (fst (stream_segments
      (peer (world0 (env_quiet\<lparr>peer_data := [Rx_data ''abc'', Rx_data [], Rx_error]\<rparr>))))))"
    by (simp_all add: stub_world_facts)
  from recv_loop_streams [OF pre, of 3] show ?thesis
    using pre ch by (auto simp: stub_world_facts numeral_2_eq_2)
qed

section \<open>The connection\<close>

lemma stage_world_simps [simp]:
  "stage_world (Inl (out, w)) = w" "stage_world (Inr (v, w)) = w"
  by (simp_all add: stage_world_def)

lemmas connection_defs =
  open_connection_def tls_options_def CHECK_def socket_def setsockopt_def connect_def Let_def

lemma tls_option_names: "TLS_HOSTNAME \<noteq> TLS_SEC_TAG_LIST" "sizeof_literal HTTP_HOST = 11"
  "SIZEOF_SEC_TAG = 4"
  by (simp_all add: TLS_HOSTNAME_def TLS_SEC_TAG_LIST_def sizeof_literal_def HTTP_HOST_def SIZEOF_SEC_TAG_def)

text \<open>The calls of the connection stage, TLS or not, each made only if all earlier ones succeeded.\<close>

lemma open_connection_trace:
  "calls (stage_world (open_connection tls e res w)) =
     calls w @ [Call_socket (ai_family res) (ai_socktype res) (if tls then IPPROTO_TLS_1_2 else ai_protocol res)] @
     (if socket_result e = -1 then [] else
        (if tls then
           [Call_setsockopt (socket_result e) SOL_TLS TLS_SEC_TAG_LIST (Sec_tags [CA_CERTIFICATE_TAG]) 4] @
           (if sec_tag_result e = -1 then [] else
              [Call_setsockopt (socket_result e) SOL_TLS TLS_HOSTNAME (Opt_bytes (HTTP_HOST @ [CHR 0x00])) 11] @
              (if hostname_result e = -1 then [] else
                 [Call_connect (socket_result e) (ai_addr res) (ai_addrlen res)]))
         else [Call_connect (socket_result e) (ai_addr res) (ai_addrlen res)]))"
  by (cases tls) (simp_all add: connection_defs tls_option_names)

lemma open_connection_fields:
  "response (stage_world (open_connection tls e res w)) = response w"
  "peer (stage_world (open_connection tls e res w)) = peer w"
  by (cases tls; simp add: connection_defs tls_option_names)+

lemma open_connection_Inl: "open_connection tls e res w = Inl (r, w') \<Longrightarrow> r = Exited 1"
  by (cases tls) (auto simp: connection_defs split: if_splits)

lemma open_connection_Inr: "open_connection tls e res w = Inr (sock, w') \<Longrightarrow> sock = socket_result e"
  by (cases tls) (auto simp: connection_defs split: if_splits)

lemma send_request_trace:
  "calls (stage_world (send_request e sock w)) = calls w @ [Call_send sock REQUEST (SSTRLEN REQUEST)]"
  "response (stage_world (send_request e sock w)) = response w"
  "peer (stage_world (send_request e sock w)) = peer w"
  "send_request e sock w = Inl (r, w') \<Longrightarrow> r = Exited 1"
  by (auto simp: send_request_def send_def CHECK_def Let_def split: if_splits)

text \<open>
  C8. With TLS configured, the connection stage creates the socket with the TLS
  protocol, then sets the trusted tag list and then the host name to verify, and
  only then connects; each call is made only if every earlier one succeeded.
\<close>

theorem open_connection_tls_calls:
  "calls (stage_world (open_connection True e res w)) =
     calls w @ [Call_socket (ai_family res) (ai_socktype res) IPPROTO_TLS_1_2] @
     (if socket_result e = -1 then [] else
        [Call_setsockopt (socket_result e) SOL_TLS TLS_SEC_TAG_LIST (Sec_tags [CA_CERTIFICATE_TAG]) 4] @
        (if sec_tag_result e = -1 then [] else
           [Call_setsockopt (socket_result e) SOL_TLS TLS_HOSTNAME (Opt_bytes (HTTP_HOST @ [CHR 0x00])) 11] @
           (if hostname_result e = -1 then [] else
              [Call_connect (socket_result e) (ai_addr res) (ai_addrlen res)])))"
  by (simp add: open_connection_trace)

text \<open>
  C9. Without TLS, the connection stage makes no TLS call at all: it creates the
  socket with the resolved protocol and, if that succeeded, connects.
\<close>

theorem open_connection_plain_calls:
  "calls (stage_world (open_connection False e res w)) =
     calls w @ [Call_socket (ai_family res) (ai_socktype res) (ai_protocol res)] @
     (if socket_result e = -1 then [] else [Call_connect (socket_result e) (ai_addr res) (ai_addrlen res)])"
  by (simp add: open_connection_trace)

text \<open>
  C10. Every failure the connection stage checks is fatal: it goes on with the new
  socket exactly when no checked call returned -1, and otherwise the program
  exits with status 1.
\<close>

theorem open_connection_result:
  "open_connection tls e res w =
     (if socket_result e = -1 \<or> (tls \<and> (sec_tag_result e = -1 \<or> hostname_result e = -1)) \<or>
         connect_result e = -1
      then Inl (Exited 1, stage_world (open_connection tls e res w))
      else Inr (socket_result e, stage_world (open_connection tls e res w)))"
  by (cases tls) (simp_all add: connection_defs tls_option_names)

text \<open>
  Whatever the peer sends, the loop only ever adds \<open>recv\<close> calls to the trace,
  keeps the buffer at 1024 bytes, never writes outside it, and ends either by
  leaving the loop or by returning from \<open>main\<close>.
\<close>

lemma recv_loop_safe:
  assumes "length (response w) = RESPONSE_SIZE"
  shows "\<exists>n w'. (recv_loop sock w = Inr ((), w') \<or> recv_loop sock w = Inl (Returned, w')) \<and>
                calls w' = calls w @ replicate n (Call_recv sock RECV_MAX) \<and>
                length (response w') = RESPONSE_SIZE"
  using assms
proof (induction "peer_size (peer w)" arbitrary: w rule: less_induct)
  case less
  show ?case
  proof (cases "peer w")
    case Nil
    then show ?thesis using less.prems
      by (intro exI [of _ 1]) (auto simp: recv_loop_end)
  next
    case (Cons x p)
    show ?thesis
    proof (cases x)
      case Rx_error
      with Cons less.prems show ?thesis
        by (intro exI [of _ 1] exI [of _ "print ''Error reading response\<newline>'' [] ((record_call (Call_recv sock RECV_MAX) w)\<lparr>peer := p\<rparr>)"])
          (simp add: recv_loop_error)
    next
      case (Rx_data d)
      show ?thesis
      proof (cases "d = []")
        case True
        with Cons Rx_data less.prems show ?thesis
          by (intro exI [of _ 1]) (auto simp: recv_loop_end)
      next
        case False
        let ?k = "min RECV_MAX (length d)"
        let ?b = "(take ?k d @ drop ?k (response w))[?k := CHR 0x00]"
        let ?w1 = "w\<lparr>calls := calls w @ [Call_recv sock RECV_MAX],
                     peer := (if RECV_MAX < length d then Rx_data (drop RECV_MAX d) # p else p),
                     response := ?b, console := console w @ [Con_str (c_string ?b)]\<rparr>"
        have step: "recv_loop sock w = recv_loop sock ?w1"
          using recv_loop_step [OF _ False less.prems] Cons Rx_data by simp
        have len1: "length (response ?w1) = RESPONSE_SIZE"
          using less.prems False by (simp add: RECV_MAX_eq min_def)
        have "peer_size (peer ?w1) < peer_size (peer w)"
          using peer_size_step [OF False, of p] Cons Rx_data by simp
        from less.hyps [OF this len1] obtain n w' where
          "recv_loop sock ?w1 = Inr ((), w') \<or> recv_loop sock ?w1 = Inl (Returned, w')"
          "calls w' = calls ?w1 @ replicate n (Call_recv sock RECV_MAX)" "length (response w') = RESPONSE_SIZE"
          by blast
        with step show ?thesis
          by (intro exI [of _ "Suc n"] exI [of _ w']) (simp add: replicate_app_Cons_same)
      qed
    qed
  qed
qed

text \<open>
  C20. The driver does not forward binary data verbatim: a chunk is printed as a
  C string, so the bytes from its first NUL on are dropped. A peer that sends
  \<open>a\<close>, NUL, \<open>b\<close> gets only \<open>a\<close> printed.
\<close>

theorem recv_loop_nul_truncates:
  "\<exists>w'. recv_loop 3 (world0 (env_quiet\<lparr>peer_data := [Rx_data [CHR ''a'', CHR 0x00, CHR ''b'']]\<rparr>)) = Inr ((), w') \<and>
        printed (console w') = [[CHR ''a'']]"
proof -
  let ?d = "[CHR ''a'', CHR 0x00, CHR ''b'']"
  let ?W = "world0 (env_quiet\<lparr>peer_data := [Rx_data ?d]\<rparr>)"
  have p: "peer ?W = Rx_data ?d # []" "length (response ?W) = RESPONSE_SIZE"
    by (simp_all add: world0_def)
  define B where "B = (take 3 ?d @ drop 3 (response ?W))[3 := CHR 0x00]"
  have k: "min RECV_MAX (length ?d) = 3" "(RECV_MAX < length ?d) = False"
    by (simp_all add: RECV_MAX_eq)
  have c: "c_string B = [CHR ''a'']"
    by (simp add: B_def world0_def c_string_def RESPONSE_SIZE_def)
  have "recv_loop 3 ?W = recv_loop 3 (?W\<lparr>calls := calls ?W @ [Call_recv 3 RECV_MAX], peer := [],
          response := B, console := console ?W @ [Con_str (c_string B)]\<rparr>)"
    using recv_loop_step [OF p(1) _ p(2), of 3] unfolding B_def by (simp only: k if_False) simp
  also have "\<dots> = Inr ((), record_call (Call_recv 3 RECV_MAX) (?W\<lparr>calls := calls ?W @ [Call_recv 3 RECV_MAX], peer := [],
          response := B, console := console ?W @ [Con_str (c_string B)]\<rparr>))"
    by (simp add: recv_loop_end)
  finally show ?thesis
    by (simp add: world0_def c)
qed

section \<open>Dependence on the I/O view only\<close>

lemma io_eq_stage_simps [simp]:
  "io_eq_stage (Inl (r, w)) (Inl (r', w')) \<longleftrightarrow> r = r' \<and> io_view w = io_view w'"
  "io_eq_stage (Inr (v, w)) (Inr (v', w')) \<longleftrightarrow> v = v' \<and> io_view w = io_view w'"
  "\<not> io_eq_stage (Inl a) (Inr b)" "\<not> io_eq_stage (Inr b) (Inl a)"
  by (auto simp: io_eq_stage_def split: prod.splits)

lemma io_view_print_str [simp]: "io_view (print_str b w) = io_view w"
  by (simp add: io_view_def print_str_def)

lemma recv_io:
  assumes "io_view w1 = io_view w2"
  shows "fst (recv sock n w1) = fst (recv sock n w2) \<and> io_view (snd (recv sock n w1)) = io_view (snd (recv sock n w2))"
  using assms by (auto simp: recv_def io_view_eq_iff Let_def split: list.split rx.split)

lemma recv_loop_io:
  "io_view w1 = io_view w2 \<Longrightarrow> io_eq_stage (recv_loop sock w1) (recv_loop sock w2)"
proof (induction sock w1 arbitrary: w2 rule: recv_loop.induct)
  case (1 sock w1)
  obtain len v1 where r1: "recv sock (RESPONSE_SIZE - 1) w1 = (len, v1)" by fastforce
  obtain v2 where r2: "recv sock (RESPONSE_SIZE - 1) w2 = (len, v2)" and v: "io_view v1 = io_view v2"
    using recv_io [OF "1.prems", of sock "RESPONSE_SIZE - 1"] r1 by (cases "recv sock (RESPONSE_SIZE - 1) w2") auto
  have rs: "response v1 = response v2" using v by (simp add: io_view_eq_iff)
  let ?u1 = "v1\<lparr>response := (response v1)[nat len := CHR 0x00]\<rparr>"
  let ?u2 = "v2\<lparr>response := (response v2)[nat len := CHR 0x00]\<rparr>"
  have u: "io_view (print_str (response ?u1) ?u1) = io_view (print_str (response ?u2) ?u2)"
    using v by (simp add: io_view_eq_iff)
  show ?case
  proof (cases "len < 0 \<or> len = 0 \<or> \<not> nat len < length (response v1)")
    case True
    with r1 r2 v rs show ?thesis by (subst (1 2) recv_loop.simps) auto
  next
    case False
    then have c: "\<not> len < 0" "len \<noteq> 0" "nat len < length (response v1)" by auto
    have "io_eq_stage (recv_loop sock (print_str (response ?u1) ?u1)) (recv_loop sock (print_str (response ?u2) ?u2))"
      by (rule "1.IH" [OF r1 [symmetric] c refl u])
    with False r1 r2 rs show ?thesis by (subst (1 2) recv_loop.simps) (simp add: Let_def)
  qed
qed

lemma io_eq_stageE:
  assumes "io_eq_stage x y"
  obtains (Inl) r w w' where "x = Inl (r, w)" "y = Inl (r, w')" "io_view w = io_view w'"
    | (Inr) v w w' where "x = Inr (v, w)" "y = Inr (v, w')" "io_view w = io_view w'"
  using assms by (cases x; cases y) (auto simp: io_eq_stage_def)

lemma send_request_io:
  "io_view w1 = io_view w2 \<Longrightarrow> io_eq_stage (send_request e sock w1) (send_request e sock w2)"
  by (auto simp: send_request_def send_def CHECK_def Let_def io_view_eq_iff)

lemma open_connection_io:
  "io_view w1 = io_view w2 \<Longrightarrow> io_eq_stage (open_connection tls e res w1) (open_connection tls e res w2)"
  by (cases tls) (auto simp: connection_defs io_view_eq_iff)

section \<open>Well-formedness\<close>

lemma recv_fields:
  "event_callbacks (snd (recv sock n w)) = event_callbacks w"
  by (auto simp: recv_def Let_def split: list.split rx.split)

lemma recv_loop_callbacks:
  "event_callbacks (stage_world (recv_loop sock w)) = event_callbacks w"
proof (induction sock w rule: recv_loop.induct)
  case (1 sock w)
  obtain len v where r: "recv sock (RESPONSE_SIZE - 1) w = (len, v)" by fastforce
  have cv: "event_callbacks v = event_callbacks w" using recv_fields [of sock "RESPONSE_SIZE - 1" w] r by simp
  show ?case
  proof (cases "len < 0 \<or> len = 0 \<or> \<not> nat len < length (response v)")
    case True
    with r cv show ?thesis by (subst recv_loop.simps) auto
  next
    case False
    then have c: "\<not> len < 0" "len \<noteq> 0" "nat len < length (response v)" by auto
    let ?u = "v\<lparr>response := (response v)[nat len := CHR 0x00]\<rparr>"
    have "event_callbacks (stage_world (recv_loop sock (print_str (response ?u) ?u))) = event_callbacks (print_str (response ?u) ?u)"
      by (rule "1.IH" [OF r [symmetric] c refl])
    with c r cv show ?thesis by (subst recv_loop.simps) (simp add: Let_def print_str_def)
  qed
qed

lemma recv_loop_world_wf:
  assumes "world_wf w"
  shows "world_wf (stage_world (recv_loop sock w))"
proof -
  from assms have "length (response w) = RESPONSE_SIZE" by (simp add: world_wf_def)
  from recv_loop_safe [OF this, of sock] obtain n w' where
    "recv_loop sock w = Inr ((), w') \<or> recv_loop sock w = Inl (Returned, w')" "length (response w') = RESPONSE_SIZE"
    by blast
  with assms recv_loop_callbacks [of sock w] show ?thesis
    by (auto simp: world_wf_def)
qed

end
