(* ===== verification/Main_Run.thy ===== *)
theory Main_Run
  imports Wait_Loop Http_Client
begin

text \<open>
  \<open>main\<close> of \<open>http_get.c\<close> composed from its stages: the prologue (registration of
  the event callbacks and the modem gate), the readiness wait, the resolver stage
  (TLS credential, \<open>getaddrinfo\<close>, \<open>dump_addrinfo\<close>), the connection, the request,
  the response loop and the final \<open>close\<close>. A run is \<open>None\<close> when the readiness
  wait never ends, and otherwise the way \<open>main\<close> ends with the final state.
\<close>

section \<open>Stages\<close>

text \<open>\<open>setup_iface_events(); st = mdm_hl7800_reset(); if (st != 0) ... return;\<close>\<close>

definition main_prologue :: "env \<Rightarrow> world \<Rightarrow> (outcome \<times> world) + world" where
  "main_prologue e w =
     (case setup_iface_events w of
        Inl err \<Rightarrow> Inl (Fault (Setup_fault err), w)
      | Inr w1 \<Rightarrow>
          (let (st, w2) = mdm_hl7800_reset e w1;
               w3 = deliver_events (net_events e 0) w2
           in if st \<noteq> 0 then Inl (Returned, print ''modem init err: %d\<newline>'' [st] w3)
              else Inr w3))"

text \<open>
  \<open>dump_addrinfo\<close> prints the fields of the first result; the \<open>%p\<close> pointer
  argument is not modelled.
\<close>

definition dump_addrinfo :: "addrinfo \<Rightarrow> world \<Rightarrow> world" where
  "dump_addrinfo ai w =
     print (''addrinfo @%p: ai_family=%d, ai_socktype=%d, ai_protocol=%d, '' @
            ''sa_family=%d, sin_port=%x\<newline>'')
       [ai_family ai, ai_socktype ai, ai_protocol ai, sa_family (ai_addr ai), uint (sin_port (ai_addr ai))] w"

text \<open>
  From the TLS credential to \<open>dump_addrinfo(res)\<close>. The result of
  \<open>tls_credential_add\<close> is not looked at. A successful \<open>getaddrinfo\<close> with an
  empty list leaves \<open>res\<close> NULL, which \<open>dump_addrinfo\<close> dereferences.
\<close>

definition resolve :: "bool \<Rightarrow> env \<Rightarrow> world \<Rightarrow> addrinfo stage" where
  "resolve tls e w =
     (let w1 = (if tls then snd (tls_credential_add e CA_CERTIFICATE_TAG TLS_CREDENTIAL_CA_CERTIFICATE w)
                else w);
          w2 = print (''Preparing HTTP GET request for http://'' @ HTTP_HOST @ '':'' @ HTTP_PORT tls @
                      HTTP_PATH @ ''\<newline>'') [] w1;
          hints = addrinfo_zero\<lparr>ai_family := AF_INET, ai_socktype := SOCK_STREAM\<rparr>;
          (st, res, w3) = getaddrinfo e HTTP_HOST (HTTP_PORT tls) hints w2;
          w4 = print ''getaddrinfo status: %d\<newline>'' [st] w3
      in if st \<noteq> 0 then Inl (Returned, print ''Unable to resolve address, quitting\<newline>'' [] w4)
         else (case res of
                 [] \<Rightarrow> Inl (Fault Null_deref, w4)
               | ai # _ \<Rightarrow> Inr (ai, dump_addrinfo ai w4)))"

text \<open>From \<open>send\<close> to \<open>close\<close>: the request, the response and the final newline.\<close>

definition session :: "env \<Rightarrow> c_int \<Rightarrow> world \<Rightarrow> outcome \<times> world" where
  "session e sock w =
     (case send_request e sock w of
        Inl r \<Rightarrow> r
      | Inr (_, w1) \<Rightarrow>
          (case recv_loop sock (print ''Response:\<newline>\<newline>'' [] w1) of
             Inl r \<Rightarrow> r
           | Inr (_, w2) \<Rightarrow> (Returned, close sock (print ''\<newline>'' [] w2))))"

text \<open>Everything after the readiness wait.\<close>

definition main_tail :: "bool \<Rightarrow> env \<Rightarrow> world \<Rightarrow> outcome \<times> world" where
  "main_tail tls e w =
     (case resolve tls e w of
        Inl r \<Rightarrow> r
      | Inr (res, w1) \<Rightarrow>
          (case open_connection tls e res w1 of
             Inl r \<Rightarrow> r
           | Inr (sock, w2) \<Rightarrow> session e sock w2))"

definition main :: "bool \<Rightarrow> env \<Rightarrow> (outcome \<times> world) option" where
  "main tls e =
     (case main_prologue e (world0 e) of
        Inl r \<Rightarrow> Some r
      | Inr w \<Rightarrow> map_option (main_tail tls e) (wait_loop e 0 w))"

text \<open>The state in which the readiness wait starts after a successful modem reset.\<close>

definition wait_start :: "env \<Rightarrow> world" where
  "wait_start e =
     deliver_events (net_events e 0)
       (record_call Call_mdm_reset ((world0 e)\<lparr>event_callbacks := iface_callbacks\<rparr>))"

text \<open>
  The flag as the events raised up to the end of the \<open>k\<close>-th sleep leave it, by
  the readiness contract of \<^theory_text>\<open>Net_Events\<close>.
\<close>

definition ready_by :: "env \<Rightarrow> nat \<Rightarrow> bool" where
  "ready_by e k = readiness_after False (concat (map (net_events e) [0..<Suc k]))"

section \<open>The prologue\<close>

lemma main_prologue_world0:
  "main_prologue e (world0 e) =
     (if mdm_reset_result e \<noteq> 0
      then Inl (Returned, print ''modem init err: %d\<newline>'' [mdm_reset_result e] (wait_start e))
      else Inr (wait_start e))"
proof -
  have "setup_iface_events (world0 e) = Inr ((world0 e)\<lparr>event_callbacks := iface_callbacks\<rparr>)"
    using setup_iface_events_result [of "world0 e"] by (simp add: world0_def)
  then show ?thesis
    by (simp add: main_prologue_def mdm_hl7800_reset_def wait_start_def)
qed

lemma wait_start_facts:
  "net_ready_inv (wait_start e)"
  "calls (wait_start e) = [Call_mdm_reset]"
  "length (response (wait_start e)) = RESPONSE_SIZE"
  "is_network_ready (wait_start e) = readiness_after False (net_events e 0)"
proof -
  have inv0: "net_ready_inv (record_call Call_mdm_reset ((world0 e)\<lparr>event_callbacks := iface_callbacks\<rparr>))"
    using example_registered_inv by simp
  show "net_ready_inv (wait_start e)"
    unfolding wait_start_def using inv0 by (rule deliver_events_inv)
  show "calls (wait_start e) = [Call_mdm_reset]" "length (response (wait_start e)) = RESPONSE_SIZE"
    by (simp_all add: wait_start_def world0_def)
  show "is_network_ready (wait_start e) = readiness_after False (net_events e 0)"
    unfolding wait_start_def using deliver_events_ready [OF inv0] by (simp add: world0_def)
qed

lemma wait_start_polls:
  "is_network_ready (polls e 0 (wait_start e) k) = ready_by e k"
proof -
  have "[0..<Suc k] = 0 # [Suc 0..<Suc 0 + k]"
    by (simp add: upt_rec)
  then show ?thesis
    using polls_ready_events [OF wait_start_facts(1), where e = e and n = 0 and k = k]
    by (simp add: wait_start_facts(4) ready_by_def readiness_after_append)
qed

lemma polls_response:
  "response (polls e n w k) = response w"
  by (induction k arbitrary: n w) (simp_all add: wait_body_fields)

lemma polls_peer:
  "peer (polls e n w k) = peer w"
  by (induction k arbitrary: n w) (simp_all add: wait_body_fields)

lemma wait_start_buffer:
  "response (wait_start e) = replicate RESPONSE_SIZE (CHR 0x00)"
  by (simp add: wait_start_def world0_def)

section \<open>The stages after the wait\<close>

definition resolve_calls :: "bool \<Rightarrow> call list" where
  "resolve_calls tls =
     (if tls then [Call_tls_credential_add CA_CERTIFICATE_TAG TLS_CREDENTIAL_CA_CERTIFICATE] else []) @
     [Call_getaddrinfo HTTP_HOST (HTTP_PORT tls) (addrinfo_zero\<lparr>ai_family := AF_INET, ai_socktype := SOCK_STREAM\<rparr>)]"

lemmas resolve_defs = resolve_def Let_def tls_credential_add_def getaddrinfo_def dump_addrinfo_def

lemma resolve_trace:
  "calls (stage_world (resolve tls e w)) = calls w @ resolve_calls tls"
  "response (stage_world (resolve tls e w)) = response w"
  by (auto simp: resolve_defs resolve_calls_def split: list.splits)

lemma resolve_Inl:
  "resolve tls e w = Inl (r, w') \<Longrightarrow>
   (r = Returned \<and> gai_status e \<noteq> 0) \<or> (r = Fault Null_deref \<and> gai_status e = 0 \<and> gai_list e = [])"
  by (auto simp: resolve_defs split: list.splits if_splits)

lemma resolve_Inr:
  "resolve tls e w = Inr (ai, w') \<Longrightarrow> gai_status e = 0 \<and> gai_list e \<noteq> [] \<and> ai = hd (gai_list e)"
  by (auto simp: resolve_defs split: list.splits if_splits)

lemma session_shape:
  assumes len: "length (response w) = RESPONSE_SIZE" and run: "session e sock w = (r, w')"
  shows "(r = Returned \<or> r = Exited 1) \<and>
         (\<exists>ys. list_all is_io_call ys \<and>
               (calls w' = calls w @ ys \<or> (calls w' = calls w @ ys @ [Call_close sock] \<and> r = Returned)))"
proof (cases "send_request e sock w")
  case (Inl a)
  then obtain r1 w1 where sr: "send_request e sock w = Inl (r1, w1)" by (cases a) auto
  with run have "r = r1" "w' = w1" by (simp_all add: session_def)
  with sr send_request_trace(1) [of e sock w] send_request_trace(4) [OF sr] show ?thesis
    by (auto simp: is_io_call_def)
next
  case (Inr a)
  then obtain w1 where sr: "send_request e sock w = Inr ((), w1)" by (cases a) auto
  let ?w2 = "print ''Response:\<newline>\<newline>'' [] w1"
  have c1: "calls ?w2 = calls w @ [Call_send sock REQUEST (SSTRLEN REQUEST)]"
    "length (response ?w2) = RESPONSE_SIZE"
    using send_request_trace(1,2) [of e sock w] sr len by simp_all
  from recv_loop_safe [OF c1(2), of sock] obtain n w3 where
    rl: "recv_loop sock ?w2 = Inr ((), w3) \<or> recv_loop sock ?w2 = Inl (Returned, w3)"
    and c3: "calls w3 = calls ?w2 @ replicate n (Call_recv sock RECV_MAX)"
    by blast
  have io: "list_all is_io_call (Call_send sock REQUEST (SSTRLEN REQUEST) # replicate n (Call_recv sock RECV_MAX))"
    by (simp add: is_io_call_def list_all_iff)
  from rl show ?thesis
  proof
    assume "recv_loop sock ?w2 = Inr ((), w3)"
    with run sr have "r = Returned" "w' = close sock (print ''\<newline>'' [] w3)"
      by (simp_all add: session_def)
    with io c1 c3 show ?thesis
      by (auto simp: close_def intro!: exI [of _ "Call_send sock REQUEST (SSTRLEN REQUEST) # replicate n (Call_recv sock RECV_MAX)"])
  next
    assume "recv_loop sock ?w2 = Inl (Returned, w3)"
    with run sr have "r = Returned" "w' = w3"
      by (simp_all add: session_def)
    with io c1 c3 show ?thesis
      by (auto intro!: exI [of _ "Call_send sock REQUEST (SSTRLEN REQUEST) # replicate n (Call_recv sock RECV_MAX)"])
  qed
qed

lemma main_tail_shape:
  assumes len: "length (response w) = RESPONSE_SIZE" and run: "main_tail tls e w = (r, w')"
  shows "(r = Returned \<or> r = Exited 1 \<or> r = Fault Null_deref) \<and>
         (\<exists>ys. list_all is_io_call ys \<and>
               (calls w' = calls w @ ys \<or> (calls w' = calls w @ ys @ [Call_close (socket_result e)] \<and> r = Returned)))"
proof (cases "resolve tls e w")
  case (Inl a)
  then obtain r1 w1 where res: "resolve tls e w = Inl (r1, w1)" by (cases a) auto
  with run have "r = r1" "w' = w1" by (simp_all add: main_tail_def)
  with res resolve_trace(1) [of tls e w] resolve_Inl [OF res] show ?thesis
    by (auto simp: resolve_calls_def is_io_call_def)
next
  case (Inr a)
  then obtain ai w1 where res: "resolve tls e w = Inr (ai, w1)" by (cases a) auto
  have c1: "calls w1 = calls w @ resolve_calls tls" "response w1 = response w"
    using resolve_trace [of tls e w] res by simp_all
  have io1: "list_all is_io_call (resolve_calls tls)"
    by (simp add: resolve_calls_def is_io_call_def)
  show ?thesis
  proof (cases "open_connection tls e ai w1")
    case (Inl b)
    then obtain r2 w2 where oc: "open_connection tls e ai w1 = Inl (r2, w2)" by (cases b) auto
    with run res have "r = r2" "w' = w2" by (simp_all add: main_tail_def)
    with oc c1 io1 open_connection_trace [of tls e ai w1] open_connection_Inl [OF oc] show ?thesis
      by (auto simp: is_io_call_def)
  next
    case (Inr b)
    then obtain sock w2 where oc: "open_connection tls e ai w1 = Inr (sock, w2)" by (cases b) auto
    have sock: "sock = socket_result e" using open_connection_Inr [OF oc] .
    have c2: "length (response w2) = RESPONSE_SIZE"
      using open_connection_fields(1) [of tls e ai w1] oc c1 len by simp
    have io2: "\<exists>zs. list_all is_io_call zs \<and> calls w2 = calls w @ zs"
      using oc c1 io1 open_connection_trace [of tls e ai w1] by (auto simp: is_io_call_def)
    from run res oc have "session e sock w2 = (r, w')" by (simp add: main_tail_def)
    from session_shape [OF c2 this] obtain ys where
      s: "r = Returned \<or> r = Exited 1" "list_all is_io_call ys"
         "calls w' = calls w2 @ ys \<or> (calls w' = calls w2 @ ys @ [Call_close sock] \<and> r = Returned)"
      by blast
    from io2 obtain zs where "list_all is_io_call zs" "calls w2 = calls w @ zs"
      by blast
    with s sock show ?thesis
      by (auto intro!: exI [of _ "zs @ ys"])
  qed
qed

lemma main_tail_null_deref:
  assumes len: "length (response w) = RESPONSE_SIZE" and run: "main_tail tls e w = (Fault Null_deref, w')"
  shows "gai_status e = 0 \<and> gai_list e = []"
proof (cases "resolve tls e w")
  case (Inl a)
  then obtain r1 w1 where res: "resolve tls e w = Inl (r1, w1)" by (cases a) auto
  with run have "r1 = Fault Null_deref" by (simp add: main_tail_def)
  with resolve_Inl [OF res] show ?thesis by simp
next
  case (Inr a)
  then obtain ai w1 where res: "resolve tls e w = Inr (ai, w1)" by (cases a) auto
  show ?thesis
  proof (cases "open_connection tls e ai w1")
    case (Inl b)
    then obtain r2 w2 where oc: "open_connection tls e ai w1 = Inl (r2, w2)" by (cases b) auto
    with run res open_connection_Inl [OF oc] show ?thesis by (simp add: main_tail_def)
  next
    case (Inr b)
    then obtain sock w2 where oc: "open_connection tls e ai w1 = Inr (sock, w2)" by (cases b) auto
    have "length (response w2) = RESPONSE_SIZE"
      using open_connection_fields(1) [of tls e ai w1] resolve_trace(2) [of tls e w] oc res len by simp
    moreover from run res oc have "session e sock w2 = (Fault Null_deref, w')"
      by (simp add: main_tail_def)
    ultimately show ?thesis
      using session_shape by blast
  qed
qed

section \<open>Runs of main\<close>

lemma main_cases:
  "main tls e =
     (if mdm_reset_result e \<noteq> 0
      then Some (Returned, print ''modem init err: %d\<newline>'' [mdm_reset_result e] (wait_start e))
      else map_option (main_tail tls e) (wait_loop e 0 (wait_start e)))"
  by (simp add: main_def main_prologue_world0)

text \<open>
  Every run of \<open>main\<close> that ends: either the modem gate fails and nothing else is
  called, or the trace is the modem reset, one sleep per test of the flag that
  found it clear (the first \<open>k\<close> tests, the events up to the \<open>k\<close>-th sleep making
  it true), the calls after the wait, and at most one final \<open>close\<close>.
\<close>

lemma main_run_shape:
  assumes run: "main tls e = Some (r, w')"
  shows "(mdm_reset_result e \<noteq> 0 \<and> r = Returned \<and> calls w' = [Call_mdm_reset]) \<or>
         (mdm_reset_result e = 0 \<and>
          (\<exists>k ys. ready_by e k \<and> (\<forall>j<k. \<not> ready_by e j) \<and> list_all is_io_call ys \<and>
                 (r = Returned \<or> r = Exited 1 \<or> r = Fault Null_deref) \<and>
                 (r = Fault Null_deref \<longrightarrow> gai_status e = 0 \<and> gai_list e = []) \<and>
                 (calls w' = Call_mdm_reset # replicate k (Call_k_sleep WAIT_SECONDS) @ ys \<or>
                  (calls w' = Call_mdm_reset # replicate k (Call_k_sleep WAIT_SECONDS) @ ys @
                                [Call_close (socket_result e)] \<and> r = Returned))))"
proof (cases "mdm_reset_result e = 0")
  case False
  with run show ?thesis by (auto simp: main_cases wait_start_facts(2))
next
  case True
  with run obtain w0 where wl: "wait_loop e 0 (wait_start e) = Some w0" and mt: "main_tail tls e w0 = (r, w')"
    by (auto simp: main_cases)
  from wait_loop_Some_polls [OF wl] obtain k where
    k: "w0 = polls e 0 (wait_start e) k" "is_network_ready w0"
       "\<forall>j<k. \<not> is_network_ready (polls e 0 (wait_start e) j)"
    by blast
  have len: "length (response w0) = RESPONSE_SIZE"
    using k(1) polls_response wait_start_facts(3) by simp
  have c0: "calls w0 = Call_mdm_reset # replicate k (Call_k_sleep WAIT_SECONDS)"
    using k(1) polls_calls wait_start_facts(2) by simp
  from main_tail_shape [OF len mt] obtain ys where
    sh: "r = Returned \<or> r = Exited 1 \<or> r = Fault Null_deref" "list_all is_io_call ys"
        "calls w' = calls w0 @ ys \<or> (calls w' = calls w0 @ ys @ [Call_close (socket_result e)] \<and> r = Returned)"
    by blast
  have nd: "r = Fault Null_deref \<longrightarrow> gai_status e = 0 \<and> gai_list e = []"
    using main_tail_null_deref [OF len] mt by blast
  have "ready_by e k" "\<forall>j<k. \<not> ready_by e j"
    using k wait_start_polls by auto
  with True sh nd c0 show ?thesis
    by (intro disjI2) (auto intro!: exI [of _ k] exI [of _ ys])
qed

lemma wait_loop_ready_by:
  assumes "ready_by e k"
  shows "wait_loop e 0 (wait_start e) = Some (polls e 0 (wait_start e) (LEAST j. ready_by e j))"
proof -
  let ?j = "LEAST j. ready_by e j"
  have "ready_by e ?j" using assms by (rule LeastI)
  then have a: "is_network_ready (polls e 0 (wait_start e) ?j)"
    by (simp only: wait_start_polls)
  have "\<forall>i<?j. \<not> ready_by e i" using not_less_Least by blast
  then have b: "\<forall>i<?j. \<not> is_network_ready (polls e 0 (wait_start e) i)"
    by (simp only: wait_start_polls)
  show ?thesis using wait_loop_first_ready [OF a b] .
qed

section \<open>Dependence on the environment\<close>

text \<open>
  \<open>main\<close> reads the result of \<open>tls_credential_add\<close> nowhere, and the result of
  \<open>send\<close> only by comparing it with -1.
\<close>

lemma main_tail_env_cong:
  assumes "gai_status e' = gai_status e" "gai_list e' = gai_list e" "socket_result e' = socket_result e"
    "sec_tag_result e' = sec_tag_result e" "hostname_result e' = hostname_result e"
    "connect_result e' = connect_result e" "send_result e' = -1 \<longleftrightarrow> send_result e = -1"
  shows "main_tail tls e' = main_tail tls e"
proof -
  have "open_connection tls e' res w = open_connection tls e res w" for res w
    using assms by (cases tls) (simp_all add: connection_defs)
  moreover have "session e' sock w = session e sock w" for sock w
    using assms by (simp add: session_def send_request_def send_def CHECK_def)
  moreover have "resolve tls e' w = resolve tls e w" for w
    using assms by (cases tls; simp add: resolve_defs split: list.split)
  ultimately have "main_tail tls e' w = main_tail tls e w" for w
    by (auto simp: main_tail_def split: sum.split)
  then show ?thesis
    by (rule ext)
qed

lemma main_env_cong:
  assumes "mdm_reset_result e' = mdm_reset_result e" "net_events e' = net_events e"
    "gai_status e' = gai_status e" "gai_list e' = gai_list e" "socket_result e' = socket_result e"
    "sec_tag_result e' = sec_tag_result e" "hostname_result e' = hostname_result e"
    "connect_result e' = connect_result e" "peer_data e' = peer_data e"
    "send_result e' = -1 \<longleftrightarrow> send_result e = -1"
  shows "main tls e' = main tls e"
proof -
  have ws: "wait_start e' = wait_start e"
    using assms by (simp add: wait_start_def world0_def)
  have wl: "wait_loop e' 0 w = wait_loop e 0 w" for w
    using assms(2) by (rule wait_loop_env_cong)
  have "main_tail tls e' = main_tail tls e"
    using assms(3-8,10) by (rule main_tail_env_cong)
  with ws wl assms(1) show ?thesis
    by (simp add: main_cases)
qed

lemma main_tail_net_events: "main_tail tls (e\<lparr>net_events := f\<rparr>) = main_tail tls e"
  by (rule main_tail_env_cong) simp_all

section \<open>Runs that reach the request\<close>

lemma wait_start_more:
  "peer (wait_start e) = peer_data e" "printed (console (wait_start e)) = []"
  by (simp_all add: wait_start_def world0_def)

text \<open>
  The resolver and connection stages print only formatted messages and leave
  the peer alone. A run in which the network is ready when the wait starts, and
  in which resolution, \<open>socket\<close>, the TLS options when configured, and
  \<open>connect\<close> succeed, reaches the request with this trace.
\<close>

lemma resolve_console_peer:
  "printed (console (stage_world (resolve tls e w))) = printed (console w)"
  "peer (stage_world (resolve tls e w)) = peer w"
  by (auto simp: resolve_defs split: list.split)

lemma open_connection_console:
  "printed (console (stage_world (open_connection tls e ai w))) = printed (console w)"
  by (cases tls) (simp_all add: connection_defs tls_option_names)

lemma main_reaches_session:
  assumes "mdm_reset_result e = 0" "is_network_ready (wait_start e)" "gai_status e = 0"
    "gai_list e = ai # ais" "socket_result e \<noteq> -1" "tls \<longrightarrow> sec_tag_result e \<noteq> -1 \<and> hostname_result e \<noteq> -1"
    "connect_result e \<noteq> -1"
  shows "\<exists>w. main tls e = Some (session e (socket_result e) w) \<and>
    calls w = Call_mdm_reset # resolve_calls tls @
      [Call_socket (ai_family ai) (ai_socktype ai) (if tls then IPPROTO_TLS_1_2 else ai_protocol ai)] @
      (if tls then [Call_setsockopt (socket_result e) SOL_TLS TLS_SEC_TAG_LIST (Sec_tags [CA_CERTIFICATE_TAG]) 4,
                    Call_setsockopt (socket_result e) SOL_TLS TLS_HOSTNAME (Opt_bytes (HTTP_HOST @ [CHR 0x00])) 11]
       else []) @
      [Call_connect (socket_result e) (ai_addr ai) (ai_addrlen ai)] \<and>
    peer w = peer_data e \<and> length (response w) = RESPONSE_SIZE \<and> printed (console w) = []"
proof -
  define W0 where "W0 = wait_start e"
  define W1 where "W1 = stage_world (resolve tls e W0)"
  have r: "resolve tls e W0 = Inr (ai, W1)"
    using assms(3,4) unfolding W1_def by (cases tls; simp add: resolve_defs)
  define W2 where "W2 = stage_world (open_connection tls e ai W1)"
  have oc: "open_connection tls e ai W1 = Inr (socket_result e, W2)"
    using assms(5-7) open_connection_result [of tls e ai W1] unfolding W2_def by auto
  have "main tls e = Some (main_tail tls e W0)"
    using assms(1,2) by (simp add: main_cases W0_def)
  also have "main_tail tls e W0 = session e (socket_result e) W2"
    using r oc by (simp add: main_tail_def)
  finally have m: "main tls e = Some (session e (socket_result e) W2)" .
  have "calls W2 = Call_mdm_reset # resolve_calls tls @
      [Call_socket (ai_family ai) (ai_socktype ai) (if tls then IPPROTO_TLS_1_2 else ai_protocol ai)] @
      (if tls then [Call_setsockopt (socket_result e) SOL_TLS TLS_SEC_TAG_LIST (Sec_tags [CA_CERTIFICATE_TAG]) 4,
                    Call_setsockopt (socket_result e) SOL_TLS TLS_HOSTNAME (Opt_bytes (HTTP_HOST @ [CHR 0x00])) 11]
       else []) @
      [Call_connect (socket_result e) (ai_addr ai) (ai_addrlen ai)]"
    using assms(5-7) resolve_trace(1) [of tls e W0] open_connection_trace [of tls e ai W1]
    unfolding W2_def W1_def W0_def by (simp add: wait_start_facts(2))
  moreover have "peer W2 = peer_data e" "length (response W2) = RESPONSE_SIZE" "printed (console W2) = []"
    unfolding W2_def W1_def W0_def
    by (simp_all add: open_connection_fields resolve_trace(2) resolve_console_peer open_connection_console
        wait_start_facts(3) wait_start_more)
  ultimately show ?thesis using m by blast
qed

text \<open>The request, a reply that fits the buffer, the end of the stream, and \<open>close\<close>.\<close>

lemma session_one_segment:
  assumes "send_result e \<noteq> -1" "peer w = [Rx_data d]" "d \<noteq> []" "length d \<le> RECV_MAX"
    "CHR 0x00 \<notin> set d" "length (response w) = RESPONSE_SIZE"
  shows "\<exists>w'. session e sock w = (Returned, w') \<and>
    calls w' = calls w @ [Call_send sock REQUEST (SSTRLEN REQUEST), Call_recv sock RECV_MAX,
                          Call_recv sock RECV_MAX, Call_close sock] \<and>
    printed (console w') = printed (console w) @ [d]"
proof -
  define W1 where "W1 = print ''Response:\<newline>\<newline>'' [] (record_call (Call_send sock REQUEST (SSTRLEN REQUEST)) w)"
  have sr: "send_request e sock w = Inr ((), record_call (Call_send sock REQUEST (SSTRLEN REQUEST)) w)"
    using assms(1) by (simp add: send_request_def send_def CHECK_def)
  have p1: "peer W1 = Rx_data d # []" "length (response W1) = RESPONSE_SIZE"
    using assms(2,6) by (simp_all add: W1_def)
  from recv_loop_one_chunk [OF p1(1) assms(3,4,5) p1(2), of sock] obtain b where
    "recv_loop sock W1 = recv_loop sock (W1\<lparr>calls := calls W1 @ [Call_recv sock RECV_MAX], peer := [],
       response := b, console := console W1 @ [Con_str d]\<rparr>)"
    by blast
  also have "\<dots> = Inr ((), record_call (Call_recv sock RECV_MAX) (W1\<lparr>calls := calls W1 @ [Call_recv sock RECV_MAX],
       peer := [], response := b, console := console W1 @ [Con_str d]\<rparr>))"
    by (simp add: recv_loop_end)
  finally have rl: "recv_loop sock W1 = \<dots>" .
  show ?thesis
    using sr rl by (simp add: session_def W1_def close_def)
qed

text \<open>The request, a reply, then a failed read: \<open>main\<close> returns without \<open>close\<close>.\<close>

lemma session_recv_error:
  assumes "send_result e \<noteq> -1" "peer w = [Rx_data d, Rx_error]" "d \<noteq> []" "length d \<le> RECV_MAX"
    "CHR 0x00 \<notin> set d" "length (response w) = RESPONSE_SIZE"
  shows "\<exists>w'. session e sock w = (Returned, w') \<and>
    calls w' = calls w @ [Call_send sock REQUEST (SSTRLEN REQUEST), Call_recv sock RECV_MAX, Call_recv sock RECV_MAX] \<and>
    printed (console w') = printed (console w) @ [d] \<and>
    last (console w') = Con_fmt ''Error reading response\<newline>'' []"
proof -
  define W1 where "W1 = print ''Response:\<newline>\<newline>'' [] (record_call (Call_send sock REQUEST (SSTRLEN REQUEST)) w)"
  have sr: "send_request e sock w = Inr ((), record_call (Call_send sock REQUEST (SSTRLEN REQUEST)) w)"
    using assms(1) by (simp add: send_request_def send_def CHECK_def)
  have p1: "peer W1 = Rx_data d # [Rx_error]" "length (response W1) = RESPONSE_SIZE"
    using assms(2,6) by (simp_all add: W1_def)
  from recv_loop_one_chunk [OF p1(1) assms(3,4,5) p1(2), of sock] obtain b where
    "recv_loop sock W1 = recv_loop sock (W1\<lparr>calls := calls W1 @ [Call_recv sock RECV_MAX], peer := [Rx_error],
       response := b, console := console W1 @ [Con_str d]\<rparr>)"
    by blast
  also have "\<dots> = Inl (Returned, print ''Error reading response\<newline>'' []
       ((record_call (Call_recv sock RECV_MAX) (W1\<lparr>calls := calls W1 @ [Call_recv sock RECV_MAX],
          peer := [Rx_error], response := b, console := console W1 @ [Con_str d]\<rparr>))\<lparr>peer := []\<rparr>))"
    by (simp add: recv_loop_error)
  finally have rl: "recv_loop sock W1 = \<dots>" .
  show ?thesis
    using sr rl by (simp add: session_def W1_def)
qed

section \<open>After the wait\<close>

lemma resolve_io:
  "io_view w1 = io_view w2 \<Longrightarrow> io_eq_stage (resolve tls e w1) (resolve tls e w2)"
  by (auto simp: resolve_defs io_view_eq_iff split: list.split)

lemma session_io:
  assumes "io_view w1 = io_view w2"
  shows "fst (session e sock w1) = fst (session e sock w2) \<and>
         io_view (snd (session e sock w1)) = io_view (snd (session e sock w2))"
  using send_request_io [OF assms, of e sock]
proof (cases rule: io_eq_stageE)
  case (Inl r w w')
  then show ?thesis by (simp add: session_def)
next
  case (Inr v v1 v2)
  then have "io_view (print ''Response:\<newline>\<newline>'' [] v1) = io_view (print ''Response:\<newline>\<newline>'' [] v2)" by simp
  from recv_loop_io [OF this, of sock] show ?thesis
  proof (cases rule: io_eq_stageE)
    case (Inl r w w')
    with Inr show ?thesis by (simp add: session_def)
  next
    case (Inr u x x')
    with \<open>send_request e sock w1 = Inr (v, v1)\<close> \<open>send_request e sock w2 = Inr (v, v2)\<close> show ?thesis
      by (simp add: session_def close_def io_view_eq_iff)
  qed
qed

lemma main_tail_io:
  assumes "io_view w1 = io_view w2"
  shows "fst (main_tail tls e w1) = fst (main_tail tls e w2) \<and>
         io_view (snd (main_tail tls e w1)) = io_view (snd (main_tail tls e w2))"
  using resolve_io [OF assms, of tls e]
proof (cases rule: io_eq_stageE)
  case (Inl r w w')
  then show ?thesis by (simp add: main_tail_def)
next
  case (Inr res v1 v2)
  from open_connection_io [OF Inr(3), of tls e res] show ?thesis
  proof (cases rule: io_eq_stageE)
    case (Inl r w w')
    with Inr show ?thesis by (simp add: main_tail_def)
  next
    case (Inr sock x x')
    with \<open>resolve tls e w1 = Inr (res, v1)\<close> \<open>resolve tls e w2 = Inr (res, v2)\<close> show ?thesis
      using session_io [OF Inr(3), of e sock] by (simp add: main_tail_def)
  qed
qed

section \<open>Well-formedness\<close>

lemma stage_world_wf:
  assumes "world_wf w"
  shows "world_wf (stage_world (resolve tls e w))"
    and "world_wf (stage_world (open_connection tls e res w))"
    and "world_wf (stage_world (send_request e sock w))"
  using assms
  by (auto simp: world_wf_def resolve_defs connection_defs send_request_def send_def CHECK_def
      split: list.split; cases tls; simp add: connection_defs tls_option_names)+

lemma main_tail_world_wf:
  assumes "world_wf w"
  shows "world_wf (snd (main_tail tls e w))"
proof (cases "resolve tls e w")
  case (Inl a)
  then show ?thesis using stage_world_wf(1) [OF assms, of tls e] by (cases a) (simp add: main_tail_def)
next
  case (Inr a)
  then obtain res w1 where r: "resolve tls e w = Inr (res, w1)" by (cases a) auto
  have wf1: "world_wf w1" using stage_world_wf(1) [OF assms, of tls e] r by simp
  show ?thesis
  proof (cases "open_connection tls e res w1")
    case (Inl b)
    then show ?thesis using r stage_world_wf(2) [OF wf1, of tls e res] by (cases b) (simp add: main_tail_def)
  next
    case (Inr b)
    then obtain sock w2 where oc: "open_connection tls e res w1 = Inr (sock, w2)" by (cases b) auto
    have wf2: "world_wf w2" using stage_world_wf(2) [OF wf1, of tls e res] oc by simp
    show ?thesis
    proof (cases "send_request e sock w2")
      case (Inl c)
      then show ?thesis using r oc stage_world_wf(3) [OF wf2, of e sock]
        by (cases c) (simp add: main_tail_def session_def)
    next
      case (Inr c)
      then obtain w3 where sr: "send_request e sock w2 = Inr ((), w3)" by (cases c) auto
      have wf3: "world_wf (print ''Response:\<newline>\<newline>'' [] w3)"
        using stage_world_wf(3) [OF wf2, of e sock] sr by (simp add: world_wf_def)
      show ?thesis
        using recv_loop_world_wf [OF wf3, of sock] r oc sr
        by (auto simp: main_tail_def session_def world_wf_def close_def split: sum.split)
    qed
  qed
qed

text \<open>
  C22. Once past the readiness wait, \<open>main\<close> never looks at the flag again:
  events delivered after the wait, an interface-down event included, change
  neither how \<open>main\<close> ends nor any call it makes.
\<close>

theorem main_tail_ignores_events:
  "fst (main_tail tls e (deliver_events evs w)) = fst (main_tail tls e w) \<and>
   calls (snd (main_tail tls e (deliver_events evs w))) = calls (snd (main_tail tls e w))"
  using main_tail_io [of "deliver_events evs w" w tls e] by (simp add: io_view_eq_iff)

end
