(* ===== verification/Concurrency.thy ===== *)
theory Concurrency
  imports Main_Run
begin

text \<open>
  The interleaving of \<open>main\<close> with the network stack's event context. The
  handlers of \<open>http_get.c\<close> run on the \<open>net_mgmt\<close> thread, whenever the stack
  raises an event, while \<open>main\<close> runs its own steps; the flag
  \<open>is_network_ready\<close> is the state they share. \<open>main_step\<close> is \<open>main\<close> as a
  small-step relation: one registration per table row, the modem reset and the
  test of its result, each test of the flag, each message and each sleep of the
  wait, and the rest of \<open>main\<close> after the wait in one step (which
  \<^theory_text>\<open>Main_Run\<close> shows depends on the I/O view of the state only). \<open>sys_step\<close>
  adds the event context: at any point, any event is delivered to the callbacks
  registered so far, each handler running to completion. The sequential model of
  \<^theory_text>\<open>Main_Run\<close>, in which events arrive only during the modem reset and the
  sleeps, is one schedule of this system.
\<close>

section \<open>The step relation\<close>

text \<open>Where \<open>main\<close> is: its program counter.\<close>

datatype main_pc =
    Pc_setup nat      \<comment> \<open>\<open>setup_iface_events\<close>, about to look at row \<open>i\<close>\<close>
  | Pc_reset          \<comment> \<open>about to call \<open>mdm_hl7800_reset\<close>\<close>
  | Pc_check c_int    \<comment> \<open>\<open>st\<close> returned, about to test \<open>st != 0\<close>\<close>
  | Pc_test           \<comment> \<open>about to test \<open>!is_network_ready\<close>\<close>
  | Pc_print          \<comment> \<open>about to print the waiting message\<close>
  | Pc_sleep          \<comment> \<open>about to sleep\<close>
  | Pc_tail           \<comment> \<open>past the wait\<close>
  | Pc_done outcome   \<comment> \<open>\<open>main\<close> has ended\<close>

type_synonym sys = "main_pc \<times> world"

inductive main_step :: "bool \<Rightarrow> env \<Rightarrow> sys \<Rightarrow> sys \<Rightarrow> bool" for tls :: bool and e :: env where
  setup_row:
    "i < length iface_events \<Longrightarrow> me_event (iface_events ! i) \<noteq> 0 \<Longrightarrow> me_handler (iface_events ! i) = Some h \<Longrightarrow>
     main_step tls e (Pc_setup i, w)
       (Pc_setup (Suc i),
        net_mgmt_add_event_callback (net_mgmt_init_event_callback h (me_event (iface_events ! i))) w)"
| setup_null:
    "i < length iface_events \<Longrightarrow> me_event (iface_events ! i) \<noteq> 0 \<Longrightarrow> me_handler (iface_events ! i) = None \<Longrightarrow>
     main_step tls e (Pc_setup i, w) (Pc_done (Fault (Setup_fault Null_handler)), w)"
| setup_overrun:
    "\<not> i < length iface_events \<Longrightarrow>
     main_step tls e (Pc_setup i, w) (Pc_done (Fault (Setup_fault Array_overrun)), w)"
| setup_end:
    "i < length iface_events \<Longrightarrow> me_event (iface_events ! i) = 0 \<Longrightarrow>
     main_step tls e (Pc_setup i, w) (Pc_reset, w)"
| reset:
    "main_step tls e (Pc_reset, w) (Pc_check (fst (mdm_hl7800_reset e w)), snd (mdm_hl7800_reset e w))"
| reset_err:
    "st \<noteq> 0 \<Longrightarrow> main_step tls e (Pc_check st, w) (Pc_done Returned, print ''modem init err: %d\<newline>'' [st] w)"
| reset_ok:
    "main_step tls e (Pc_check 0, w) (Pc_test, w)"
| test_ready:
    "is_network_ready w \<Longrightarrow> main_step tls e (Pc_test, w) (Pc_tail, w)"
| test_wait:
    "\<not> is_network_ready w \<Longrightarrow> main_step tls e (Pc_test, w) (Pc_print, w)"
| print_wait:
    "main_step tls e (Pc_print, w) (Pc_sleep, print ''Waiting for network to be ready...\<newline>'' [] w)"
| sleep:
    "main_step tls e (Pc_sleep, w) (Pc_test, k_sleep WAIT_SECONDS w)"
| tail:
    "main_step tls e (Pc_tail, w) (Pc_done (fst (main_tail tls e w)), snd (main_tail tls e w))"

text \<open>The system: a step of \<open>main\<close>, or an event delivered by the \<open>net_mgmt\<close> thread.\<close>

inductive sys_step :: "bool \<Rightarrow> env \<Rightarrow> sys \<Rightarrow> sys \<Rightarrow> bool" for tls :: bool and e :: env where
  main: "main_step tls e s s' \<Longrightarrow> sys_step tls e s s'"
| event: "sys_step tls e (pc, w) (pc, net_mgmt_event_notify ev w)"

code_pred main_step .

code_pred sys_step .

definition sys_init :: "env \<Rightarrow> sys" where
  "sys_init e = (Pc_setup 0, world0 e)"

text \<open>The trace while \<open>main\<close> waits: the modem reset and one sleep per clear test.\<close>

definition waiting_trace :: "call list \<Rightarrow> bool" where
  "waiting_trace cs \<longleftrightarrow> cs = Call_mdm_reset # replicate (length cs - 1) (Call_k_sleep WAIT_SECONDS)"

text \<open>
  The invariant of the reachable states: the state is well formed; during
  registration the callbacks are those of the rows done so far and nothing has
  been called; from the modem reset on, all three callbacks are registered; and
  until \<open>main\<close> is past the wait it has called nothing but the reset and sleeps.
\<close>

definition sys_inv :: "sys \<Rightarrow> bool" where
  "sys_inv s =
     (case s of (pc, w) \<Rightarrow>
        world_wf w \<and>
        (case pc of
           Pc_setup i \<Rightarrow> i \<le> 3 \<and> event_callbacks w = drop (3 - i) iface_callbacks \<and> calls w = []
         | Pc_reset \<Rightarrow> event_callbacks w = iface_callbacks \<and> calls w = []
         | Pc_done r \<Rightarrow> True
         | _ \<Rightarrow> event_callbacks w = iface_callbacks \<and> waiting_trace (calls w)))"

section \<open>Rules\<close>

inductive_cases main_step_setupE: "main_step tls e (Pc_setup i, w) s'"
inductive_cases main_step_resetE: "main_step tls e (Pc_reset, w) s'"
inductive_cases main_step_checkE: "main_step tls e (Pc_check st, w) s'"
inductive_cases main_step_testE: "main_step tls e (Pc_test, w) s'"
inductive_cases main_step_printE: "main_step tls e (Pc_print, w) s'"
inductive_cases main_step_sleepE: "main_step tls e (Pc_sleep, w) s'"
inductive_cases main_step_tailE: "main_step tls e (Pc_tail, w) s'"
inductive_cases main_step_doneE: "main_step tls e (Pc_done r, w) s'"
inductive_cases main_step_to_tailE: "main_step tls e s (Pc_tail, w')"

lemmas main_step_elims =
  main_step_setupE main_step_resetE main_step_checkE main_step_testE main_step_printE
  main_step_sleepE main_step_tailE main_step_doneE

lemma iface_events_rows:
  "length iface_events = 4"
  "i < 3 \<Longrightarrow> me_event (iface_events ! i) \<noteq> 0"
  "i < 3 \<Longrightarrow> me_handler (iface_events ! i) \<noteq> None"
  "me_event (iface_events ! 3) = 0"
  by (auto simp: iface_events_def less_Suc_eq numeral_3_eq_3)

lemma setup_row_callbacks:
  assumes "i < 3" "me_handler (iface_events ! i) = Some h"
  shows "net_mgmt_init_event_callback h (me_event (iface_events ! i)) # drop (3 - i) iface_callbacks =
         drop (3 - Suc i) iface_callbacks"
  using assms
  by (auto simp: iface_events_def iface_callbacks_def net_mgmt_init_event_callback_def
      less_Suc_eq numeral_3_eq_3)

lemma world_wf_print [simp]: "world_wf (print f a w) = world_wf w"
  by (simp add: world_wf_def)

lemma world_wf_record_call [simp]: "world_wf (record_call c w) = world_wf w"
  by (simp add: world_wf_def)

lemma notify_calls [simp]: "calls (net_mgmt_event_notify ev w) = calls w"
  by (simp add: net_mgmt_event_notify_def)

lemma world_wf_notify:
  "world_wf w \<Longrightarrow> world_wf (net_mgmt_event_notify ev w)"
  using run_callbacks_world_fields(2) [of ev "event_callbacks w" w]
  by (simp add: world_wf_def net_mgmt_event_notify_def)

lemma waiting_trace_iff:
  "waiting_trace cs \<longleftrightarrow> (\<exists>n. cs = Call_mdm_reset # replicate n (Call_k_sleep WAIT_SECONDS))"
  by (auto simp: waiting_trace_def)

lemma waiting_trace_sleep:
  "waiting_trace cs \<Longrightarrow> waiting_trace (cs @ [Call_k_sleep WAIT_SECONDS])"
  by (auto simp: waiting_trace_iff replicate_append_same intro: exI [of _ "Suc n" for n])

lemma waiting_trace_no_io:
  "waiting_trace cs \<Longrightarrow> \<not> (\<exists>c\<in>set cs. is_io_call c)"
  by (auto simp: waiting_trace_iff is_io_call_def)

lemma iface_callbacks_wf: "list_all cb_wf (drop n iface_callbacks)"
proof -
  have "list_all cb_wf iface_callbacks"
    by (simp add: iface_callbacks_def cb_wf_def)
  then show ?thesis
    by (auto simp: list_all_iff dest: in_set_dropD)
qed

section \<open>The invariant\<close>

lemma main_step_inv:
  assumes "main_step tls e s s'" and "sys_inv s"
  shows "sys_inv s'"
  using assms
proof (induction rule: main_step.induct)
  case (setup_row i h w)
  then have "i < 3" using iface_events_rows(1,4) by (cases "i = 3") (auto simp: sys_inv_def)
  with setup_row show ?case
    using setup_row_callbacks [of i h]
    by (auto simp: sys_inv_def world_wf_def net_mgmt_add_event_callback_def iface_callbacks_wf)
next
  case (setup_end i w)
  then have "i = 3" using iface_events_rows(2) by (cases "i < 3") (auto simp: sys_inv_def)
  with setup_end show ?case by (simp add: sys_inv_def)
next
  case (reset w)
  then show ?case by (simp add: sys_inv_def mdm_hl7800_reset_def waiting_trace_def)
next
  case (sleep w)
  then show ?case by (simp add: sys_inv_def k_sleep_def waiting_trace_sleep)
next
  case (tail w)
  then show ?case by (simp add: sys_inv_def main_tail_world_wf)
qed (simp_all add: sys_inv_def)

lemma sys_step_inv:
  assumes "sys_step tls e s s'" and "sys_inv s"
  shows "sys_inv s'"
  using assms
proof (cases rule: sys_step.cases)
  case main
  then show ?thesis using assms(2) by (rule main_step_inv)
next
  case (event pc w ev)
  then show ?thesis using assms(2) world_wf_notify [of w ev]
    by (auto simp: sys_inv_def net_mgmt_event_notify_def split: main_pc.splits)
qed

lemma reachable_inv:
  "(sys_step tls e)\<^sup>*\<^sup>* (sys_init e) s \<Longrightarrow> sys_inv s"
proof (induction rule: rtranclp_induct)
  case base
  then show ?case by (simp add: sys_init_def sys_inv_def world_wf_def world0_def iface_callbacks_def)
next
  case (step s s')
  from step.hyps(2) step.IH show ?case by (rule sys_step_inv)
qed

lemma registered_inv: "event_callbacks w = iface_callbacks \<Longrightarrow> net_ready_inv w"
  by (simp add: net_ready_inv_def iface_callbacks_def cb_wf_def)

section \<open>Runs of the system\<close>

lemma main_reach: "main_step tls e s s' \<Longrightarrow> (sys_step tls e)\<^sup>*\<^sup>* s s'"
  by (rule r_into_rtranclp, rule sys_step.main)

lemma events_reach: "(sys_step tls e)\<^sup>*\<^sup>* (pc, w) (pc, deliver_events evs w)"
proof (induction evs arbitrary: w)
  case Nil
  then show ?case by simp
next
  case (Cons ev evs)
  have "sys_step tls e (pc, w) (pc, net_mgmt_event_notify ev w)" by (rule sys_step.event)
  with Cons.IH [of "net_mgmt_event_notify ev w"] show ?case
    by (simp add: deliver_events_def converse_rtranclp_into_rtranclp)
qed

text \<open>Registration, one row per step, ends where \<open>setup_loop\<close> ends.\<close>

lemma setup_loop_steps:
  "setup_loop tbl i w = Inr w' \<Longrightarrow> tbl = iface_events \<Longrightarrow> (main_step tls e)\<^sup>*\<^sup>* (Pc_setup i, w) (Pc_reset, w')"
proof (induction tbl i w rule: setup_loop.induct)
  case (1 tbl i w)
  show ?case
  proof (cases "i < length tbl \<and> me_event (tbl ! i) \<noteq> 0")
    case False
    with "1.prems" have "i < length tbl" "me_event (tbl ! i) = 0" "w' = w"
      by (subst (asm) setup_loop.simps; auto split: if_splits)+
    with "1.prems"(2) show ?thesis by (auto intro: main_step.setup_end)
  next
    case True
    with "1.prems"(1) obtain h where h: "me_handler (tbl ! i) = Some h"
      by (subst (asm) setup_loop.simps) (auto split: option.splits)
    let ?w1 = "net_mgmt_add_event_callback (net_mgmt_init_event_callback h (me_event (tbl ! i))) w"
    have "setup_loop tbl (Suc i) ?w1 = Inr w'"
      using "1.prems"(1) True h by (subst (asm) setup_loop.simps) simp
    then have rest: "(main_step tls e)\<^sup>*\<^sup>* (Pc_setup (Suc i), ?w1) (Pc_reset, w')"
      using "1.IH" True h "1.prems"(2) by blast
    have "main_step tls e (Pc_setup i, w) (Pc_setup (Suc i), ?w1)"
      using True h "1.prems"(2) by (auto intro: main_step.setup_row)
    from this rest show ?thesis by (rule converse_rtranclp_into_rtranclp)
  qed
qed

lemma mono_main_sys: "(main_step tls e)\<^sup>*\<^sup>* s s' \<Longrightarrow> (sys_step tls e)\<^sup>*\<^sup>* s s'"
  by (induction rule: rtranclp_induct) (auto intro: rtranclp.rtrancl_into_rtrancl sys_step.main)

text \<open>The prologue: registration, the reset, the events raised during it.\<close>

lemma prologue_reach:
  "(sys_step tls e)\<^sup>*\<^sup>* (sys_init e) (Pc_check (mdm_reset_result e), wait_start e)"
proof -
  let ?w0 = "(world0 e)\<lparr>event_callbacks := iface_callbacks\<rparr>"
  have "setup_loop iface_events 0 (world0 e) = Inr ?w0"
    using setup_iface_events_result [of "world0 e"] by (simp add: setup_iface_events_def world0_def)
  then have a: "(sys_step tls e)\<^sup>*\<^sup>* (sys_init e) (Pc_reset, ?w0)"
    unfolding sys_init_def by (blast intro: mono_main_sys setup_loop_steps)
  have "main_step tls e (Pc_reset, ?w0) (Pc_check (mdm_reset_result e), record_call Call_mdm_reset ?w0)"
    using main_step.reset [of tls e ?w0] by (simp add: mdm_hl7800_reset_def)
  then have b: "(sys_step tls e)\<^sup>*\<^sup>* (Pc_reset, ?w0) (Pc_check (mdm_reset_result e), record_call Call_mdm_reset ?w0)"
    by (rule main_reach)
  have c: "(sys_step tls e)\<^sup>*\<^sup>* (Pc_check (mdm_reset_result e), record_call Call_mdm_reset ?w0)
             (Pc_check (mdm_reset_result e), wait_start e)"
    unfolding wait_start_def by (rule events_reach)
  from a b c show ?thesis by (meson rtranclp_trans)
qed

text \<open>One clear test of the flag, the message, the sleep and the events meanwhile.\<close>

lemma wait_body_reach:
  assumes "\<not> is_network_ready w"
  shows "(sys_step tls e)\<^sup>*\<^sup>* (Pc_test, w) (Pc_test, wait_body e n w)"
proof -
  let ?w1 = "print ''Waiting for network to be ready...\<newline>'' [] w"
  have "(main_step tls e)\<^sup>*\<^sup>* (Pc_test, w) (Pc_test, k_sleep WAIT_SECONDS ?w1)"
    using main_step.test_wait [OF assms] main_step.print_wait [of tls e w] main_step.sleep [of tls e ?w1]
    by (meson converse_rtranclp_into_rtranclp r_into_rtranclp)
  then have "(sys_step tls e)\<^sup>*\<^sup>* (Pc_test, w) (Pc_test, k_sleep WAIT_SECONDS ?w1)"
    by (rule mono_main_sys)
  with events_reach [of tls e Pc_test "k_sleep WAIT_SECONDS ?w1" "net_events e (Suc n)"] show ?thesis
    unfolding wait_body_def by (meson rtranclp_trans)
qed

lemma polls_reach:
  "(\<forall>j<k. \<not> is_network_ready (polls e n w j)) \<Longrightarrow> (sys_step tls e)\<^sup>*\<^sup>* (Pc_test, w) (Pc_test, polls e n w k)"
proof (induction k arbitrary: n w)
  case 0
  then show ?case by simp
next
  case (Suc k)
  then have "\<not> is_network_ready w" by (metis polls.simps(1) zero_less_Suc)
  then have a: "(sys_step tls e)\<^sup>*\<^sup>* (Pc_test, w) (Pc_test, wait_body e n w)" by (rule wait_body_reach)
  have "\<forall>j<k. \<not> is_network_ready (polls e (Suc n) (wait_body e n w) j)"
    using Suc.prems by (metis Suc_mono polls.simps(2))
  with Suc.IH a show ?case by (simp add: rtranclp_trans)
qed

lemma wait_loop_reach:
  assumes "wait_loop e n w = Some w'"
  shows "(sys_step tls e)\<^sup>*\<^sup>* (Pc_test, w) (Pc_tail, w')"
proof -
  from wait_loop_Some_polls [OF assms] obtain k where
    k: "w' = polls e n w k" "is_network_ready w'" "\<forall>j<k. \<not> is_network_ready (polls e n w j)"
    by blast
  from polls_reach [OF k(3)] k(1) have "(sys_step tls e)\<^sup>*\<^sup>* (Pc_test, w) (Pc_test, w')" by simp
  moreover have "sys_step tls e (Pc_test, w') (Pc_tail, w')"
    using k(2) by (blast intro: sys_step.main main_step.test_ready)
  ultimately show ?thesis by (rule rtranclp.rtrancl_into_rtrancl)
qed

lemma inv_no_io:
  "sys_inv (pc, w) \<Longrightarrow> (\<forall>r. pc \<noteq> Pc_done r) \<Longrightarrow> \<not> (\<exists>c\<in>set (calls w). is_io_call c)"
  by (cases pc) (auto simp: sys_inv_def dest: waiting_trace_no_io)

lemma main_tail_calls_prefix:
  "world_wf w \<Longrightarrow> \<exists>zs. calls (snd (main_tail tls e w)) = calls w @ zs"
  using main_tail_shape [of w tls e "fst (main_tail tls e w)" "snd (main_tail tls e w)"]
  by (auto simp: world_wf_def)

lemma quiet_start_reach:
  "mdm_reset_result e = 0 \<Longrightarrow> (sys_step tls e)\<^sup>*\<^sup>* (sys_init e) (Pc_test, wait_start e)"
  using prologue_reach [of tls e] main_reach [OF main_step.reset_ok [of tls e "wait_start e"]]
  by (simp add: rtranclp_trans)

text \<open>Before the tail, a step of \<open>main\<close> calls at most the modem reset or a sleep.\<close>

lemma main_step_pre_tail_calls:
  "main_step tls e (pc, w) (pc', w') \<Longrightarrow> pc \<noteq> Pc_tail \<Longrightarrow>
   set (calls w') \<subseteq> set (calls w) \<union> {Call_mdm_reset, Call_k_sleep WAIT_SECONDS}"
  by (induction "(pc, w)" "(pc', w')" rule: main_step.induct)
     (auto simp: net_mgmt_add_event_callback_def mdm_hl7800_reset_def k_sleep_def)

section \<open>Properties of the interleaving\<close>

text \<open>
  C23. Every state the concurrent system reaches is well formed (the response
  buffer keeps its 1024 bytes and every registered callback is one of the
  sample's handlers with its own event); from the readiness wait on, the readiness
  invariant of the bus holds; and until \<open>main\<close> has ended, no call other than
  the modem reset and the sleeps has been made, whatever events arrived when.
\<close>

theorem reachable_states_wf:
  assumes "(sys_step tls e)\<^sup>*\<^sup>* (sys_init e) (pc, w)"
  shows "world_wf w \<and>
         (pc = Pc_test \<or> pc = Pc_print \<or> pc = Pc_sleep \<or> pc = Pc_tail \<longrightarrow> net_ready_inv w) \<and>
         ((\<forall>r. pc \<noteq> Pc_done r) \<longrightarrow> \<not> (\<exists>c\<in>set (calls w). is_io_call c))"
proof -
  have inv: "sys_inv (pc, w)" using assms by (rule reachable_inv)
  then have "world_wf w" by (simp add: sys_inv_def)
  moreover have "pc = Pc_test \<or> pc = Pc_print \<or> pc = Pc_sleep \<or> pc = Pc_tail \<longrightarrow> net_ready_inv w"
    using inv by (auto simp: sys_inv_def intro: registered_inv)
  moreover have "(\<forall>r. pc \<noteq> Pc_done r) \<longrightarrow> \<not> (\<exists>c\<in>set (calls w). is_io_call c)"
    using inv inv_no_io by blast
  ultimately show ?thesis by blast
qed

theorem reachable_states_wf_witness:
  "(sys_step False env_quiet)\<^sup>*\<^sup>* (sys_init env_quiet) (Pc_test, wait_start env_quiet) \<and>
   world_wf (wait_start env_quiet) \<and> net_ready_inv (wait_start env_quiet)"
proof -
  have r: "(sys_step False env_quiet)\<^sup>*\<^sup>* (sys_init env_quiet) (Pc_test, wait_start env_quiet)"
    by (rule quiet_start_reach) (simp add: env_quiet_def)
  show ?thesis using r reachable_states_wf [OF r] by simp
qed

text \<open>
  The sequential model is one schedule of the concurrent one: a run of \<open>main\<close>
  in \<^theory_text>\<open>Main_Run\<close>, with the events arriving during the modem reset and the
  sleeps, is a run of the interleaved system that ends in the same state.
\<close>

lemma main_refines_sys:
  assumes "main tls e = Some (r, w')"
  shows "(sys_step tls e)\<^sup>*\<^sup>* (sys_init e) (Pc_done r, w')"
proof (cases "mdm_reset_result e = 0")
  case False
  then have "r = Returned" "w' = print ''modem init err: %d\<newline>'' [mdm_reset_result e] (wait_start e)"
    using assms by (simp_all add: main_cases)
  moreover have "main_step tls e (Pc_check (mdm_reset_result e), wait_start e) (Pc_done Returned, w')"
    using False calculation(2) by (simp add: main_step.reset_err)
  ultimately show ?thesis
    using prologue_reach [of tls e] by (simp add: sys_step.main rtranclp.rtrancl_into_rtrancl)
next
  case True
  with assms obtain w0 where wl: "wait_loop e 0 (wait_start e) = Some w0" and mt: "main_tail tls e w0 = (r, w')"
    by (auto simp: main_cases)
  have "(sys_step tls e)\<^sup>*\<^sup>* (sys_init e) (Pc_tail, w0)"
    using quiet_start_reach [OF True, of tls] wait_loop_reach [OF wl, of tls] by (rule rtranclp_trans)
  moreover have "sys_step tls e (Pc_tail, w0) (Pc_done r, w')"
    using main_step.tail [of tls e w0] mt by (simp add: sys_step.main)
  ultimately show ?thesis by (rule rtranclp.rtrancl_into_rtrancl)
qed

text \<open>
  C24. No wake-up is lost: whenever \<open>main\<close> is in the wait (about to test the
  flag, print or sleep) and a DNS server is added, \<open>main\<close> leaves the wait by its
  own steps, with no further event.
\<close>

theorem dns_event_wakes_main:
  assumes "(sys_step tls e)\<^sup>*\<^sup>* (sys_init e) (pc, w)" and "pc = Pc_test \<or> pc = Pc_print \<or> pc = Pc_sleep"
  shows "\<exists>w'. (main_step tls e)\<^sup>*\<^sup>* (pc, net_mgmt_event_notify NET_EVENT_DNS_SERVER_ADD w) (Pc_tail, w')"
proof -
  have "net_ready_inv w" using reachable_states_wf [OF assms(1)] assms(2) by blast
  then have rdy: "is_network_ready (net_mgmt_event_notify NET_EVENT_DNS_SERVER_ADD w)"
    by (simp add: notify_ready apply_effect_def event_effect_def)
  let ?w = "net_mgmt_event_notify NET_EVENT_DNS_SERVER_ADD w"
  let ?p = "print ''Waiting for network to be ready...\<newline>'' [] ?w"
  have t: "main_step tls e (Pc_test, v) (Pc_tail, v)" if "is_network_ready v" for v
    using that by (rule main_step.test_ready)
  from assms(2) show ?thesis
  proof (elim disjE)
    assume "pc = Pc_test"
    then show ?thesis using t [OF rdy] by blast
  next
    assume "pc = Pc_sleep"
    have "is_network_ready (k_sleep WAIT_SECONDS ?w)" using rdy by (simp add: k_sleep_def)
    with \<open>pc = Pc_sleep\<close> show ?thesis
      using main_step.sleep [of tls e ?w] t by (blast intro: converse_rtranclp_into_rtranclp)
  next
    assume "pc = Pc_print"
    have "is_network_ready (k_sleep WAIT_SECONDS ?p)" using rdy by (simp add: k_sleep_def)
    with \<open>pc = Pc_print\<close> show ?thesis
      using main_step.print_wait [of tls e ?w] main_step.sleep [of tls e ?p] t
      by (blast intro: converse_rtranclp_into_rtranclp)
  qed
qed

theorem dns_event_wakes_main_witness:
  "(sys_step False env_quiet)\<^sup>*\<^sup>* (sys_init env_quiet) (Pc_test, wait_start env_quiet) \<and>
   (\<exists>w'. (main_step False env_quiet)\<^sup>*\<^sup>*
           (Pc_test, net_mgmt_event_notify NET_EVENT_DNS_SERVER_ADD (wait_start env_quiet)) (Pc_tail, w'))"
proof -
  have r: "(sys_step False env_quiet)\<^sup>*\<^sup>* (sys_init env_quiet) (Pc_test, wait_start env_quiet)"
    by (rule quiet_start_reach) (simp add: env_quiet_def)
  show ?thesis using r dns_event_wakes_main [OF r] by simp
qed

text \<open>
  C25. The test of the flag and the connection are not atomic: an
  interface-down event can arrive right after \<open>main\<close> has found the flag set,
  and \<open>main\<close> then goes on to resolve and connect with the flag clear, since it
  never tests the flag again.
\<close>

theorem main_proceeds_after_link_loss:
  "\<exists>w w' r. (sys_step False env_quiet)\<^sup>*\<^sup>* (sys_init env_quiet) (Pc_tail, w) \<and>
     \<not> is_network_ready w \<and> sys_step False env_quiet (Pc_tail, w) (Pc_done r, w') \<and>
     (\<exists>c\<in>set (calls w'). is_io_call c)"
proof -
  let ?w1 = "net_mgmt_event_notify NET_EVENT_DNS_SERVER_ADD (wait_start env_quiet)"
  let ?w2 = "net_mgmt_event_notify NET_EVENT_IF_DOWN ?w1"
  have r0: "(sys_step False env_quiet)\<^sup>*\<^sup>* (sys_init env_quiet) (Pc_test, wait_start env_quiet)"
    by (rule quiet_start_reach) (simp add: env_quiet_def)
  have inv0: "net_ready_inv (wait_start env_quiet)" by (rule wait_start_facts(1))
  have rdy1: "is_network_ready ?w1"
    using inv0 by (simp add: notify_ready apply_effect_def event_effect_def)
  have inv1: "net_ready_inv ?w1" using inv0 by (rule deliver_events_inv [of _ "[NET_EVENT_DNS_SERVER_ADD]", simplified deliver_events_def, simplified])
  have nrdy2: "\<not> is_network_ready ?w2"
    using inv1 by (simp add: notify_ready apply_effect_def event_effect_def)
  have "sys_step False env_quiet (Pc_test, wait_start env_quiet) (Pc_test, ?w1)" by (rule sys_step.event)
  moreover have "sys_step False env_quiet (Pc_test, ?w1) (Pc_tail, ?w1)"
    using rdy1 by (blast intro: sys_step.main main_step.test_ready)
  moreover have "sys_step False env_quiet (Pc_tail, ?w1) (Pc_tail, ?w2)" by (rule sys_step.event)
  ultimately have r2: "(sys_step False env_quiet)\<^sup>*\<^sup>* (sys_init env_quiet) (Pc_tail, ?w2)"
    using r0 by (meson rtranclp.rtrancl_into_rtrancl)
  have st: "sys_step False env_quiet (Pc_tail, ?w2)
              (Pc_done (fst (main_tail False env_quiet ?w2)), snd (main_tail False env_quiet ?w2))"
    by (blast intro: sys_step.main main_step.tail)
  have "calls (stage_world (resolve False env_quiet ?w2)) = calls ?w2 @ resolve_calls False"
    by (rule resolve_trace(1))
  moreover have "calls (snd (main_tail False env_quiet ?w2)) = calls (stage_world (resolve False env_quiet ?w2))"
    by (simp add: main_tail_def resolve_defs env_quiet_def)
  ultimately have "Call_getaddrinfo HTTP_HOST (HTTP_PORT False)
                     (addrinfo_zero\<lparr>ai_family := AF_INET, ai_socktype := SOCK_STREAM\<rparr>)
                   \<in> set (calls (snd (main_tail False env_quiet ?w2)))"
    by (simp add: resolve_calls_def)
  moreover have "is_io_call (Call_getaddrinfo HTTP_HOST (HTTP_PORT False)
                     (addrinfo_zero\<lparr>ai_family := AF_INET, ai_socktype := SOCK_STREAM\<rparr>))"
    by (simp add: is_io_call_def)
  ultimately have "\<exists>c\<in>set (calls (snd (main_tail False env_quiet ?w2))). is_io_call c"
    by blast
  with r2 nrdy2 st show ?thesis by blast
qed

text \<open>
  C26. \<open>main\<close> calls the network only after a test of the flag that found it
  set: every reachable state past the wait, or with a resolver, socket or
  credential call in its trace, is reached from a reachable test that found the
  flag set, through that test's step into the tail; the trace at the test is a
  prefix of the trace now.
\<close>

theorem io_only_after_ready_test:
  assumes "(sys_step tls e)\<^sup>*\<^sup>* (sys_init e) (pc, w)"
    and "pc = Pc_tail \<or> (\<exists>c\<in>set (calls w). is_io_call c)"
  shows "\<exists>wt ys. (sys_step tls e)\<^sup>*\<^sup>* (sys_init e) (Pc_test, wt) \<and> is_network_ready wt \<and>
                main_step tls e (Pc_test, wt) (Pc_tail, wt) \<and> (sys_step tls e)\<^sup>*\<^sup>* (Pc_tail, wt) (pc, w) \<and>
                calls w = calls wt @ ys"
proof -
  have "fst s = Pc_tail \<or> (\<exists>c\<in>set (calls (snd s)). is_io_call c) \<longrightarrow>
        (\<exists>wt ys. (sys_step tls e)\<^sup>*\<^sup>* (sys_init e) (Pc_test, wt) \<and> is_network_ready wt \<and>
                 main_step tls e (Pc_test, wt) (Pc_tail, wt) \<and> (sys_step tls e)\<^sup>*\<^sup>* (Pc_tail, wt) s \<and>
                 calls (snd s) = calls wt @ ys)"
    if "(sys_step tls e)\<^sup>*\<^sup>* (sys_init e) s" for s
    using that
  proof (induction rule: rtranclp_induct)
    case base
    then show ?case by (simp add: sys_init_def world0_def)
  next
    case (step s s')
    have inv: "sys_inv s" using step.hyps(1) by (rule reachable_inv)
    from step.hyps(2) show ?case
    proof (cases rule: sys_step.cases)
      case (event pc w ev)
      then show ?thesis using step.IH step.hyps(2) by (auto intro: rtranclp.rtrancl_into_rtrancl)
    next
      case main
      obtain pc w pc' w' where s: "s = (pc, w)" "s' = (pc', w')" by fastforce
      show ?thesis
      proof (cases "pc = Pc_tail")
        case True
        with main s have w': "pc' = Pc_done (fst (main_tail tls e w))" "w' = snd (main_tail tls e w)"
          by (auto elim: main_step_tailE)
        have "world_wf w" using inv s by (simp add: sys_inv_def)
        from main_tail_calls_prefix [OF this, of tls e] obtain zs where
          "calls (snd (main_tail tls e w)) = calls w @ zs" by blast
        with step.IH s w' True step.hyps(2) show ?thesis by (auto intro: rtranclp.rtrancl_into_rtrancl)
      next
        case False
        show ?thesis
        proof (cases "pc' = Pc_tail")
          case True
          with main s have "pc = Pc_test" "is_network_ready w" "w' = w"
            by (auto elim: main_step_to_tailE)
          with step.hyps(1) s True show ?thesis
            by (intro impI exI [of _ w] exI [of _ "[]"]) (simp add: main_step.test_ready)
        next
          case False
          have "\<forall>r. pc \<noteq> Pc_done r" using main s by (auto elim: main_step_doneE)
          then have "\<not> (\<exists>c\<in>set (calls w). is_io_call c)" using inv s inv_no_io by blast
          moreover have "set (calls w') \<subseteq> set (calls w) \<union> {Call_mdm_reset, Call_k_sleep WAIT_SECONDS}"
            using main s \<open>pc \<noteq> Pc_tail\<close> main_step_pre_tail_calls by blast
          ultimately have "\<not> (\<exists>c\<in>set (calls w'). is_io_call c)"
            by (auto simp: is_io_call_def)
          with s False show ?thesis by simp
        qed
      qed
    qed
  qed
  from this [OF assms(1)] assms(2) show ?thesis by auto
qed

theorem io_only_after_ready_test_witness:
  "(sys_step False env_quiet)\<^sup>*\<^sup>* (sys_init env_quiet)
     (Pc_tail, net_mgmt_event_notify NET_EVENT_DNS_SERVER_ADD (wait_start env_quiet)) \<and>
   (\<exists>wt ys. (sys_step False env_quiet)\<^sup>*\<^sup>* (sys_init env_quiet) (Pc_test, wt) \<and> is_network_ready wt \<and>
      main_step False env_quiet (Pc_test, wt) (Pc_tail, wt) \<and>
      (sys_step False env_quiet)\<^sup>*\<^sup>* (Pc_tail, wt)
        (Pc_tail, net_mgmt_event_notify NET_EVENT_DNS_SERVER_ADD (wait_start env_quiet)) \<and>
      calls (net_mgmt_event_notify NET_EVENT_DNS_SERVER_ADD (wait_start env_quiet)) = calls wt @ ys)"
proof -
  let ?w1 = "net_mgmt_event_notify NET_EVENT_DNS_SERVER_ADD (wait_start env_quiet)"
  have r0: "(sys_step False env_quiet)\<^sup>*\<^sup>* (sys_init env_quiet) (Pc_test, wait_start env_quiet)"
    by (rule quiet_start_reach) (simp add: env_quiet_def)
  have rdy1: "is_network_ready ?w1"
    using wait_start_facts(1) by (simp add: notify_ready apply_effect_def event_effect_def)
  have "sys_step False env_quiet (Pc_test, wait_start env_quiet) (Pc_test, ?w1)" by (rule sys_step.event)
  moreover have "sys_step False env_quiet (Pc_test, ?w1) (Pc_tail, ?w1)"
    using rdy1 by (blast intro: sys_step.main main_step.test_ready)
  ultimately have r: "(sys_step False env_quiet)\<^sup>*\<^sup>* (sys_init env_quiet) (Pc_tail, ?w1)"
    using r0 by (meson rtranclp.rtrancl_into_rtrancl)
  show ?thesis using r io_only_after_ready_test [OF r] by simp
qed

section \<open>Interleaved runs are sequential runs\<close>

text \<open>
  What a reachable state records about how it was reached: before \<open>main\<close>
  ends, the buffer and the peer are untouched; the modem's answer is in the
  program counter; past the modem gate the reset succeeded; and an ended run ended
  either at the modem gate or by the tail from a waiting state.
\<close>

lemma reach_io_facts:
  assumes "(sys_step tls e)\<^sup>*\<^sup>* (sys_init e) s"
  shows "((\<forall>r. fst s \<noteq> Pc_done r) \<longrightarrow>
            response (snd s) = replicate RESPONSE_SIZE (CHR 0x00) \<and> peer (snd s) = peer_data e) \<and>
         (\<forall>st. fst s = Pc_check st \<longrightarrow> st = mdm_reset_result e \<and> calls (snd s) = [Call_mdm_reset]) \<and>
         (fst s = Pc_test \<or> fst s = Pc_print \<or> fst s = Pc_sleep \<or> fst s = Pc_tail \<longrightarrow> mdm_reset_result e = 0) \<and>
         (\<forall>r. fst s = Pc_done r \<longrightarrow>
            (r = Returned \<and> mdm_reset_result e \<noteq> 0 \<and>
             io_view (snd s) = ([Call_mdm_reset], replicate RESPONSE_SIZE (CHR 0x00), peer_data e)) \<or>
            (\<exists>wt. mdm_reset_result e = 0 \<and> waiting_trace (calls wt) \<and>
                  response wt = replicate RESPONSE_SIZE (CHR 0x00) \<and> peer wt = peer_data e \<and>
                  r = fst (main_tail tls e wt) \<and> io_view (snd s) = io_view (snd (main_tail tls e wt))))"
  using assms
proof (induction rule: rtranclp_induct)
  case base
  then show ?case by (simp add: sys_init_def world0_def)
next
  case (step s s')
  have inv: "sys_inv s" using step.hyps(1) by (rule reachable_inv)
  from step.hyps(2) show ?case
  proof (cases rule: sys_step.cases)
    case (event pc w ev)
    have "response (net_mgmt_event_notify ev w) = response w" "peer (net_mgmt_event_notify ev w) = peer w"
      using run_callbacks_world_fields(2,3) [of ev "event_callbacks w" w]
      by (simp_all add: net_mgmt_event_notify_def)
    moreover have "io_view (net_mgmt_event_notify ev w) = io_view w"
      using calculation by (simp add: io_view_eq_iff)
    ultimately show ?thesis using step.IH event by simp
  next
    case main
    then show ?thesis
    proof (cases rule: main_step.cases)
      case (setup_null i w)
      then have "i \<noteq> 3" "i < 4" using iface_events_rows(1,4) by auto
      then have "i < 3" by simp
      with setup_null iface_events_rows(3) show ?thesis by simp
    next
      case (setup_overrun i w)
      with inv iface_events_rows show ?thesis by (auto simp: sys_inv_def)
    next
      case (reset w)
      with step.IH inv show ?thesis by (simp add: mdm_hl7800_reset_def sys_inv_def)
    next
      case (reset_err st w)
      with step.IH inv show ?thesis by (auto simp: io_view_def sys_inv_def waiting_trace_def)
    next
      case (tail w)
      with step.IH inv show ?thesis by (auto simp: sys_inv_def)
    qed (use step.IH in \<open>auto simp: net_mgmt_add_event_callback_def k_sleep_def\<close>)
  qed
qed

text \<open>The schedule with a DNS server added during the \<open>k\<close>-th sleep and no other event.\<close>

lemma ready_by_single_dns:
  "ready_by (e\<lparr>net_events := (\<lambda>j. if j = k then [NET_EVENT_DNS_SERVER_ADD] else [])\<rparr>) j \<longleftrightarrow> k \<le> j"
proof (induction j)
  case 0
  then show ?case by (simp add: ready_by_def readiness_after_def apply_effect_def event_effect_def)
next
  case (Suc j)
  have "[0..<Suc (Suc j)] = [0..<Suc j] @ [Suc j]" by simp
  with Suc show ?case
    by (simp only: ready_by_def map_append concat_append readiness_after_append)
       (auto simp: readiness_after_def apply_effect_def event_effect_def)
qed

text \<open>
  C27. The converse of \<open>main_refines_sys\<close>, up to the order of console lines: whatever the
  timing of events, every run of the interleaved system that ends, ends the way
  the sequential \<open>main\<close> ends for the same platform with some schedule of events.
  The outcome, the calls made, the response buffer and what the peer has left to
  send are the same. The schedule adds a DNS server during the last sleep and
  raises no other event.
\<close>

theorem sys_runs_are_main_runs:
  assumes "(sys_step tls e)\<^sup>*\<^sup>* (sys_init e) (Pc_done r, w)"
  shows "\<exists>f w'. main tls (e\<lparr>net_events := f\<rparr>) = Some (r, w') \<and> io_view w' = io_view w"
proof -
  from reach_io_facts [OF assms] consider
      (gate) "r = Returned" "mdm_reset_result e \<noteq> 0"
        "io_view w = ([Call_mdm_reset], replicate RESPONSE_SIZE (CHR 0x00), peer_data e)"
    | (tail) wt where "mdm_reset_result e = 0" "waiting_trace (calls wt)"
        "response wt = replicate RESPONSE_SIZE (CHR 0x00)" "peer wt = peer_data e"
        "r = fst (main_tail tls e wt)" "io_view w = io_view (snd (main_tail tls e wt))"
    by auto
  then show ?thesis
  proof cases
    case gate
    let ?w' = "print ''modem init err: %d\<newline>'' [mdm_reset_result e] (wait_start e)"
    have "main tls (e\<lparr>net_events := net_events e\<rparr>) = Some (r, ?w')"
      using gate by (simp add: main_cases)
    moreover have "io_view ?w' = io_view w"
      using gate wait_start_facts(2) wait_start_buffer wait_start_more(1) by (simp add: io_view_def)
    ultimately show ?thesis by blast
  next
    case tail
    let ?k = "length (calls wt) - 1"
    let ?e = "e\<lparr>net_events := (\<lambda>j. if j = ?k then [NET_EVENT_DNS_SERVER_ADD] else [])\<rparr>"
    let ?p = "polls ?e 0 (wait_start ?e) ?k"
    have least: "(LEAST j. ready_by ?e j) = ?k"
      by (rule Least_equality) (simp_all add: ready_by_single_dns)
    have "wait_loop ?e 0 (wait_start ?e) = Some ?p"
      using wait_loop_ready_by [of ?e ?k] least by (simp add: ready_by_single_dns)
    then have m: "main tls ?e = Some (main_tail tls e ?p)"
      using tail(1) by (simp add: main_cases main_tail_net_events)
    have "calls wt = Call_mdm_reset # replicate ?k (Call_k_sleep WAIT_SECONDS)"
      using tail(2) by (simp add: waiting_trace_def)
    then have "io_view ?p = io_view wt"
      using tail(3,4) polls_calls polls_response polls_peer wait_start_facts(2) wait_start_buffer
        wait_start_more(1) by (simp add: io_view_def)
    obtain r' w' where mt: "main_tail tls e ?p = (r', w')" by fastforce
    from main_tail_io [OF \<open>io_view ?p = io_view wt\<close>, of tls e] tail(5,6) mt
    have "r' = r" "io_view w' = io_view w" by simp_all
    with m mt show ?thesis
      by (intro exI [of _ "\<lambda>j. if j = ?k then [NET_EVENT_DNS_SERVER_ADD] else []"] exI [of _ w']) simp
  qed
qed

theorem sys_runs_are_main_runs_witness:
  "(sys_step False (env_quiet\<lparr>mdm_reset_result := 1\<rparr>))\<^sup>*\<^sup>* (sys_init (env_quiet\<lparr>mdm_reset_result := 1\<rparr>))
     (Pc_done Returned, print ''modem init err: %d\<newline>'' [1] (wait_start (env_quiet\<lparr>mdm_reset_result := 1\<rparr>))) \<and>
   (\<exists>f w'. main False (env_quiet\<lparr>mdm_reset_result := 1, net_events := f\<rparr>) = Some (Returned, w') \<and>
      io_view w' = io_view (print ''modem init err: %d\<newline>'' [1] (wait_start (env_quiet\<lparr>mdm_reset_result := 1\<rparr>))))"
proof -
  let ?e = "env_quiet\<lparr>mdm_reset_result := 1\<rparr>"
  have "main_step False ?e (Pc_check 1, wait_start ?e)
          (Pc_done Returned, print ''modem init err: %d\<newline>'' [1] (wait_start ?e))"
    by (rule main_step.reset_err) simp
  then have r: "(sys_step False ?e)\<^sup>*\<^sup>* (sys_init ?e)
     (Pc_done Returned, print ''modem init err: %d\<newline>'' [1] (wait_start ?e))"
    using prologue_reach [of False ?e] by (simp add: sys_step.main rtranclp.rtrancl_into_rtrancl)
  show ?thesis using r sys_runs_are_main_runs [OF r] by simp
qed

end
