(* ===== verification/Spec2Isabelle.thy ===== *)
theory Spec2Isabelle
  imports Concurrency
begin

text \<open>
  \<^bold>\<open>A verification model of the Zephyr sample \<open>samples/net/sockets/http_get\<close>.\<close>
  The program is the one file \<open>src/samples/net/sockets/http_get/src/http_get.c\<close>.
  \<open>main\<close> does the following, in order:
  \<^item> it registers three \<open>net_mgmt\<close> event callbacks;
  \<^item> it resets the HL7800 modem;
  \<^item> it polls a global readiness flag, which those callbacks write, sleeping 5 s
    between polls;
  \<^item> it installs a CA certificate (TLS build only);
  \<^item> it resolves \<open>google.com\<close>;
  \<^item> it opens a socket (TCP or TLS), sends one fixed HTTP/1.0 GET request,
    prints the response chunk by chunk and closes the socket.

  \<^medskip>\<^bold>\<open>Theories and their correspondence to the code.\<close>
  \<^descr>[\<^theory_text>\<open>Prelude\<close>] The console: \<open>printf\<close> and \<open>printk\<close> are the one
    function \<open>print\<close>, which appends the format string and its integer arguments to
    the list \<open>console\<close>. \<open>print_str\<close> is \<open>printf("%s", buf)\<close>, which prints up to the
    first NUL (\<open>c_string\<close>). \<open>printed\<close> is the text of the console with the numbers
    left out. The theory also holds the order-of-events predicate \<open>precedes\<close>.
  \<^descr>[\<^theory_text>\<open>Net_Events\<close>] The readiness tracker and the event subscriber,
    lines 52--107. These are:
    \<^item> the flag \<open>is_network_ready\<close>, a field of the record \<open>net_state\<close>;
    \<^item> the handlers \<open>iface_dns_added_evt_handler\<close>, \<open>iface_up_evt_handler\<close> and
      \<open>iface_down_evt_handler\<close>, each with its early return;
    \<^item> the table \<open>iface_events\<close>, including its \<open>{0}\<close> sentinel;
    \<^item> the registration loop \<open>setup_loop\<close>/\<open>setup_iface_events\<close>.

    Zephyr's \<open>net_mgmt\<close> library is not part of the sample. It is modelled from
    its interface:
    \<^item> event codes with the bit layout of \<open>net_mgmt.h\<close>, as 32-bit words;
    \<^item> \<open>net_mgmt_init_event_callback\<close> and \<open>net_mgmt_add_event_callback\<close>;
    \<^item> delivery \<open>net_mgmt_event_notify\<close>, which runs every callback whose mask
      matches (\<open>mgmt_event_matches\<close>: same layer and layer code, commands sharing
      a bit).

    \<open>setup_spec\<close> is the closed-form specification of the registration
    loop.

    The abstract contract \<open>readiness_after\<close> says the flag is the effect of the
    last DNS-added or interface-down event. Delivery refines it under the
    invariant \<open>net_ready_inv\<close>, which says every registered callback is one of
    the sample's handlers with its own mask, and both state-changing handlers
    are registered.
  \<^descr>[\<^theory_text>\<open>Sockets\<close>] The platform calls:
    \<open>mdm_hl7800_reset\<close>, \<open>k_sleep\<close>, \<open>tls_credential_add\<close>, \<open>getaddrinfo\<close>,
    \<open>socket\<close>, \<open>setsockopt\<close>, \<open>connect\<close>, \<open>send\<close>, \<open>recv\<close> and \<open>close\<close>.
    Each call appends itself to the trace \<open>calls\<close> and takes its result from the
    environment record \<open>env\<close>, so theorems quantify over every answer the
    platform may give. The peer is the list of segments it will send (\<open>rx\<close>);
    \<open>recv\<close> consumes it and writes into the static \<open>response[1024]\<close>. The whole
    state is the record \<open>world\<close>.
  \<^descr>[\<^theory_text>\<open>Wait_Loop\<close>] The loop \<open>while (!is_network_ready)\<close>, lines 133--137.
    Its body is \<open>wait_body\<close>: it prints, sleeps, and delivers the events
    \<open>net_events e (Suc n)\<close> that the stack raises during the \<open>n\<close>-th sleep.
  \<^descr>[\<^theory_text>\<open>Http_Client\<close>] This theory models the following parts of the code:
    \<^item> the request \<open>REQUEST\<close> and \<open>SSTRLEN\<close>;
    \<^item> the macro \<open>CHECK\<close>, as a stage that exits with status 1 when the value is
      \<open>-1\<close>;
    \<^item> \<open>open_connection\<close>, lines 165--184, with the TLS options \<open>tls_options\<close>;
    \<^item> \<open>send_request\<close>, line 185;
    \<^item> the receive loop \<open>recv_loop\<close>, lines 189--203.

    A stage returns \<open>Inl (outcome, state)\<close> when \<open>main\<close> ends there:
    \<^item> \<open>Returned\<close> for a \<open>return\<close>;
    \<^item> \<open>Exited 1\<close> for \<open>exit(1)\<close>;
    \<^item> \<open>Fault\<close> for a memory fault of the C code.

    Otherwise the stage returns \<open>Inr\<close> with the state it continues from. The
    driver's contract is \<open>stream_segments\<close> and \<open>chunks\<close>: the peer's data up to
    the end of the stream, cut into reads of at most 1023 bytes.
  \<^descr>[\<^theory_text>\<open>Main_Run\<close>] \<open>main\<close>, lines 118--208, composed from the stages above:
    \<open>main_prologue\<close>, then \<open>wait_loop\<close>, then \<open>resolve\<close> (lines 139--163, with
    \<open>dump_addrinfo\<close>), \<open>open_connection\<close> and \<open>session\<close>. The build option
    \<open>CONFIG_NET_SOCKETS_SOCKOPT_TLS\<close> is the parameter \<open>tls\<close>.
  \<^descr>[\<^theory_text>\<open>Concurrency\<close>] \<open>main\<close> interleaved with the \<open>net_mgmt\<close>
    thread, which runs the handlers (spec, section 5). \<open>main_step\<close> is \<open>main\<close> as
    a small-step relation over the program counter \<open>main_pc\<close>. It has one step
    for each of the following:
    \<^item> a row of \<open>iface_events\<close>;
    \<^item> the modem reset, and the test of its result;
    \<^item> each test of the flag, each message, and each sleep;
    \<^item> the rest of \<open>main\<close> (\<open>main_tail\<close>).

    \<open>sys_step\<close> adds the event step: at any point, any event is delivered to the
    callbacks registered so far, and each handler runs to completion. A handler
    only writes the flag and the console, and \<open>main\<close> only reads the flag, so
    running each handler to completion loses no behaviour. The tail is a single
    step because \<^theory_text>\<open>Main_Run\<close> proves that it depends only on the calls, the
    buffer and the peer (\<open>io_view\<close>). Events during the tail therefore change
    nothing it does.
  \<^descr>[\<^theory_text>\<open>Spec2Isabelle\<close>] Example environments, and the theorems about whole
    runs of \<open>main\<close>.

  \<^medskip>\<^bold>\<open>What is proved.\<close>
  \<^item> Readiness (\<^theory_text>\<open>Net_Events\<close>): the flag tracks the last relevant event.
  \<^item> Registration: it stops at the sentinel and establishes the invariant.
  \<^item> The handlers' guards make over-delivered events harmless.
  \<^item> The wait loop (\<^theory_text>\<open>Wait_Loop\<close>): its result is exactly the first
    ready poll; it ends whenever some poll is ready, and diverges otherwise.
  \<^item> The receive loop (\<^theory_text>\<open>Http_Client\<close>): it streams NUL-free data
    verbatim in reads of at most 1023 bytes, and never overruns the buffer. It
    truncates a chunk at a NUL.
  \<^item> The call sequences of the connection, with and without TLS, and its
    outcome: it exits exactly when a checked call returned \<open>-1\<close>, so other
    negative results pass \<open>CHECK\<close>.
  \<^item> Whole runs (this theory):
    \<^item> the modem gate;
    \<^item> that no network call is made before the flag is seen set;
    \<^item> the exhaustive list of outcomes;
    \<^item> that \<open>close\<close> is called at most once, and only last;
    \<^item> the end-to-end scenario of one reply served once, with and without TLS;
    \<^item> the defects the code has: short sends taken as full, the credential
      result ignored, the socket leaked on a read error, and a NULL dereference
      on an empty resolver result.

  \<^item> The registration loop is equivalent to \<open>setup_spec\<close> on every table.
  \<^item> After the wait, neither the flag nor any event changes \<open>main\<close>'s
    outcome or calls.
  \<^item> Concurrency (\<^theory_text>\<open>Concurrency\<close>):
    \<^item> an invariant of every reachable state, proved by rule induction
      (\<open>sys_inv\<close>);
    \<^item> every interleaved run that ends is a sequential run for some schedule
      of events, up to the console (the lemma \<open>main_refines_sys\<close> gives the
      other direction, which relates the two models of \<open>main\<close>);
    \<^item> no wake-up is lost;
    \<^item> the network is called only after a test that found the flag set;
    \<^item> the check-then-act race: \<open>main\<close> can go on to the resolver after an
      interface-down event that arrives right after its test.

  \<^medskip>\<^bold>\<open>Loops, bounds and fuel.\<close> No fuel is used.
  \<^item> The readiness wait has no timeout, so \<open>wait_loop\<close> is a
    \<^theory_text>\<open>partial_function (option)\<close>: \<open>None\<close> is the run in which the flag is
    never set. \<open>polls\<close> gives the state at each test, and the theorems say in
    terms of \<open>polls\<close> when the loop returns and what it returns.
  \<^item> \<open>recv_loop\<close> is a total \<^theory_text>\<open>function\<close>. Its termination measure is
    \<open>peer_size\<close>, the peer's remaining bytes plus segments: every positive read
    consumes at least one byte.
  \<^item> \<open>setup_loop\<close> terminates by the table length.
  \<^item> The response buffer keeps its 1024 bytes. A read of \<open>len\<close> bytes writes
    \<open>response[len]\<close>; the model turns a write out of range into the fault
    \<open>Buffer_overflow\<close>, and the theorems show that this fault is never reached.

  \<^medskip>\<^bold>\<open>Not modelled.\<close>
  \<^item> Blocking forever. The peer is a finite list of segments that ends with
    the end of the stream or a read error, and every platform call returns. A
    peer that never closes, or a \<open>connect\<close> or \<open>recv\<close> that never completes,
    would keep \<open>main\<close> in \<open>while (1)\<close> or in the call forever: the code sets
    no deadline (spec, section 5). Such runs are outside the model, and
    theorems about runs that end say nothing about them. Only the readiness
    wait is modelled as possibly endless.
  \<^item> The HL7800 driver, the IP/TLS stack and the DNS resolver, beyond their
    results: they are libraries the sample only calls.
  \<^item> The bytes of the CA certificate and the value \<open>sizeof(ca_certificate)\<close>:
    they come from a generated header that is not in the repository.
  \<^item> The pointer printed by \<open>%p\<close> in \<open>dump_addrinfo\<close>.
  \<^item> The compiled-out \<open>#if 0\<close> loop.
  \<^item> The order of console lines between handler messages and \<open>main\<close>'s own
    messages. The sequential model delivers events only during the modem reset
    and the sleeps, at the end of each; \<^theory_text>\<open>Concurrency\<close> delivers them at
    any point. The two are proved to agree on everything else in both
    directions. Every sequential run is an interleaved run. Every interleaved run
    that ends has the outcome, calls, buffer and peer of a sequential run for some
    schedule of events. Only the interleaving of console lines can differ.
  \<^item> Preemption inside a handler, and inside one of \<open>main\<close>'s steps. The
    flag is a single word that one side writes and the other reads, so the spec
    (section 5) asks only that its reads be atomic.
  \<^item> \<open>getaddrinfo\<close>'s list is never freed by the code. This is recorded, not
    modelled, as there is no allocator in the model.
\<close>

section \<open>Example environments\<close>

text \<open>A network that announces its DNS server while the modem resets.\<close>

definition env_dns :: env where
  "env_dns = env_quiet\<lparr>net_events := (\<lambda>i. if i = 0 then [NET_EVENT_DNS_SERVER_ADD] else [])\<rparr>"

text \<open>
  A resolver that finds one IPv4 address, a socket 3, a peer that answers one
  HTTP response and closes.
\<close>

definition http_reply :: string where
  "http_reply = ''HTTP/1.0 200 OK'' @ CRLF @ CRLF @ ''hello''"

definition ai_local :: addrinfo where
  "ai_local = addrinfo_zero\<lparr>ai_family := AF_INET, ai_socktype := SOCK_STREAM, ai_protocol := 6,
     ai_addr := \<lparr>sa_family = AF_INET, sin_port = 0x901F, sin_addr = 0x0100007F\<rparr>, ai_addrlen := 8\<rparr>"

definition env_http :: env where
  "env_http = env_dns\<lparr>gai_list := [ai_local], socket_result := 3, send_result := 40,
     peer_data := [Rx_data http_reply]\<rparr>"

section \<open>Runs of main\<close>

lemma io_call_not_close: "list_all is_io_call ys \<Longrightarrow> filter is_close ys = []"
  by (induction ys) (auto simp: is_io_call_def is_close_def split: call.splits)

lemma env_dns_run:
  "main tls env_dns = Some (main_tail tls env_dns (wait_start env_dns))"
  "main_tail tls env_dns (wait_start env_dns) = (Fault Null_deref, stage_world (resolve tls env_dns (wait_start env_dns)))"
proof -
  have "is_network_ready (wait_start env_dns)"
    by (simp add: wait_start_facts(4) env_dns_def readiness_after_def apply_effect_def event_effect_def)
  then show "main tls env_dns = Some (main_tail tls env_dns (wait_start env_dns))"
    by (simp add: main_cases env_dns_def env_quiet_def)
  show "main_tail tls env_dns (wait_start env_dns) = (Fault Null_deref, stage_world (resolve tls env_dns (wait_start env_dns)))"
    by (simp add: main_tail_def resolve_defs env_dns_def env_quiet_def)
qed

text \<open>
  C11. The modem gate: when the modem reset fails, \<open>main\<close> prints the error code
  and returns; it has registered its callbacks, but makes no call after the reset:
  no wait, no resolution, no socket.
\<close>

theorem main_modem_failure:
  assumes "mdm_reset_result e \<noteq> 0"
  shows "\<exists>w'. main tls e = Some (Returned, w') \<and> calls w' = [Call_mdm_reset] \<and>
              last (console w') = Con_fmt ''modem init err: %d\<newline>'' [mdm_reset_result e]"
  using assms by (simp add: main_cases wait_start_facts(2))

theorem main_modem_failure_witness:
  "mdm_reset_result (env_quiet\<lparr>mdm_reset_result := -5\<rparr>) \<noteq> 0 \<and>
   (\<exists>w'. main False (env_quiet\<lparr>mdm_reset_result := -5\<rparr>) = Some (Returned, w') \<and> calls w' = [Call_mdm_reset])"
  using main_modem_failure [of "env_quiet\<lparr>mdm_reset_result := -5\<rparr>" False] by auto

text \<open>
  C12. The readiness gate: in every run that gets past the modem, the trace starts
  with the modem reset and one sleep for each test of the flag that found it
  clear; the events raised up to the last of these sleeps make the readiness
  contract true, those up to every earlier one false; and nothing but the
  resolver, socket and \<open>close\<close> calls follows. The resolver is never called before
  the network is ready.
\<close>

theorem main_waits_for_readiness:
  assumes "main tls e = Some (r, w')" and "mdm_reset_result e = 0"
  shows "\<exists>k ys. ready_by e k \<and> (\<forall>j<k. \<not> ready_by e j) \<and>
                calls w' = Call_mdm_reset # replicate k (Call_k_sleep WAIT_SECONDS) @ ys \<and>
                list_all (\<lambda>c. is_io_call c \<or> is_close c) ys"
proof -
  from main_run_shape [OF assms(1)] assms(2) obtain k ys where
    "ready_by e k" "\<forall>j<k. \<not> ready_by e j" "list_all is_io_call ys"
    "calls w' = Call_mdm_reset # replicate k (Call_k_sleep WAIT_SECONDS) @ ys \<or>
     calls w' = Call_mdm_reset # replicate k (Call_k_sleep WAIT_SECONDS) @ ys @ [Call_close (socket_result e)]"
    by blast
  then show ?thesis
    by (auto simp: list_all_iff is_close_def intro!: exI [of _ k])
qed

theorem main_waits_for_readiness_witness:
  "\<exists>r w'. main False env_dns = Some (r, w') \<and> mdm_reset_result env_dns = 0 \<and>
     (\<exists>k ys. ready_by env_dns k \<and> (\<forall>j<k. \<not> ready_by env_dns j) \<and>
            calls w' = Call_mdm_reset # replicate k (Call_k_sleep WAIT_SECONDS) @ ys \<and>
            list_all (\<lambda>c. is_io_call c \<or> is_close c) ys)"
proof -
  have m: "mdm_reset_result env_dns = 0" by (simp add: env_dns_def env_quiet_def)
  obtain r w' where run: "main False env_dns = Some (r, w')"
    using env_dns_run(1) [of False] by (cases "main_tail False env_dns (wait_start env_dns)") auto
  show ?thesis
    using main_waits_for_readiness [OF run m] run m by blast
qed

text \<open>
  C13. The ways \<open>main\<close> ends: it returns, or a \<open>CHECK\<close> exits with status 1, or it
  dereferences the NULL result list, which happens only when the resolver reports
  success with no address. It never writes outside the response buffer and the
  registration loop never faults.
\<close>

theorem main_outcomes:
  "main tls e = Some (r, w') \<Longrightarrow>
   r = Returned \<or> r = Exited 1 \<or> (r = Fault Null_deref \<and> gai_status e = 0 \<and> gai_list e = [])"
  using main_run_shape [of tls e r w'] by blast

theorem main_outcomes_witness:
  "\<exists>w'. main False env_dns = Some (Fault Null_deref, w') \<and>
        gai_status env_dns = 0 \<and> gai_list env_dns = []"
proof -
  have run: "main False env_dns = Some (Fault Null_deref, stage_world (resolve False env_dns (wait_start env_dns)))"
    using env_dns_run [of False] by simp
  from main_outcomes [OF run] run show ?thesis by auto
qed

text \<open>
  C14. The socket is closed at most once: a run's trace holds at most one
  \<open>close\<close>, of the socket \<open>socket()\<close> returned, as the last call of a run that
  returns normally.
\<close>

theorem main_close_at_most_once:
  assumes "main tls e = Some (r, w')"
  shows "length (filter is_close (calls w')) \<le> 1 \<and>
         (\<forall>c\<in>set (calls w'). is_close c \<longrightarrow> c = Call_close (socket_result e) \<and> c = last (calls w') \<and> r = Returned)"
proof -
  have nc: "\<not> is_close Call_mdm_reset" "\<not> is_close (Call_k_sleep n)" for n
    by (simp_all add: is_close_def)
  from main_run_shape [OF assms] consider (gate) "calls w' = [Call_mdm_reset]"
    | (run) k ys where "list_all is_io_call ys"
        "calls w' = Call_mdm_reset # replicate k (Call_k_sleep WAIT_SECONDS) @ ys \<or>
         calls w' = Call_mdm_reset # replicate k (Call_k_sleep WAIT_SECONDS) @ ys @
           [Call_close (socket_result e)] \<and> r = Returned"
    by blast
  then show ?thesis
  proof cases
    case gate
    then show ?thesis using nc by simp
  next
    case (run k ys)
    have f: "filter is_close ys = []" using run(1) by (rule io_call_not_close)
    then have ys: "\<not> is_close c" if "c \<in> set ys" for c
      using that by (metis filter_empty_conv)
    from run(2) show ?thesis
      using nc ys f by (auto simp: is_close_def filter_replicate)
  qed
qed

theorem main_close_at_most_once_witness:
  "\<exists>r w'. main False env_dns = Some (r, w') \<and>
     length (filter is_close (calls w')) \<le> 1"
proof -
  obtain r w' where run: "main False env_dns = Some (r, w')"
    using env_dns_run(1) [of False] by (cases "main_tail False env_dns (wait_start env_dns)") auto
  show ?thesis using main_close_at_most_once [OF run] run by blast
qed

lemma ready_by_0_start: "ready_by e 0 \<Longrightarrow> is_network_ready (wait_start e)"
  by (simp add: ready_by_def wait_start_facts(4))

lemma env_http_facts:
  "mdm_reset_result env_http = 0" "ready_by env_http 0" "gai_status env_http = 0"
  "gai_list env_http = [ai_local]" "socket_result env_http = 3" "connect_result env_http = 0"
  "send_result env_http = 40" "http_reply \<noteq> []" "length http_reply \<le> RECV_MAX"
  "CHR 0x00 \<notin> set http_reply" "SSTRLEN REQUEST = 40"
  by (simp_all add: env_http_def env_dns_def env_quiet_def ready_by_def readiness_after_def
      apply_effect_def event_effect_def http_reply_def CRLF_def RECV_MAX_eq SSTRLEN_def
      sizeof_literal_def REQUEST_def HTTP_PATH_def HTTP_HOST_def)

text \<open>
  C15. The end-to-end run of the specification: TLS disabled, the network ready
  when the wait starts, one address, and a peer that sends one reply that fits
  the buffer and closes. \<open>main\<close> prints exactly that reply, once, and returns, and
  its calls are the reset, one resolution, \<open>socket\<close>, \<open>connect\<close>, one \<open>send\<close> of the
  40-byte request, two \<open>recv\<close> (the second reading the end of the stream), and one
  \<open>close\<close> of the socket.
\<close>

theorem main_serves_one_reply:
  assumes "mdm_reset_result e = 0" "ready_by e 0" "gai_status e = 0" "gai_list e = ai # ais"
    "socket_result e \<noteq> -1" "connect_result e \<noteq> -1" "send_result e \<noteq> -1"
    "peer_data e = [Rx_data d]" "d \<noteq> []" "length d \<le> RECV_MAX" "CHR 0x00 \<notin> set d"
  shows "\<exists>w'. main False e = Some (Returned, w') \<and> printed (console w') = [d] \<and>
    calls w' = [Call_mdm_reset,
                Call_getaddrinfo HTTP_HOST (HTTP_PORT False) (addrinfo_zero\<lparr>ai_family := AF_INET, ai_socktype := SOCK_STREAM\<rparr>),
                Call_socket (ai_family ai) (ai_socktype ai) (ai_protocol ai),
                Call_connect (socket_result e) (ai_addr ai) (ai_addrlen ai),
                Call_send (socket_result e) REQUEST (SSTRLEN REQUEST),
                Call_recv (socket_result e) RECV_MAX, Call_recv (socket_result e) RECV_MAX,
                Call_close (socket_result e)]"
proof -
  have nt: "False \<longrightarrow> sec_tag_result e \<noteq> -1 \<and> hostname_result e \<noteq> -1" by simp
  from main_reaches_session [OF assms(1) ready_by_0_start [OF assms(2)] assms(3-5) nt assms(6)] obtain w where
    w: "main False e = Some (session e (socket_result e) w)"
       "calls w = [Call_mdm_reset,
               Call_getaddrinfo HTTP_HOST (HTTP_PORT False) (addrinfo_zero\<lparr>ai_family := AF_INET, ai_socktype := SOCK_STREAM\<rparr>),
               Call_socket (ai_family ai) (ai_socktype ai) (ai_protocol ai),
               Call_connect (socket_result e) (ai_addr ai) (ai_addrlen ai)]"
       "peer w = peer_data e" "length (response w) = RESPONSE_SIZE" "printed (console w) = []"
    by (auto simp: resolve_calls_def)
  from session_one_segment [OF assms(7) _ assms(9-11) w(4), of "socket_result e"] w(3) assms(8)
  show ?thesis
    using w by auto
qed

theorem main_serves_one_reply_witness:
  "\<exists>w'. main False env_http = Some (Returned, w') \<and> printed (console w') = [http_reply] \<and>
     calls w' = [Call_mdm_reset,
                 Call_getaddrinfo HTTP_HOST (HTTP_PORT False) (addrinfo_zero\<lparr>ai_family := AF_INET, ai_socktype := SOCK_STREAM\<rparr>),
                 Call_socket AF_INET SOCK_STREAM 6, Call_connect 3 (ai_addr ai_local) 8,
                 Call_send 3 REQUEST 40, Call_recv 3 RECV_MAX, Call_recv 3 RECV_MAX, Call_close 3]"
  using main_serves_one_reply [OF env_http_facts(1-4), of http_reply] env_http_facts
  by (simp add: env_http_def ai_local_def addrinfo_zero_def)

text \<open>
  C16. A short \<open>send\<close> counts as a complete one: \<open>CHECK\<close> only rejects -1, so a
  run in which \<open>send\<close> takes any other count of the 40 request bytes, fewer
  included, is the run in which it takes all of them. The request is never
  re-sent.
\<close>

theorem main_short_send_as_full:
  "send_result e \<noteq> -1 \<Longrightarrow> main tls e = main tls (e\<lparr>send_result := int (SSTRLEN REQUEST)\<rparr>)"
proof -
  assume "send_result e \<noteq> -1"
  moreover have "int (SSTRLEN REQUEST) \<noteq> -1" by simp
  ultimately show ?thesis
    by (intro main_env_cong [symmetric]) simp_all
qed

theorem main_short_send_as_full_witness:
  "send_result (env_http\<lparr>send_result := 5\<rparr>) \<noteq> -1 \<and>
   main False (env_http\<lparr>send_result := 5\<rparr>) = main False env_http"
proof -
  have "send_result (env_http\<lparr>send_result := 5\<rparr>) \<noteq> -1" by simp
  moreover have "env_http\<lparr>send_result := 5, send_result := int (SSTRLEN REQUEST)\<rparr> = env_http"
    using env_http_facts(7,11) by (cases env_http) simp
  ultimately show ?thesis
    using main_short_send_as_full [of "env_http\<lparr>send_result := 5\<rparr>" False] by simp
qed

text \<open>
  C17. The result of \<open>tls_credential_add\<close> is ignored: whatever it returns, the run
  is the run in which the trust anchor was installed.
\<close>

theorem main_ignores_credential_result:
  "main tls e = main tls (e\<lparr>cred_add_result := 0\<rparr>)"
  by (rule main_env_cong [symmetric]) simp_all

text \<open>
  C18. A failed read leaks the socket: when the peer's reply is followed by a
  failure of the connection, \<open>main\<close> prints the reply and the read error and
  returns, having created and connected the socket, without closing it.
\<close>

theorem main_read_error_leaks_socket:
  assumes "mdm_reset_result e = 0" "ready_by e 0" "gai_status e = 0" "gai_list e = ai # ais"
    "socket_result e \<noteq> -1" "connect_result e \<noteq> -1" "send_result e \<noteq> -1"
    "peer_data e = [Rx_data d, Rx_error]" "d \<noteq> []" "length d \<le> RECV_MAX" "CHR 0x00 \<notin> set d"
  shows "\<exists>w'. main False e = Some (Returned, w') \<and>
    Call_socket (ai_family ai) (ai_socktype ai) (ai_protocol ai) \<in> set (calls w') \<and>
    filter is_close (calls w') = [] \<and> printed (console w') = [d] \<and>
    last (console w') = Con_fmt ''Error reading response\<newline>'' []"
proof -
  have nt: "False \<longrightarrow> sec_tag_result e \<noteq> -1 \<and> hostname_result e \<noteq> -1" by simp
  from main_reaches_session [OF assms(1) ready_by_0_start [OF assms(2)] assms(3-5) nt assms(6)] obtain w where
    w: "main False e = Some (session e (socket_result e) w)"
       "calls w = [Call_mdm_reset,
               Call_getaddrinfo HTTP_HOST (HTTP_PORT False) (addrinfo_zero\<lparr>ai_family := AF_INET, ai_socktype := SOCK_STREAM\<rparr>),
               Call_socket (ai_family ai) (ai_socktype ai) (ai_protocol ai),
               Call_connect (socket_result e) (ai_addr ai) (ai_addrlen ai)]"
       "peer w = peer_data e" "length (response w) = RESPONSE_SIZE" "printed (console w) = []"
    by (auto simp: resolve_calls_def)
  from session_recv_error [OF assms(7) _ assms(9-11) w(4), of "socket_result e"] w(3) assms(8)
  show ?thesis
    using w by (auto simp: is_close_def)
qed

theorem main_read_error_leaks_socket_witness:
  "\<exists>w'. main False (env_http\<lparr>peer_data := [Rx_data http_reply, Rx_error]\<rparr>) = Some (Returned, w') \<and>
     Call_socket AF_INET SOCK_STREAM 6 \<in> set (calls w') \<and> filter is_close (calls w') = []"
proof -
  have f: "mdm_reset_result (env_http\<lparr>peer_data := [Rx_data http_reply, Rx_error]\<rparr>) = 0"
    "ready_by (env_http\<lparr>peer_data := [Rx_data http_reply, Rx_error]\<rparr>) 0"
    "gai_status (env_http\<lparr>peer_data := [Rx_data http_reply, Rx_error]\<rparr>) = 0"
    "gai_list (env_http\<lparr>peer_data := [Rx_data http_reply, Rx_error]\<rparr>) = ai_local # []"
    using env_http_facts(1-4) by (simp_all add: ready_by_def)
  show ?thesis
    using main_read_error_leaks_socket [OF f, of http_reply] env_http_facts
    by (auto simp: ai_local_def addrinfo_zero_def)
qed

text \<open>
  C19. A resolver that reports success with an empty list makes \<open>main\<close>
  dereference the NULL \<open>res\<close> in \<open>dump_addrinfo\<close>, once the network is ready.
\<close>

theorem main_null_result_list:
  assumes "mdm_reset_result e = 0" "ready_by e k" "gai_status e = 0" "gai_list e = []"
  shows "\<exists>w'. main tls e = Some (Fault Null_deref, w')"
proof -
  from wait_loop_ready_by [OF assms(2)] assms(1)
  have "main tls e = Some (main_tail tls e (polls e 0 (wait_start e) (LEAST j. ready_by e j)))"
    by (simp add: main_cases)
  moreover have "fst (main_tail tls e w) = Fault Null_deref" for w
    using assms(3,4) by (simp add: main_tail_def resolve_defs)
  ultimately show ?thesis
    by (metis prod.collapse)
qed

theorem main_null_result_list_witness:
  "\<exists>w'. main False env_dns = Some (Fault Null_deref, w')"
proof -
  have "mdm_reset_result env_dns = 0" "ready_by env_dns 0" "gai_status env_dns = 0" "gai_list env_dns = []"
    by (simp_all add: env_dns_def env_quiet_def ready_by_def readiness_after_def apply_effect_def event_effect_def)
  then show ?thesis by (rule main_null_result_list)
qed

text \<open>
  C28. The end-to-end run with TLS configured: the network is ready when the
  wait starts, and every call succeeds. \<open>main\<close> installs the CA certificate,
  resolves port 443, and creates a TLS socket. It sets the trusted tag list, then
  the host name to verify, and only then connects. It sends the request, prints
  the one reply once, and closes the socket.
\<close>

theorem main_tls_serves_one_reply:
  assumes "mdm_reset_result e = 0" "ready_by e 0" "gai_status e = 0" "gai_list e = ai # ais"
    "socket_result e \<noteq> -1" "sec_tag_result e \<noteq> -1" "hostname_result e \<noteq> -1"
    "connect_result e \<noteq> -1" "send_result e \<noteq> -1"
    "peer_data e = [Rx_data d]" "d \<noteq> []" "length d \<le> RECV_MAX" "CHR 0x00 \<notin> set d"
  shows "\<exists>w'. main True e = Some (Returned, w') \<and> printed (console w') = [d] \<and>
    calls w' = [Call_mdm_reset,
                Call_tls_credential_add CA_CERTIFICATE_TAG TLS_CREDENTIAL_CA_CERTIFICATE,
                Call_getaddrinfo HTTP_HOST (HTTP_PORT True) (addrinfo_zero\<lparr>ai_family := AF_INET, ai_socktype := SOCK_STREAM\<rparr>),
                Call_socket (ai_family ai) (ai_socktype ai) IPPROTO_TLS_1_2,
                Call_setsockopt (socket_result e) SOL_TLS TLS_SEC_TAG_LIST (Sec_tags [CA_CERTIFICATE_TAG]) 4,
                Call_setsockopt (socket_result e) SOL_TLS TLS_HOSTNAME (Opt_bytes (HTTP_HOST @ [CHR 0x00])) 11,
                Call_connect (socket_result e) (ai_addr ai) (ai_addrlen ai),
                Call_send (socket_result e) REQUEST (SSTRLEN REQUEST),
                Call_recv (socket_result e) RECV_MAX, Call_recv (socket_result e) RECV_MAX,
                Call_close (socket_result e)]"
proof -
  have tl: "True \<longrightarrow> sec_tag_result e \<noteq> -1 \<and> hostname_result e \<noteq> -1" using assms(6,7) by simp
  from main_reaches_session [OF assms(1) ready_by_0_start [OF assms(2)] assms(3-5) tl assms(8)] obtain w where
    w: "main True e = Some (session e (socket_result e) w)"
       "calls w = [Call_mdm_reset,
                Call_tls_credential_add CA_CERTIFICATE_TAG TLS_CREDENTIAL_CA_CERTIFICATE,
                Call_getaddrinfo HTTP_HOST (HTTP_PORT True) (addrinfo_zero\<lparr>ai_family := AF_INET, ai_socktype := SOCK_STREAM\<rparr>),
                Call_socket (ai_family ai) (ai_socktype ai) IPPROTO_TLS_1_2,
                Call_setsockopt (socket_result e) SOL_TLS TLS_SEC_TAG_LIST (Sec_tags [CA_CERTIFICATE_TAG]) 4,
                Call_setsockopt (socket_result e) SOL_TLS TLS_HOSTNAME (Opt_bytes (HTTP_HOST @ [CHR 0x00])) 11,
                Call_connect (socket_result e) (ai_addr ai) (ai_addrlen ai)]"
       "peer w = peer_data e" "length (response w) = RESPONSE_SIZE" "printed (console w) = []"
    by (auto simp: resolve_calls_def)
  from session_one_segment [OF assms(9) _ assms(11-13) w(4), of "socket_result e"] w(3) assms(10)
  show ?thesis
    using w by auto
qed

theorem main_tls_serves_one_reply_witness:
  "\<exists>w'. main True env_http = Some (Returned, w') \<and> printed (console w') = [http_reply] \<and>
     calls w' = [Call_mdm_reset,
                 Call_tls_credential_add CA_CERTIFICATE_TAG TLS_CREDENTIAL_CA_CERTIFICATE,
                 Call_getaddrinfo HTTP_HOST (HTTP_PORT True) (addrinfo_zero\<lparr>ai_family := AF_INET, ai_socktype := SOCK_STREAM\<rparr>),
                 Call_socket AF_INET SOCK_STREAM IPPROTO_TLS_1_2,
                 Call_setsockopt 3 SOL_TLS TLS_SEC_TAG_LIST (Sec_tags [CA_CERTIFICATE_TAG]) 4,
                 Call_setsockopt 3 SOL_TLS TLS_HOSTNAME (Opt_bytes (HTTP_HOST @ [CHR 0x00])) 11,
                 Call_connect 3 (ai_addr ai_local) 8,
                 Call_send 3 REQUEST 40, Call_recv 3 RECV_MAX, Call_recv 3 RECV_MAX, Call_close 3]"
proof -
  have f: "sec_tag_result env_http \<noteq> -1" "hostname_result env_http \<noteq> -1"
    by (simp_all add: env_http_def env_dns_def env_quiet_def)
  show ?thesis
    using main_tls_serves_one_reply [OF env_http_facts(1-4) _ f, of http_reply] env_http_facts
    by (simp add: env_http_def ai_local_def addrinfo_zero_def)
qed

text \<open>
  C29. A failed socket creation ends the program through \<open>CHECK\<close>. When
  \<open>socket\<close> returns -1, \<open>main\<close> prints \<open>Error: sock\<close> and exits with status 1.
  \<open>socket\<close> is the last call it makes: no TLS option, no \<open>connect\<close>, no
  request, and no \<open>close\<close>.
\<close>

theorem main_socket_failure_exits:
  assumes "mdm_reset_result e = 0" "ready_by e 0" "gai_status e = 0" "gai_list e = ai # ais"
    "socket_result e = -1"
  shows "\<exists>w'. main tls e = Some (Exited 1, w') \<and>
    calls w' = Call_mdm_reset # resolve_calls tls @
                 [Call_socket (ai_family ai) (ai_socktype ai) (if tls then IPPROTO_TLS_1_2 else ai_protocol ai)] \<and>
    last (console w') = Con_fmt ''Error: sock\<newline>'' []"
proof -
  define W0 where "W0 = wait_start e"
  define W1 where "W1 = stage_world (resolve tls e W0)"
  have r: "resolve tls e W0 = Inr (ai, W1)"
    using assms(3,4) unfolding W1_def by (cases tls; simp add: resolve_defs)
  define W2 where "W2 = stage_world (open_connection tls e ai W1)"
  have oc: "open_connection tls e ai W1 = Inl (Exited 1, W2)"
    using assms(5) open_connection_result [of tls e ai W1] unfolding W2_def by simp
  have m: "main tls e = Some (Exited 1, W2)"
    using assms(1) ready_by_0_start [OF assms(2)] r oc by (simp add: main_cases main_tail_def W0_def)
  have "calls W2 = Call_mdm_reset # resolve_calls tls @
          [Call_socket (ai_family ai) (ai_socktype ai) (if tls then IPPROTO_TLS_1_2 else ai_protocol ai)]"
    using assms(5) resolve_trace(1) [of tls e W0] open_connection_trace [of tls e ai W1]
    unfolding W2_def W1_def W0_def by (simp add: wait_start_facts(2))
  moreover have "last (console W2) = Con_fmt ''Error: sock\<newline>'' []"
    using assms(5) unfolding W2_def by (cases tls) (simp_all add: connection_defs)
  ultimately show ?thesis using m by blast
qed

theorem main_socket_failure_exits_witness:
  "\<exists>w'. main False (env_http\<lparr>socket_result := -1\<rparr>) = Some (Exited 1, w') \<and>
     calls w' = Call_mdm_reset # resolve_calls False @ [Call_socket AF_INET SOCK_STREAM 6] \<and>
     last (console w') = Con_fmt ''Error: sock\<newline>'' []"
proof -
  have f: "mdm_reset_result (env_http\<lparr>socket_result := -1\<rparr>) = 0"
    "ready_by (env_http\<lparr>socket_result := -1\<rparr>) 0"
    "gai_status (env_http\<lparr>socket_result := -1\<rparr>) = 0"
    "gai_list (env_http\<lparr>socket_result := -1\<rparr>) = ai_local # []"
    "socket_result (env_http\<lparr>socket_result := -1\<rparr>) = -1"
    using env_http_facts(1-4) by (simp_all add: ready_by_def)
  show ?thesis
    using main_socket_failure_exits [OF f, of False] by (simp add: ai_local_def addrinfo_zero_def)
qed

end
